(* ===== verification/Prelude.thy ===== *)
theory Prelude
  imports Main "HOL-Library.Word" "HOL-Library.Char_ord" "HOL-Library.List_Lexorder"
    "HOL-Library.Multiset"
begin

text \<open>
  Prelude of the rpcpio development: the names of the C++ types the model uses, the
  standard-library operations the sources call (decimal printing, substring search,
  prefixes of string views), the theorem collections, and the generic lemmas on lists,
  characters and words that every component shares.

  \<^item> \<open>std::string\<close>, \<open>std::string_view\<close> and \<open>std::vector<char>\<close> are all \<open>bytes\<close>, a list of
    characters; a HOL character is a byte.
  \<^item> \<open>std::uint8_t\<close>, \<open>std::uint32_t\<close> and \<open>std::uint64_t\<close> are words of that width.
  \<^item> \<open>std::size_t\<close> lengths of objects that exist in memory are \<open>nat\<close>; the places where a
    64-bit product or sum could wrap are modelled with words.
\<close>

unbundle bit_operations_syntax

type_synonym bytes = string
type_synonym u8 = "8 word"
type_synonym u32 = "32 word"
type_synonym u64 = "64 word"

named_theorems model_defs \<open>defining equations of the model's non-recursive operations\<close>
named_theorems codec_simps \<open>rewrite rules for the byte codecs\<close>
named_theorems frame_simps \<open>rewrite rules for the length-prefixed message frames\<close>
named_theorems gate_simps \<open>rewrite rules for the single-fire gates of the call states\<close>

section \<open>Casts between characters and words\<close>

text \<open>\<open>static_cast<unsigned char>(c)\<close> followed by a widening to the word type at hand.\<close>

definition char_u32 :: "char \<Rightarrow> u32" where
  "char_u32 c = of_nat (of_char c)"

definition char_u8 :: "char \<Rightarrow> u8" where
  "char_u8 c = of_nat (of_char c)"

text \<open>\<open>static_cast<char>(w)\<close> keeps the low eight bits.\<close>

definition u32_char :: "u32 \<Rightarrow> char" where
  "u32_char w = char_of (unat w)"

definition u8_char :: "u8 \<Rightarrow> char" where
  "u8_char w = char_of (unat w)"

lemma unat_char_u32 [simp]: "unat (char_u32 c) = of_char c"
  using order.strict_trans [OF nat_of_char_less_256 [of c], of "2 ^ 32"]
  by (simp add: char_u32_def unat_of_nat)

lemma unat_char_u8 [simp]: "unat (char_u8 c) = of_char c"
  using nat_of_char_less_256 [of c] by (simp add: char_u8_def unat_of_nat)

lemma u8_char_char_u8 [simp]: "u8_char (char_u8 c) = c"
  by (simp add: u8_char_def)

lemma char_u8_u8_char [simp]: "char_u8 (u8_char w) = w"
proof -
  have "unat w < 256"
    using unsigned_less [of w] by simp
  then show ?thesis
    by (simp add: char_u8_def u8_char_def)
qed

lemma u32_char_char_u32 [simp]: "u32_char (char_u32 c) = c"
  by (simp add: u32_char_def)

lemma char_u32_less: "char_u32 c < 256"
  by (simp add: word_less_nat_alt)

lemma bit_char_u32_high: "8 \<le> n \<Longrightarrow> \<not> bit (char_u32 c) n"
proof -
  assume n: "8 \<le> n"
  have "(of_char c :: nat) < 2 ^ n"
    using order.strict_trans2 [OF nat_of_char_less_256 [of c]] power_increasing [OF n, of "2::nat"]
    by simp
  then have "\<not> bit (of_char c :: nat) n"
    by (simp add: bit_iff_odd)
  then show ?thesis
    by (simp add: char_u32_def bit_of_nat_iff)
qed

lemma char_u32_inject [simp]: "char_u32 c = char_u32 d \<longleftrightarrow> c = d"
  by (metis u32_char_char_u32)

lemma unat_of_nat_u32: "n < 2 ^ 32 \<Longrightarrow> unat (of_nat n :: u32) = n"
  by (simp add: unat_of_nat)

section \<open>Decimal numbers\<close>

text \<open>\<open>std::to_string\<close> on an unsigned value, and on a signed one.\<close>

definition digit_char :: "nat \<Rightarrow> char" where
  "digit_char d = char_of (48 + d)"

fun to_string :: "nat \<Rightarrow> string" where
  "to_string n = (if n < 10 then [digit_char n] else to_string (n div 10) @ [digit_char (n mod 10)])"

declare to_string.simps [simp del]

definition int_to_string :: "int \<Rightarrow> string" where
  "int_to_string i = (if i < 0 then CHR ''-'' # to_string (nat (- i)) else to_string (nat i))"

text \<open>The test \<open>c < '0' || c > '9'\<close> that the digit loops of the sources start with, and \<open>c - '0'\<close>.\<close>

definition is_digit :: "char \<Rightarrow> bool" where
  "is_digit c \<longleftrightarrow> 48 \<le> (of_char c :: nat) \<and> (of_char c :: nat) \<le> 57"

definition digit_val :: "char \<Rightarrow> nat" where
  "digit_val c = of_char c - 48"

definition decimal_value :: "nat \<Rightarrow> string \<Rightarrow> nat" where
  "decimal_value = foldl (\<lambda>v c. v * 10 + digit_val c)"

lemma decimal_value_simps [simp]:
  "decimal_value v [] = v"
  "decimal_value v (c # cs) = decimal_value (v * 10 + digit_val c) cs"
  "decimal_value v (cs @ [c]) = decimal_value v cs * 10 + digit_val c"
  by (simp_all add: decimal_value_def)

lemma digit_char_props [simp]:
  assumes "d < 10"
  shows "is_digit (digit_char d)" "digit_val (digit_char d) = d"
  using assms by (simp_all add: is_digit_def digit_val_def digit_char_def)

lemma to_string_small: "n < 10 \<Longrightarrow> to_string n = [digit_char n]"
  by (simp add: to_string.simps)

lemma to_string_big: "10 \<le> n \<Longrightarrow> to_string n = to_string (n div 10) @ [digit_char (n mod 10)]"
  by (subst to_string.simps) simp

lemma to_string_not_Nil [simp]: "to_string n \<noteq> []"
  by (subst to_string.simps) simp

lemma to_string_is_digit: "c \<in> set (to_string n) \<Longrightarrow> is_digit c"
proof (induction n rule: to_string.induct)
  case (1 n)
  then show ?case
    by (cases "n < 10") (auto simp: to_string_small to_string_big)
qed

lemma decimal_value_to_string [simp]: "decimal_value 0 (to_string n) = n"
proof (induction n rule: to_string.induct)
  case (1 n)
  then show ?case
    by (cases "n < 10") (auto simp: to_string_small to_string_big)
qed

lemma length_to_string_le: "n < 10 ^ k \<Longrightarrow> 0 < k \<Longrightarrow> length (to_string n) \<le> k"
proof (induction k arbitrary: n)
  case 0
  then show ?case by simp
next
  case (Suc k)
  show ?case
  proof (cases "n < 10")
    case True
    then show ?thesis by (simp add: to_string_small)
  next
    case False
    then have "k \<noteq> 0" using Suc.prems by (cases k) auto
    moreover have "n div 10 < 10 ^ k" using Suc.prems by (simp add: less_mult_imp_div_less mult.commute)
    ultimately have "length (to_string (n div 10)) \<le> k" using Suc.IH by simp
    with False show ?thesis by (simp add: to_string_big)
  qed
qed

lemma decimal_value_bound:
  "\<forall>c \<in> set cs. is_digit c \<Longrightarrow> decimal_value v cs < (v + 1) * 10 ^ length cs"
proof (induction cs arbitrary: v)
  case Nil
  then show ?case by simp
next
  case (Cons c cs)
  then have "decimal_value (v * 10 + digit_val c) cs < (v * 10 + digit_val c + 1) * 10 ^ length cs"
    by simp
  moreover have "digit_val c \<le> 9"
    using Cons.prems by (auto simp: is_digit_def digit_val_def)
  then have "(v * 10 + digit_val c + 1) * 10 ^ length cs \<le> (v + 1) * 10 * 10 ^ length cs"
    by (intro mult_right_mono) auto
  ultimately have "decimal_value (v * 10 + digit_val c) cs < (v + 1) * 10 * 10 ^ length cs"
    by (rule order.strict_trans2)
  then show ?case
    by (simp add: algebra_simps)
qed

section \<open>Substrings\<close>

text \<open>\<open>key.size() >= p.size() && key.substr(0, p.size()) == p\<close>.\<close>

fun starts_with :: "string \<Rightarrow> string \<Rightarrow> bool" where
  "starts_with [] s = True"
| "starts_with (p # ps) [] = False"
| "starts_with (p # ps) (c # cs) = (p = c \<and> starts_with ps cs)"

text \<open>\<open>s.find(p) != std::string::npos\<close>.\<close>

fun str_contains :: "string \<Rightarrow> string \<Rightarrow> bool" where
  "str_contains p [] = (p = [])"
| "str_contains p (c # cs) = (starts_with p (c # cs) \<or> str_contains p cs)"

lemma starts_with_iff: "starts_with p s \<longleftrightarrow> (\<exists>r. s = p @ r)"
  by (induction p s rule: starts_with.induct) auto

lemma str_contains_iff: "str_contains p s \<longleftrightarrow> (\<exists>l r. s = l @ p @ r)"
proof (induction s)
  case Nil
  then show ?case by simp
next
  case (Cons c cs)
  show ?case
  proof
    assume "str_contains p (c # cs)"
    then consider r where "c # cs = p @ r" | "str_contains p cs"
      by (auto simp: starts_with_iff)
    then show "\<exists>l r. c # cs = l @ p @ r"
      using Cons.IH by cases (auto intro: exI [of _ "[]"], metis append_Cons)
  next
    assume "\<exists>l r. c # cs = l @ p @ r"
    then obtain l r where "c # cs = l @ p @ r" by blast
    then have "starts_with p (c # cs) \<or> (\<exists>l' r'. cs = l' @ p @ r')"
      by (cases l) (auto simp: starts_with_iff)
    then show "str_contains p (c # cs)"
      using Cons.IH by simp
  qed
qed

section \<open>Lists\<close>

lemma take_drop_split: "take n xs @ drop n xs = xs"
  by simp

lemma drop_split_at: "drop i xs = take n (drop i xs) @ drop (i + n) xs"
  by (metis add.commute append_take_drop_id drop_drop)

lemma sum_list_append_map: "sum_list (map f (xs @ ys)) = sum_list (map f xs) + sum_list (map f ys)"
  for f :: "'a \<Rightarrow> nat"
  by simp

end
