(* ===== verification/Status.thy ===== *)
theory Status
  imports Prelude
begin

text \<open>
  The status values of \<open>include/rpcpio/status.h\<close>: the seventeen canonical codes, the
  \<open>Status\<close> class, the HTTP fallback table and the result types \<open>StatusOr\<close>, \<open>UnaryResult\<close>
  and \<open>UnaryResultRaw\<close> (\<open>include/rpcpio/unary_result_raw.h\<close>).
\<close>

section \<open>Status codes\<close>

datatype StatusCode =
    OK | CANCELLED | UNKNOWN | INVALID_ARGUMENT | DEADLINE_EXCEEDED | NOT_FOUND
  | ALREADY_EXISTS | PERMISSION_DENIED | RESOURCE_EXHAUSTED | FAILED_PRECONDITION | ABORTED
  | OUT_OF_RANGE | UNIMPLEMENTED | INTERNAL | UNAVAILABLE | DATA_LOSS | UNAUTHENTICATED

text \<open>The enumerators' values: \<open>static_cast<int>(code)\<close>.\<close>

fun code_int :: "StatusCode \<Rightarrow> int" where
  "code_int OK = 0"
| "code_int CANCELLED = 1"
| "code_int UNKNOWN = 2"
| "code_int INVALID_ARGUMENT = 3"
| "code_int DEADLINE_EXCEEDED = 4"
| "code_int NOT_FOUND = 5"
| "code_int ALREADY_EXISTS = 6"
| "code_int PERMISSION_DENIED = 7"
| "code_int RESOURCE_EXHAUSTED = 8"
| "code_int FAILED_PRECONDITION = 9"
| "code_int ABORTED = 10"
| "code_int OUT_OF_RANGE = 11"
| "code_int UNIMPLEMENTED = 12"
| "code_int INTERNAL = 13"
| "code_int UNAVAILABLE = 14"
| "code_int DATA_LOSS = 15"
| "code_int UNAUTHENTICATED = 16"

fun StatusCodeName :: "StatusCode \<Rightarrow> string" where
  "StatusCodeName OK = ''OK''"
| "StatusCodeName CANCELLED = ''CANCELLED''"
| "StatusCodeName UNKNOWN = ''UNKNOWN''"
| "StatusCodeName INVALID_ARGUMENT = ''INVALID_ARGUMENT''"
| "StatusCodeName DEADLINE_EXCEEDED = ''DEADLINE_EXCEEDED''"
| "StatusCodeName NOT_FOUND = ''NOT_FOUND''"
| "StatusCodeName ALREADY_EXISTS = ''ALREADY_EXISTS''"
| "StatusCodeName PERMISSION_DENIED = ''PERMISSION_DENIED''"
| "StatusCodeName RESOURCE_EXHAUSTED = ''RESOURCE_EXHAUSTED''"
| "StatusCodeName FAILED_PRECONDITION = ''FAILED_PRECONDITION''"
| "StatusCodeName ABORTED = ''ABORTED''"
| "StatusCodeName OUT_OF_RANGE = ''OUT_OF_RANGE''"
| "StatusCodeName UNIMPLEMENTED = ''UNIMPLEMENTED''"
| "StatusCodeName INTERNAL = ''INTERNAL''"
| "StatusCodeName UNAVAILABLE = ''UNAVAILABLE''"
| "StatusCodeName DATA_LOSS = ''DATA_LOSS''"
| "StatusCodeName UNAUTHENTICATED = ''UNAUTHENTICATED''"

definition IsKnownStatusCode :: "int \<Rightarrow> bool" where
  "IsKnownStatusCode v \<longleftrightarrow> 0 \<le> v \<and> v \<le> 16"

text \<open>The enumerators in the order of their values; \<open>static_cast<StatusCode>(v)\<close> on a known
  value picks the enumerator at that position.\<close>

definition all_codes :: "StatusCode list" where
  "all_codes = [OK, CANCELLED, UNKNOWN, INVALID_ARGUMENT, DEADLINE_EXCEEDED, NOT_FOUND,
     ALREADY_EXISTS, PERMISSION_DENIED, RESOURCE_EXHAUSTED, FAILED_PRECONDITION, ABORTED,
     OUT_OF_RANGE, UNIMPLEMENTED, INTERNAL, UNAVAILABLE, DATA_LOSS, UNAUTHENTICATED]"

definition StatusCodeFromInt :: "int \<Rightarrow> StatusCode" where
  "StatusCodeFromInt v = (if IsKnownStatusCode v then all_codes ! nat v else UNKNOWN)"

lemma code_int_range [simp]: "0 \<le> code_int c" "code_int c \<le> 16"
  by (cases c; simp)+

lemma StatusCodeFromInt_code_int [simp]: "StatusCodeFromInt (code_int c) = c"
  by (cases c) (simp_all add: StatusCodeFromInt_def IsKnownStatusCode_def all_codes_def)

lemma code_int_inject [simp]: "code_int c = code_int d \<longleftrightarrow> c = d"
  by (metis StatusCodeFromInt_code_int)

text \<open>The built-in comparison of a scoped enumeration is that of its values.\<close>

instantiation StatusCode :: linorder
begin

definition less_eq_StatusCode :: "StatusCode \<Rightarrow> StatusCode \<Rightarrow> bool" where
  "less_eq_StatusCode c d \<longleftrightarrow> code_int c \<le> code_int d"

definition less_StatusCode :: "StatusCode \<Rightarrow> StatusCode \<Rightarrow> bool" where
  "less_StatusCode c d \<longleftrightarrow> code_int c < code_int d"

instance
  by standard (auto simp: less_eq_StatusCode_def less_StatusCode_def)

end

section \<open>Status\<close>

record Status =
  status_code :: StatusCode
  status_message :: string
  status_details :: string

text \<open>The two constructors: the default one and \<open>Status{code, message}\<close> with empty details.\<close>

definition status_ok :: Status where
  "status_ok = \<lparr>status_code = OK, status_message = [], status_details = []\<rparr>"

definition mk_status :: "StatusCode \<Rightarrow> string \<Rightarrow> Status" where
  "mk_status c m = \<lparr>status_code = c, status_message = m, status_details = []\<rparr>"

definition is_ok :: "Status \<Rightarrow> bool" where
  "is_ok s \<longleftrightarrow> status_code s = OK"

lemma mk_status_sel [simp]:
  "status_code (mk_status c m) = c" "status_message (mk_status c m) = m"
  "status_details (mk_status c m) = []"
  by (simp_all add: mk_status_def)

lemma is_ok_status_ok [simp]: "is_ok status_ok"
  by (simp add: is_ok_def status_ok_def)

lemma is_ok_mk_status [simp]: "is_ok (mk_status c m) \<longleftrightarrow> c = OK"
  by (simp add: is_ok_def mk_status_def)

definition DebugString :: "Status \<Rightarrow> string" where
  "DebugString s =
     (if is_ok s then ''OK''
      else ''StatusCode::'' @ StatusCodeName (status_code s)
        @ (if status_message s \<noteq> []
           then '' message:'' @ [CHR 0x22] @ status_message s @ [CHR 0x22] else [])
        @ (if status_details s \<noteq> []
           then '' details:<'' @ to_string (length (status_details s)) @ '' bytes>'' else []))"

definition http_code :: "int \<Rightarrow> StatusCode" where
  "http_code http =
     (if http = 400 then INTERNAL
      else if http = 401 then UNAUTHENTICATED
      else if http = 403 then PERMISSION_DENIED
      else if http = 404 then UNIMPLEMENTED
      else if http = 429 then UNAVAILABLE
      else if http = 502 then UNAVAILABLE
      else if http = 503 then UNAVAILABLE
      else if http = 504 then UNAVAILABLE
      else UNKNOWN)"

definition FromHttpStatus :: "int \<Rightarrow> Status" where
  "FromHttpStatus http = mk_status (http_code http) (''HTTP '' @ int_to_string http)"

lemma http_code_not_OK [simp]: "http_code h \<noteq> OK"
  by (simp add: http_code_def)

lemma FromHttpStatus_not_ok [simp]: "\<not> is_ok (FromHttpStatus h)"
  by (simp add: FromHttpStatus_def)

section \<open>StatusOr\<close>

text \<open>
  A \<open>StatusOr<T>\<close> is an optional value with a status. Constructing one from an OK status
  throws \<open>std::invalid_argument\<close>; reading the value of one that is not OK throws
  \<open>std::runtime_error\<close> with the status's debug string. Exceptions are the \<open>Inl\<close> side of a sum.
\<close>

record 'a StatusOr =
  so_value :: "'a option"
  so_status :: Status

datatype cpp_exception = InvalidArgument string | RuntimeError string

definition statusor_of_value :: "'a \<Rightarrow> 'a StatusOr" where
  "statusor_of_value v = \<lparr>so_value = Some v, so_status = status_ok\<rparr>"

definition statusor_of_status :: "Status \<Rightarrow> cpp_exception + 'a StatusOr" where
  "statusor_of_status s =
     (if is_ok s then Inl (InvalidArgument ''StatusOr constructed from OK Status'')
      else Inr \<lparr>so_value = None, so_status = s\<rparr>)"

definition statusor_value :: "'a StatusOr \<Rightarrow> cpp_exception + 'a option" where
  "statusor_value r =
     (if is_ok (so_status r) then Inr (so_value r) else Inl (RuntimeError (DebugString (so_status r))))"

section \<open>Results of unary calls\<close>

text \<open>A \<open>MetadataMap\<close> is a sorted multimap from strings to strings; see theory \<open>Metadata\<close>.\<close>

type_synonym MetadataMap = "(string \<times> string) list"

record UnaryResultRaw =
  rr_status :: Status
  rr_response_bytes :: bytes
  rr_initial_metadata :: MetadataMap
  rr_trailing_metadata :: MetadataMap
  rr_has_response :: bool

text \<open>\<open>UnaryResultRaw{status}\<close>: every other member takes its default.\<close>

definition raw_result :: "Status \<Rightarrow> UnaryResultRaw" where
  "raw_result s = \<lparr>rr_status = s, rr_response_bytes = [], rr_initial_metadata = [],
     rr_trailing_metadata = [], rr_has_response = False\<rparr>"

lemma raw_result_sel [simp]:
  "rr_status (raw_result s) = s" "rr_response_bytes (raw_result s) = []"
  "rr_initial_metadata (raw_result s) = []" "rr_trailing_metadata (raw_result s) = []"
  "\<not> rr_has_response (raw_result s)"
  by (simp_all add: raw_result_def)

record 'a UnaryResult =
  ur_status :: Status
  ur_response :: "'a option"
  ur_initial_metadata :: MetadataMap
  ur_trailing_metadata :: MetadataMap

end
