(* ===== verification/ChannelTls.thy ===== *)
theory ChannelTls
  imports Status
begin

text \<open>
  The TLS part of \<open>src/client/channel_impl.cc\<close> (\<open>ConfigureTlsContext\<close>, \<open>BuildTlsContext\<close>,
  \<open>ValidateChannelOptions\<close>) and \<open>ChannelOptions\<close> (\<open>include/rpcpio/channel.h\<close>).

  What OpenSSL and Boost.Asio answer is the record \<open>TlsEnv\<close>: an error text where a call can fail,
  the exception text where constructing the context throws. The calls that succeed on the context
  are returned in order; an error of \<open>set_default_verify_paths\<close> is cleared by the code.
\<close>

record ChannelOptions =
  co_use_tls :: bool
  co_verify_peer :: bool
  co_ca_cert_file :: string
  co_client_cert_file :: string
  co_client_key_file :: string
  co_use_h2c :: bool
  co_connect_timeout :: int
  co_user_agent :: string
  co_max_receive_message_size :: nat
  co_max_send_message_size :: nat

definition default_ChannelOptions :: ChannelOptions where
  "default_ChannelOptions = \<lparr>co_use_tls = True, co_verify_peer = True, co_ca_cert_file = [], co_client_cert_file = [],
     co_client_key_file = [], co_use_h2c = False, co_connect_timeout = 5000, co_user_agent = ''rpcpio/0.1'',
     co_max_receive_message_size = 4 * 1024 * 1024, co_max_send_message_size = 4 * 1024 * 1024\<rparr>"

record TlsEnv =
  te_construct :: "string option"
  te_set_options :: "string option"
  te_load_verify_file :: "string option"
  te_default_verify_paths :: "string option"
  te_certificate_chain :: "string option"
  te_private_key :: "string option"
  te_check_private_key :: "string option"
  te_verify_mode :: "string option"
  te_alpn :: bool

datatype tls_action =
    SetOptions
  | LoadVerifyFile string
  | SetDefaultVerifyPaths
  | UseCertificateChain string
  | UsePrivateKey string
  | CheckPrivateKey
  | SetVerifyMode bool
  | SetAlpn string

definition TlsFileError :: "string \<Rightarrow> string \<Rightarrow> string \<Rightarrow> Status" where
  "TlsFileError kind path error = mk_status INVALID_ARGUMENT (kind @ '' '' @ [CHR 0x27] @ path @ [CHR 0x27] @ '': '' @ error)"

definition kH2Alpn :: string where
  "kH2Alpn = CHR 0x02 # ''h2''"

definition ConfigureTlsContext :: "TlsEnv \<Rightarrow> ChannelOptions \<Rightarrow> Status \<times> tls_action list" where
  "ConfigureTlsContext env opts =
     (if (co_client_cert_file opts = []) \<noteq> (co_client_key_file opts = [])
      then (mk_status INVALID_ARGUMENT ''client certificate and private key files must be set together'', [])
      else
      case te_set_options env of
        Some e \<Rightarrow> (mk_status INVALID_ARGUMENT (''TLS context options: '' @ e), [])
      | None \<Rightarrow>
      case (if co_ca_cert_file opts \<noteq> [] then te_load_verify_file env else None) of
        Some e \<Rightarrow> (TlsFileError ''CA certificate file'' (co_ca_cert_file opts) e, [SetOptions])
      | None \<Rightarrow>
      let acts = (if co_ca_cert_file opts \<noteq> [] then [SetOptions, LoadVerifyFile (co_ca_cert_file opts)]
                  else if te_default_verify_paths env = None then [SetOptions, SetDefaultVerifyPaths] else [SetOptions]);
          client = (co_client_cert_file opts \<noteq> [])
      in
      case (if client then te_certificate_chain env else None) of
        Some e \<Rightarrow> (TlsFileError ''client certificate file'' (co_client_cert_file opts) e, acts)
      | None \<Rightarrow>
      let acts1 = (if client then acts @ [UseCertificateChain (co_client_cert_file opts)] else acts)
      in
      case (if client then te_private_key env else None) of
        Some e \<Rightarrow> (TlsFileError ''client private key file'' (co_client_key_file opts) e, acts1)
      | None \<Rightarrow>
      let acts2 = (if client then acts1 @ [UsePrivateKey (co_client_key_file opts)] else acts1)
      in
      case (if client then te_check_private_key env else None) of
        Some e \<Rightarrow> (mk_status INVALID_ARGUMENT (''client certificate and private key do not match: '' @ e), acts2)
      | None \<Rightarrow>
      let acts3 = (if client then acts2 @ [CheckPrivateKey] else acts2)
      in
      case te_verify_mode env of
        Some e \<Rightarrow> (mk_status INVALID_ARGUMENT (''TLS verification mode: '' @ e), acts3)
      | None \<Rightarrow>
      let acts4 = acts3 @ [SetVerifyMode (co_verify_peer opts)]
      in if \<not> te_alpn env then (mk_status INVALID_ARGUMENT ''failed to configure TLS ALPN'', acts4)
         else (status_ok, acts4 @ [SetAlpn kH2Alpn]))"

definition BuildTlsContext :: "TlsEnv \<Rightarrow> ChannelOptions \<Rightarrow> Status \<times> tls_action list" where
  "BuildTlsContext env opts =
     (case te_construct env of
        Some what \<Rightarrow> (mk_status INVALID_ARGUMENT (''TLS configuration: '' @ what), [])
      | None \<Rightarrow> ConfigureTlsContext env opts)"

definition ValidateChannelOptions :: "TlsEnv \<Rightarrow> ChannelOptions \<Rightarrow> Status" where
  "ValidateChannelOptions env opts =
     (if \<not> co_use_tls opts \<or> co_use_h2c opts then status_ok else fst (BuildTlsContext env opts))"

section \<open>Properties\<close>

text \<open>
  C31: A TLS context is refused with INVALID_ARGUMENT or configured completely, and it is accepted exactly when
  every step it needs succeeds: the certificate and the key are both set or both empty, and constructing the
  context, its options, the configured CA file, the certificate, its key, their match, the
  verification mode and ALPN all succeed. An accepted context trusts the configured file, or the
  system's store if that can be loaded: a failure to load the system's store is ignored. It verifies the
  peer exactly when the options say so, offers \<open>h2\<close>, and uses a client certificate only together with
  a key that has been checked against it.
\<close>

theorem tls_context_complete:
  assumes "BuildTlsContext env opts = (st, acts)" "client = (co_client_cert_file opts \<noteq> [])"
  shows "(\<not> is_ok st \<longrightarrow> status_code st = INVALID_ARGUMENT)
    \<and> (is_ok st \<longleftrightarrow> client = (co_client_key_file opts \<noteq> []) \<and> te_construct env = None \<and> te_set_options env = None
        \<and> (co_ca_cert_file opts \<noteq> [] \<longrightarrow> te_load_verify_file env = None)
        \<and> (client \<longrightarrow> te_certificate_chain env = None \<and> te_private_key env = None \<and> te_check_private_key env = None)
        \<and> te_verify_mode env = None \<and> te_alpn env)
    \<and> (is_ok st \<longrightarrow> acts = [SetOptions]
        @ (if co_ca_cert_file opts \<noteq> [] then [LoadVerifyFile (co_ca_cert_file opts)]
           else if te_default_verify_paths env = None then [SetDefaultVerifyPaths] else [])
        @ (if client then [UseCertificateChain (co_client_cert_file opts), UsePrivateKey (co_client_key_file opts), CheckPrivateKey] else [])
        @ [SetVerifyMode (co_verify_peer opts), SetAlpn kH2Alpn])"
proof (intro conjI)
  note defs = BuildTlsContext_def ConfigureTlsContext_def Let_def TlsFileError_def
  show "\<not> is_ok st \<longrightarrow> status_code st = INVALID_ARGUMENT"
    using assms(1) unfolding defs by (auto split: option.splits if_splits)
  show "is_ok st \<longleftrightarrow> client = (co_client_key_file opts \<noteq> []) \<and> te_construct env = None \<and> te_set_options env = None
      \<and> (co_ca_cert_file opts \<noteq> [] \<longrightarrow> te_load_verify_file env = None)
      \<and> (client \<longrightarrow> te_certificate_chain env = None \<and> te_private_key env = None \<and> te_check_private_key env = None)
      \<and> te_verify_mode env = None \<and> te_alpn env"
    using assms unfolding defs by (auto split: option.splits if_splits)
  show "is_ok st \<longrightarrow> acts = [SetOptions]
      @ (if co_ca_cert_file opts \<noteq> [] then [LoadVerifyFile (co_ca_cert_file opts)]
         else if te_default_verify_paths env = None then [SetDefaultVerifyPaths] else [])
      @ (if client then [UseCertificateChain (co_client_cert_file opts), UsePrivateKey (co_client_key_file opts), CheckPrivateKey] else [])
      @ [SetVerifyMode (co_verify_peer opts), SetAlpn kH2Alpn]"
    using assms unfolding defs by (auto split: option.splits if_splits)
qed

definition sample_tls :: TlsEnv where
  "sample_tls = \<lparr>te_construct = None, te_set_options = None, te_load_verify_file = None, te_default_verify_paths = None,
     te_certificate_chain = None, te_private_key = None, te_check_private_key = None, te_verify_mode = None, te_alpn = True\<rparr>"

theorem tls_context_complete_witness:
  "is_ok (fst (BuildTlsContext sample_tls default_ChannelOptions))
   \<and> \<not> is_ok (fst (BuildTlsContext (sample_tls\<lparr>te_check_private_key := Some ''mismatch''\<rparr>)
        (default_ChannelOptions\<lparr>co_client_cert_file := ''c'', co_client_key_file := ''k''\<rparr>)))"
  using tls_context_complete [of sample_tls default_ChannelOptions, OF prod.collapse [symmetric] refl]
    tls_context_complete [of "sample_tls\<lparr>te_check_private_key := Some ''mismatch''\<rparr>"
      "default_ChannelOptions\<lparr>co_client_cert_file := ''c'', co_client_key_file := ''k''\<rparr>", OF prod.collapse [symmetric] refl]
  by (simp add: sample_tls_def default_ChannelOptions_def)

end
