(* ===== verification/Timeout.thy ===== *)
theory Timeout
  imports Prelude
begin

text \<open>
  \<open>src/protocol/timeout.cc\<close>: printing and parsing the \<open>grpc-timeout\<close> header. Durations are
  \<open>std::chrono::nanoseconds\<close>, a signed 64-bit count, modelled as \<open>int\<close> with the bound
  \<open>max_ns\<close>; the intermediate values are \<open>std::uint64_t\<close> and kept at that width.
\<close>

section \<open>The code\<close>

definition kMaxDigits :: nat where "kMaxDigits = 8"
definition kMaxTimeoutValue :: u64 where "kMaxTimeoutValue = 99999999"

definition kUnits :: "(char \<times> u64) list" where
  "kUnits = [(CHR ''n'', 1), (CHR ''u'', 1000), (CHR ''m'', 1000000), (CHR ''S'', 1000000000),
             (CHR ''M'', 60000000000), (CHR ''H'', 3600000000000)]"

text \<open>The loop over \<open>kUnits\<close>: the next unit, if any, is the head of the rest.\<close>

fun format_loop :: "u64 \<Rightarrow> (char \<times> u64) list \<Rightarrow> string" where
  "format_loop ns [] = to_string (unat kMaxTimeoutValue) @ ''H''"
| "format_loop ns ((u, ns_per) # units) =
     (let val = (ns + ns_per - 1) div ns_per
      in if val > kMaxTimeoutValue then format_loop ns units
         else if units \<noteq> [] \<and> ns mod snd (hd units) = 0 then format_loop ns units
         else to_string (unat val) @ [u])"

definition FormatTimeout :: "int \<Rightarrow> string" where
  "FormatTimeout duration = (if duration \<le> 0 then [] else format_loop (of_int duration) kUnits)"

text \<open>The digit loop: \<open>None\<close> at the first character that is not a digit.\<close>

fun parse_digits :: "u64 \<Rightarrow> string \<Rightarrow> u64 option" where
  "parse_digits val [] = Some val"
| "parse_digits val (c # cs) =
     (if \<not> is_digit c then None else parse_digits (val * 10 + of_nat (digit_val c)) cs)"

definition unit_ns :: "char \<Rightarrow> u64 option" where
  "unit_ns unit =
     (if unit = CHR ''H'' then Some 3600000000000
      else if unit = CHR ''M'' then Some 60000000000
      else if unit = CHR ''S'' then Some 1000000000
      else if unit = CHR ''m'' then Some 1000000
      else if unit = CHR ''u'' then Some 1000
      else if unit = CHR ''n'' then Some 1
      else None)"

definition max_ns :: int where "max_ns = 2 ^ 63 - 1"

definition kMaxNs :: u64 where "kMaxNs = of_int max_ns"

definition ParseTimeout :: "string \<Rightarrow> int option" where
  "ParseTimeout s =
     (if s = [] then None
      else let unit = last s; ds = butlast s
           in if ds = [] \<or> kMaxDigits < length ds then None
              else case parse_digits 0 ds of
                     None \<Rightarrow> None
                   | Some val \<Rightarrow>
                       (case unit_ns unit of
                          None \<Rightarrow> None
                        | Some ns_per \<Rightarrow>
                            if ns_per \<noteq> 0 \<and> val > kMaxNs div ns_per then None
                            else Some (uint (val * ns_per))))"

section \<open>Arithmetic of the printer\<close>

text \<open>No 64-bit operation of either function wraps: the values as natural numbers.\<close>

definition unit_val :: "char \<Rightarrow> nat option" where
  "unit_val c = map_option unat (unit_ns c)"

lemma unat_val:
  assumes "n < 2 ^ 63" "0 < u" "u \<le> 3600000000000"
  shows "unat ((of_nat n + of_nat u - 1) div (of_nat u :: u64)) = (n + u - 1) div u"
proof -
  have n: "unat (of_nat n :: u64) = n" and u: "unat (of_nat u :: u64) = u"
    using assms by (auto simp: unat_of_nat)
  have "unat (of_nat n + of_nat u :: u64) = n + u"
    using assms by (simp add: unat_word_ariths n u)
  then have "unat (of_nat n + of_nat u - 1 :: u64) = n + u - 1"
    using assms by (subst unat_sub_if_size) (auto simp: word_le_nat_alt)
  then show ?thesis
    by (simp add: unat_div u)
qed

lemma unat_mod_unit:
  assumes "n < 2 ^ 63" "u \<le> 3600000000000"
  shows "((of_nat n :: u64) mod of_nat u = 0) = (u dvd n)"
proof -
  have "unat ((of_nat n :: u64) mod of_nat u) = n mod u"
    using assms by (simp add: unat_mod unat_of_nat)
  then show ?thesis
    by (metis dvd_eq_mod_eq_0 unat_eq_zero)
qed


section \<open>The printer over natural numbers\<close>

text \<open>Rounding up to whole units, and whether the result has at most eight digits.\<close>

definition ceil_div :: "nat \<Rightarrow> nat \<Rightarrow> nat" where
  "ceil_div n u = (n + u - 1) div u"

definition fits :: "nat \<Rightarrow> nat \<Rightarrow> bool" where
  "fits n u \<longleftrightarrow> ceil_div n u \<le> 99999999"

definition units_nat :: "(char \<times> nat) list" where
  "units_nat = map (apsnd unat) kUnits"

lemma units_nat_eq:
  "units_nat = [(CHR ''n'', 1), (CHR ''u'', 1000), (CHR ''m'', 1000000), (CHR ''S'', 1000000000),
     (CHR ''M'', 60000000000), (CHR ''H'', 3600000000000)]"
  by (simp add: units_nat_def kUnits_def)

fun format_nat :: "nat \<Rightarrow> (char \<times> nat) list \<Rightarrow> nat \<times> char \<times> nat" where
  "format_nat n [] = (99999999, CHR ''H'', 3600000000000)"
| "format_nat n ((c, u) # units) =
     (if \<not> fits n u \<or> (units \<noteq> [] \<and> snd (hd units) dvd n) then format_nat n units
      else (ceil_div n u, c, u))"

lemma format_loop_nat:
  assumes "n < 2 ^ 63" "\<forall>(c, u) \<in> set us. 0 < u \<and> u \<le> 3600000000000"
  shows "format_loop (of_nat n) (map (apsnd of_nat) us) =
    (case format_nat n us of (val, c, u) \<Rightarrow> to_string val @ [c])"
  using assms(2)
proof (induction us)
  case Nil
  then show ?case by (simp add: kMaxTimeoutValue_def)
next
  case (Cons e us)
  obtain c u where e: "e = (c, u)" by (cases e)
  have u: "0 < u" "u \<le> 3600000000000" using Cons.prems by (auto simp: e)
  note val = unat_val [OF assms(1) u]
  have big: "(kMaxTimeoutValue < (of_nat n + of_nat u - 1) div (of_nat u :: u64)) = (\<not> fits n u)"
    by (simp add: word_less_nat_alt val kMaxTimeoutValue_def fits_def ceil_div_def not_le)
  have divides: "(us \<noteq> [] \<and> (of_nat n :: u64) mod snd (hd (map (apsnd of_nat) us)) = 0)
      = (us \<noteq> [] \<and> snd (hd us) dvd n)"
  proof (cases "us = []")
    case False
    have "snd (hd us) \<le> 3600000000000"
      using Cons.prems hd_in_set [OF False] by (cases "hd us") auto
    moreover have "snd (hd (map (apsnd of_nat) us)) = (of_nat (snd (hd us)) :: u64)"
      using False by (simp add: hd_map)
    ultimately show ?thesis
      using unat_mod_unit [OF assms(1)] by metis
  qed simp
  show ?case
    using Cons big divides by (auto simp: e Let_def val ceil_div_def)
qed

lemma ceil_div_bounds:
  assumes "0 < u"
  shows "n \<le> ceil_div n u * u" "ceil_div n u * u < n + u"
proof -
  have "(n + u - 1) div u * u + (n + u - 1) mod u = n + u - 1" by simp
  moreover have "(n + u - 1) mod u < u" using assms by simp
  ultimately show "n \<le> ceil_div n u * u" "ceil_div n u * u < n + u"
    using assms unfolding ceil_div_def by linarith+
qed

lemma ceil_div_dvd: "0 < u \<Longrightarrow> u dvd n \<Longrightarrow> ceil_div n u * u = n"
proof -
  assume u: "0 < u" and "u dvd n"
  then obtain k where n: "n = u * k" by blast
  have eq: "u * k + u - 1 = (u - 1) + u * k" using u by simp
  have "ceil_div n u = ((u - 1) + u * k) div u"
    by (simp only: ceil_div_def n eq)
  also have "\<dots> = k + (u - 1) div u"
    using u by (intro div_mult_self2) simp
  finally have "ceil_div n u = k"
    using u by simp
  then show ?thesis by (simp add: n)
qed

lemma ceil_div_mono: "n \<le> m \<Longrightarrow> ceil_div n u \<le> ceil_div m u"
  unfolding ceil_div_def by (intro div_le_mono) simp

lemma fits_mono: "f \<le> u \<Longrightarrow> 0 < f \<Longrightarrow> fits n f \<Longrightarrow> fits n u"
proof -
  assume fu: "f \<le> u" "0 < f" and "fits n f"
  then have "n \<le> 99999999 * f"
    using ceil_div_bounds(1) [of f n] by (auto simp: fits_def elim: order.trans intro: mult_right_mono)
  then have n: "n \<le> 99999999 * u"
    using fu(1) by (meson mult_le_mono2 order.trans)
  have "ceil_div n u * u < n + u"
    using ceil_div_bounds(2) [of u n] fu by linarith
  also have "n + u \<le> 100000000 * u"
    using n by simp
  finally show ?thesis
    by (simp add: fits_def)
qed

text \<open>
  What the loop returns: a unit whose rounded value has at most eight digits, and which is
  either exact or coarser by a factor of at most 1000 than a unit that does not fit.
\<close>

lemma format_nat_spec:
  assumes "format_nat n us = (val, c, u)" "us \<noteq> []"
    and "\<forall>(c, u) \<in> set us. 0 < u" "successively (\<lambda>a b. snd b \<le> 1000 * snd a) us"
    and "fits n (snd (last us))"
    and "snd (hd us) dvd n \<or> (\<exists>p. 0 < p \<and> \<not> fits n p \<and> snd (hd us) \<le> 1000 * p)"
  shows "(c, u) \<in> set us \<and> fits n u \<and> val = ceil_div n u
    \<and> (u dvd n \<or> (\<exists>p. 0 < p \<and> \<not> fits n p \<and> u \<le> 1000 * p))"
  using assms
proof (induction us)
  case (Cons e us)
  obtain c' u' where e: "e = (c', u')" by (cases e)
  show ?case
  proof (cases "\<not> fits n u' \<or> (us \<noteq> [] \<and> snd (hd us) dvd n)")
    case False
    then show ?thesis
      using Cons.prems by (auto simp: e)
  next
    case True
    then have us: "us \<noteq> []" using Cons.prems(5) by (auto simp: e)
    then have "snd (hd us) \<le> 1000 * u'" "0 < u'" "successively (\<lambda>a b. snd b \<le> 1000 * snd a) us"
      using Cons.prems(3,4) by (auto simp: e successively_Cons)
    then have "snd (hd us) dvd n \<or> (\<exists>p. 0 < p \<and> \<not> fits n p \<and> snd (hd us) \<le> 1000 * p)"
      using True by blast
    then have "(c, u) \<in> set us \<and> fits n u \<and> val = ceil_div n u
        \<and> (u dvd n \<or> (\<exists>p. 0 < p \<and> \<not> fits n p \<and> u \<le> 1000 * p))"
      using Cons True us by (auto simp: e successively_Cons)
    then show ?thesis by simp
  qed
qed simp

lemma not_fits_large: "0 < p \<Longrightarrow> \<not> fits n p \<Longrightarrow> 99999999 * p < n"
proof (rule ccontr)
  assume p: "0 < p" "\<not> fits n p" and "\<not> 99999999 * p < n"
  then have "n + p \<le> 100000000 * p" by simp
  then have "ceil_div n p * p < 100000000 * p"
    using ceil_div_bounds(2) [of p n] p by linarith
  then show False
    using p by (simp add: fits_def)
qed

lemma FormatTimeout_shape:
  assumes "0 < d" "d \<le> max_ns"
  obtains val c u where "FormatTimeout d = to_string val @ [c]" "unit_val c = Some u"
    "0 < u" "u \<le> 3600000000000" "val \<le> 99999999" "val = ceil_div (nat d) u"
    "val * u = nat d \<or> (val * u - nat d) * 99999 < nat d"
proof -
  define n where "n = nat d"
  have n: "n < 2 ^ 63" "0 < n" "of_int d = (of_nat n :: u64)"
    using assms by (auto simp: n_def max_ns_def)
  have units: "kUnits = map (apsnd of_nat) units_nat"
    by (simp add: units_nat_eq kUnits_def)
  obtain val c u where f: "format_nat n units_nat = (val, c, u)"
    by (metis prod_cases3)
  have "ceil_div n 3600000000000 \<le> 99999999"
    using n(1) unfolding ceil_div_def by simp
  then have "(c, u) \<in> set units_nat \<and> fits n u \<and> val = ceil_div n u
    \<and> (u dvd n \<or> (\<exists>p. 0 < p \<and> \<not> fits n p \<and> u \<le> 1000 * p))"
    by (intro format_nat_spec [OF f]) (auto simp: units_nat_eq fits_def)
  then have cu: "(c, u) \<in> set units_nat" and val: "val = ceil_div n u" "val \<le> 99999999"
    and ex: "u dvd n \<or> (\<exists>p. 0 < p \<and> \<not> fits n p \<and> u \<le> 1000 * p)"
    by (auto simp: fits_def)
  have u: "0 < u" "u \<le> 3600000000000" "unit_val c = Some u"
    using cu by (auto simp: units_nat_eq unit_val_def unit_ns_def)
  have "val * u = n \<or> (val * u - n) * 99999 < n"
    using ex
  proof
    assume "u dvd n"
    then show ?thesis using ceil_div_dvd [OF u(1)] val by simp
  next
    assume "\<exists>p. 0 < p \<and> \<not> fits n p \<and> u \<le> 1000 * p"
    then obtain p where p: "0 < p" "\<not> fits n p" "u \<le> 1000 * p" by blast
    have "99999999 * p < n" by (rule not_fits_large [OF p(1,2)])
    moreover have "val * u < n + u" using ceil_div_bounds(2) [OF u(1)] val by simp
    ultimately show ?thesis using p(3) by linarith
  qed
  moreover have "FormatTimeout d = to_string val @ [c]"
    using format_loop_nat [OF n(1), of units_nat] assms(1) f
    by (simp add: FormatTimeout_def n(3) units) (simp add: units_nat_eq)
  ultimately show thesis
    using that u val unfolding n_def by blast
qed


section \<open>The parser over natural numbers\<close>

lemma parse_digits_eq:
  "parse_digits (of_nat v) cs =
     (if list_all is_digit cs then Some (of_nat (decimal_value v cs)) else None)"
proof (induction cs arbitrary: v)
  case (Cons c cs)
  then show ?case
    using Cons.IH [of "v * 10 + digit_val c"] by simp
qed simp

lemma unit_val_bounds: "unit_val c = Some u \<Longrightarrow> 0 < u \<and> u \<le> 3600000000000"
  by (auto simp: unit_val_def unit_ns_def split: if_splits)

lemma checked_product:
  assumes "v < 10 ^ 8" "0 < u" "u \<le> 3600000000000"
  shows "(if (of_nat u :: u64) \<noteq> 0 \<and> of_nat v > kMaxNs div of_nat u then None
          else Some (uint (of_nat v * of_nat u :: u64)))
    = (if int (v * u) \<le> max_ns then Some (int (v * u)) else None)"
proof -
  have v: "unat (of_nat v :: u64) = v" and u: "unat (of_nat u :: u64) = u"
    using assms by (auto simp: unat_of_nat)
  have k: "unat kMaxNs = 2 ^ 63 - 1"
    by (simp add: kMaxNs_def max_ns_def)
  have "(of_nat v > kMaxNs div (of_nat u :: u64)) = ((2 ^ 63 - 1) div u < v)"
    unfolding word_less_nat_alt unat_div v u k ..
  also have "\<dots> = (2 ^ 63 - 1 < v * u)"
    using assms(2) by (rule div_less_iff_less_mult)
  finally have gt: "(of_nat v > kMaxNs div (of_nat u :: u64)) = (max_ns < int (v * u))"
    by (simp add: max_ns_def flip: of_nat_mult)
  have prod: "uint (of_nat v * of_nat u :: u64) = int (v * u)" if "int (v * u) \<le> max_ns"
  proof -
    have "v * u < 2 ^ 64" using that by (simp add: max_ns_def flip: of_nat_mult)
    then show ?thesis
      by (simp only: unsigned_of_nat take_bit_eq_mod of_nat_mult [symmetric]) simp
  qed
  have "(of_nat u :: u64) \<noteq> 0"
    using u assms(2) by (metis less_irrefl unat_0)
  then show ?thesis
    using gt prod by auto
qed

lemma ParseTimeout_eq:
  "ParseTimeout (ds @ [c]) =
     (if 1 \<le> length ds \<and> length ds \<le> 8 \<and> list_all is_digit ds
      then case unit_val c of None \<Rightarrow> None
           | Some u \<Rightarrow> if int (decimal_value 0 ds * u) \<le> max_ns
               then Some (int (decimal_value 0 ds * u)) else None
      else None)"
proof (cases "1 \<le> length ds \<and> length ds \<le> 8 \<and> list_all is_digit ds")
  case True
  then have "decimal_value 0 ds < 10 ^ length ds"
    using decimal_value_bound [of ds 0] by (simp add: list_all_iff)
  also have "(10::nat) ^ length ds \<le> 10 ^ 8"
    using True by (intro power_increasing) auto
  finally have v: "decimal_value 0 ds < 10 ^ 8" .
  show ?thesis
  proof (cases "unit_ns c")
    case (Some w)
    then have w: "w = of_nat (unat w)" "unit_val c = Some (unat w)"
      by (simp_all add: unit_val_def)
    have "0 < unat w" "unat w \<le> 3600000000000"
      using unit_val_bounds w(2) by blast+
    from checked_product [OF v this] show ?thesis
      using True Some w parse_digits_eq [of 0 ds]
      by (auto simp: ParseTimeout_def kMaxDigits_def Let_def split: if_splits)
  qed (use True parse_digits_eq [of 0 ds] in
      \<open>auto simp: ParseTimeout_def kMaxDigits_def Let_def unit_val_def\<close>)
next
  case False
  then show ?thesis
    using parse_digits_eq [of 0 ds]
    by (auto simp: ParseTimeout_def kMaxDigits_def Let_def Suc_le_eq)
qed

lemma scaled_error:
  fixes p n :: nat
  assumes "n \<le> p" "p = n \<or> (p - n) * 99999 < n"
  shows "int p = int n \<or> (int p - int n) * 99999 < int n"
proof -
  obtain k where "p = n + k" using assms(1) le_Suc_ex by blast
  then show ?thesis using assms(2) by auto
qed

section \<open>Properties\<close>

text \<open>
  The \<open>grpc-timeout\<close> grammar. \<open>ParseTimeout\<close> accepts a header value exactly when it is one
  to eight decimal digits followed by one of the six units and the product fits the signed
  64-bit nanosecond range; the result is then the digits' value times the unit, with no
  wrap-around, and every other value is refused.
\<close>

theorem ParseTimeout_spec:
  "ParseTimeout s = Some d \<longleftrightarrow>
     (\<exists>ds c u. s = ds @ [c] \<and> ds \<noteq> [] \<and> length ds \<le> 8 \<and> list_all is_digit ds
        \<and> unit_val c = Some u \<and> d = int (decimal_value 0 ds * u) \<and> d \<le> max_ns)"
proof (cases s rule: rev_cases)
  case Nil
  then show ?thesis by (simp add: ParseTimeout_def)
next
  case (snoc ds c)
  then show ?thesis
    by (auto simp: ParseTimeout_eq Suc_le_eq split: option.splits if_splits)
qed

text \<open>
  A printed timeout is never shorter than the caller's. For every positive duration of the
  64-bit nanosecond range, \<open>FormatTimeout\<close> prints at most eight digits and a unit that denote
  a duration that is not smaller, and that is either exact or too long by less than one part
  in 99999; \<open>ParseTimeout\<close> reads exactly that duration back, unless the rounding leaves the
  64-bit range (possible only for durations above 2562047 hours), where it refuses the value.
\<close>

lemma FormatTimeout_roundtrip:
  assumes "0 < d" "d \<le> max_ns"
  shows "\<exists>d'. d \<le> d' \<and> (d' = d \<or> (d' - d) * 99999 < d)
     \<and> length (FormatTimeout d) \<le> 9
     \<and> ParseTimeout (FormatTimeout d) = (if d' \<le> max_ns then Some d' else None)
     \<and> (d \<le> 2562047 * 3600000000000 \<longrightarrow> d' \<le> max_ns)"
proof -
  obtain val c u where f: "FormatTimeout d = to_string val @ [c]" and u: "unit_val c = Some u"
      "0 < u" "u \<le> 3600000000000" and v: "val \<le> 99999999" "val = ceil_div (nat d) u"
      and ex: "val * u = nat d \<or> (val * u - nat d) * 99999 < nat d"
    by (rule FormatTimeout_shape [OF assms])
  have len: "length (to_string val) \<le> 8"
    using v(1) by (intro length_to_string_le) auto
  have digits: "list_all is_digit (to_string val)" "1 \<le> length (to_string val)"
    using to_string_is_digit by (auto simp: list_all_iff Suc_le_eq)
  have ge: "nat d \<le> val * u" and less: "val * u < nat d + u"
    using ceil_div_bounds [OF u(2), of "nat d"] v(2) by auto
  have "ParseTimeout (FormatTimeout d) =
      (if int (val * u) \<le> max_ns then Some (int (val * u)) else None)"
    using digits len u by (simp add: f ParseTimeout_eq)
  moreover have "d \<le> int (val * u)" using ge assms by linarith
  moreover have "int (val * u) = d \<or> (int (val * u) - d) * 99999 < d"
    using scaled_error [OF ge ex] assms(1) by simp
  moreover have "int (val * u) \<le> max_ns" if "d \<le> 2562047 * 3600000000000"
  proof -
    have "u dvd 2562047 * 3600000000000"
      using u(1) by (auto simp: unit_val_def unit_ns_def split: if_splits)
    moreover have "nat d \<le> 2562047 * 3600000000000"
      using that by simp
    ultimately have "val * u \<le> 2562047 * 3600000000000"
      unfolding v(2) by (metis ceil_div_dvd ceil_div_mono mult_le_mono1 u(2))
    then show ?thesis by (simp add: max_ns_def del: of_nat_mult)
  qed
  ultimately show ?thesis
    using len by (intro exI [of _ "int (val * u)"]) (auto simp: f)
qed

end
