(* ===== verification/Multimap.thy ===== *)
theory Multimap
  imports Prelude
begin

text \<open>
  \<open>std::multimap<std::string, V>\<close>, the container behind \<open>MetadataMap\<close>
  (\<open>include/rpcpio/metadata.h\<close>) and behind nghttp2-asio's \<open>header_map\<close>: a list of entries
  sorted by key. \<open>emplace\<close> puts a new entry after every entry whose key is not greater, as
  the standard requires for equivalent keys; iteration is list order; \<open>find\<close> returns the
  first entry of a key's range.

  The locale states the laws the codecs rely on, independently of the representation; it is
  interpreted on the list model at the end.
\<close>

section \<open>The model\<close>

type_synonym 'v multimap = "(string \<times> 'v) list"

fun mm_emplace :: "string \<Rightarrow> 'v \<Rightarrow> 'v multimap \<Rightarrow> 'v multimap" where
  "mm_emplace k v [] = [(k, v)]"
| "mm_emplace k v ((k', v') # m) =
     (if k < k' then (k, v) # (k', v') # m else (k', v') # mm_emplace k v m)"

definition mm_find :: "'v multimap \<Rightarrow> string \<Rightarrow> 'v option" where
  "mm_find m k = map_of m k"

definition mm_values :: "'v multimap \<Rightarrow> string \<Rightarrow> 'v list" where
  "mm_values m k = map snd (filter (\<lambda>e. fst e = k) m)"

definition mm_count :: "'v multimap \<Rightarrow> string \<Rightarrow> nat" where
  "mm_count m k = length (mm_values m k)"

definition mm_sorted :: "'v multimap \<Rightarrow> bool" where
  "mm_sorted m = sorted (map fst m)"

lemma mset_mm_emplace [simp]: "mset (mm_emplace k v m) = add_mset (k, v) (mset m)"
  by (induction m) auto

lemma set_mm_emplace [simp]: "set (mm_emplace k v m) = insert (k, v) (set m)"
  by (metis mset_mm_emplace set_mset_add_mset_insert set_mset_mset)

lemma mm_emplace_not_Nil [simp]: "mm_emplace k v m \<noteq> []"
  using set_mm_emplace [of k v m] by force

lemma mm_find_Nil [simp]: "mm_find [] k = None"
  by (simp add: mm_find_def)

lemma mm_sorted_Nil [simp]: "mm_sorted []"
  by (simp add: mm_sorted_def)

lemma mm_sorted_emplace [simp]: "mm_sorted m \<Longrightarrow> mm_sorted (mm_emplace k v m)"
  unfolding mm_sorted_def
proof (induction m)
  case (Cons e m)
  then show ?case
    by (cases e) (fastforce simp: not_less)
qed simp

lemma mm_values_emplace:
  "mm_sorted m \<Longrightarrow> mm_values (mm_emplace k v m) k' = mm_values m k' @ (if k = k' then [v] else [])"
  unfolding mm_values_def mm_sorted_def
proof (induction m)
  case (Cons e m)
  obtain a b where e: "e = (a, b)" by (cases e)
  show ?case
  proof (cases "k < a")
    case True
    then have "filter (\<lambda>e. fst e = k) (e # m) = []"
      using Cons.prems by (auto simp: e filter_empty_conv)
    with True show ?thesis by (auto simp: e)
  next
    case False
    with Cons show ?thesis by (auto simp: e)
  qed
qed simp

lemma mm_find_values: "mm_find m k = (case mm_values m k of [] \<Rightarrow> None | v # _ \<Rightarrow> Some v)"
  unfolding mm_find_def mm_values_def by (induction m) auto

lemma mm_find_emplace:
  "mm_sorted m \<Longrightarrow> mm_find (mm_emplace k v m) k' =
     (if k = k' \<and> mm_find m k' = None then Some v else mm_find m k')"
  by (auto simp: mm_find_values mm_values_emplace split: list.splits)

lemma mm_count_iff: "mm_count m k \<noteq> 0 \<longleftrightarrow> mm_find m k \<noteq> None"
  by (auto simp: mm_count_def mm_find_values split: list.splits)

lemma mm_find_None: "mm_find m k = None \<longleftrightarrow> k \<notin> fst ` set m"
  by (simp add: mm_find_def map_of_eq_None_iff)

section \<open>The contract\<close>

locale multimap_spec =
  fixes empty :: 'm
    and emplace :: "string \<Rightarrow> 'v \<Rightarrow> 'm \<Rightarrow> 'm"
    and vals :: "'m \<Rightarrow> string \<Rightarrow> 'v list"
    and entries :: "'m \<Rightarrow> (string \<times> 'v) list"
    and invar :: "'m \<Rightarrow> bool"
  assumes vals_empty: "vals empty k = []"
    and vals_emplace: "invar m \<Longrightarrow> vals (emplace k v m) k' = vals m k' @ (if k = k' then [v] else [])"
    and entries_vals: "invar m \<Longrightarrow> map snd (filter (\<lambda>e. fst e = k) (entries m)) = vals m k"
    and invar_empty: "invar empty"
    and invar_emplace: "invar m \<Longrightarrow> invar (emplace k v m)"
begin

text \<open>Emplacing a list of entries keeps the order of the values of each key.\<close>

lemma invar_fold: "invar m \<Longrightarrow> invar (fold (\<lambda>(k, v). emplace k v) es m)"
  by (induction es arbitrary: m) (auto simp: invar_emplace)

lemma vals_fold:
  "invar m \<Longrightarrow> vals (fold (\<lambda>(k, v). emplace k v) es m) k =
     vals m k @ map snd (filter (\<lambda>e. fst e = k) es)"
  by (induction es arbitrary: m) (auto simp: invar_emplace vals_emplace)

end

interpretation mm: multimap_spec "[]" mm_emplace mm_values "\<lambda>m. m" mm_sorted
  by unfold_locales (simp_all add: mm_values_emplace, simp_all add: mm_values_def)

text \<open>A sorted multimap is determined by the values of its keys.\<close>

lemma mm_values_Cons: "mm_values ((k, v) # m) k' = (if k = k' then v # mm_values m k' else mm_values m k')"
  by (simp add: mm_values_def)

lemma mm_values_Nil [simp]: "mm_values [] k = []"
  by (simp add: mm_values_def)

lemma mm_values_low: "mm_sorted ((a, v) # m) \<Longrightarrow> k < a \<Longrightarrow> mm_values ((a, v) # m) k = []"
  by (auto simp: mm_values_def mm_sorted_def filter_empty_conv)

lemma mm_eqI:
  assumes "mm_sorted m" "mm_sorted n" "\<And>k. mm_values m k = mm_values n k"
  shows "m = n"
  using assms
proof (induction m arbitrary: n)
  case Nil
  show ?case
  proof (cases n)
    case (Cons e n')
    then show ?thesis
      using Nil.prems(3) [of "fst e"] by (cases e) (simp add: mm_values_Cons)
  qed simp
next
  case (Cons e m)
  obtain k v where e: "e = (k, v)" by (cases e)
  show ?case
  proof (cases n)
    case Nil
    then show ?thesis
      using Cons.prems(3) [of k] by (simp add: e mm_values_Cons)
  next
    case (Cons e' n')
    obtain k' v' where e': "e' = (k', v')" by (cases e')
    have vals: "mm_values ((k, v) # m) q = mm_values ((k', v') # n') q" for q
      using Cons.prems(3) [of q] by (simp add: e e' Cons)
    have k: "k = k'"
    proof (rule ccontr)
      assume "k \<noteq> k'"
      then consider "k < k'" | "k' < k" by (meson linorder_neqE)
      then show False
      proof cases
        case 1
        then show False
          using vals [of k] mm_values_low [of k' v' n' k] Cons.prems(2)
          by (simp add: e' Cons mm_values_Cons)
      next
        case 2
        then show False
          using vals [of k'] mm_values_low [of k v m k'] Cons.prems(1)
          by (simp add: e mm_values_Cons)
      qed
    qed
    have v: "v = v'"
      using vals [of k] by (simp add: k mm_values_Cons)
    have "mm_values m q = mm_values n' q" for q
      using vals [of q] by (simp add: k v mm_values_Cons split: if_splits)
    moreover have "mm_sorted m" "mm_sorted n'"
      using Cons.prems(1,2) by (auto simp: mm_sorted_def Cons)
    ultimately have "m = n'"
      using Cons.IH by blast
    then show ?thesis
      by (simp add: e e' Cons k v)
  qed
qed

end
