(* ===== verification/Metadata.thy ===== *)
theory Metadata
  imports Multimap Status
begin

text \<open>
  \<open>include/rpcpio/metadata.h\<close>: the metadata keys, the two header-value codecs (unpadded base64
  for \<open>-bin\<close> keys, percent encoding for \<open>grpc-message\<close>) and the guarded insertion into a
  \<open>MetadataMap\<close>. The locale \<open>header_codec\<close> is what the codecs promise to the trailer and
  metadata codecs: decoding inverts encoding, and encoded bytes are visible ASCII.
\<close>

section \<open>Keys\<close>

definition kMaxMetadataSize :: nat where "kMaxMetadataSize = 8192"
definition kMaxTrailerSize :: nat where "kMaxTrailerSize = 8192"

definition key_char :: "char \<Rightarrow> bool" where
  "key_char c \<longleftrightarrow> (let n = of_char c :: nat in
     (97 \<le> n \<and> n \<le> 122) \<or> (48 \<le> n \<and> n \<le> 57) \<or> c = CHR ''-'' \<or> c = CHR ''_'')"

definition IsValidKey :: "string \<Rightarrow> bool" where
  "IsValidKey key \<longleftrightarrow> key \<noteq> [] \<and> list_all key_char key"

definition IsBinaryKey :: "string \<Rightarrow> bool" where
  "IsBinaryKey key \<longleftrightarrow> 4 < length key \<and> drop (length key - 4) key = ''-bin''"

definition IsReservedKey :: "string \<Rightarrow> bool" where
  "IsReservedKey key \<longleftrightarrow> starts_with ''grpc-'' key \<or> key = ''content-type'' \<or> key = ''te''
     \<or> starts_with '':'' key"

section \<open>Base64\<close>

definition kAlpha :: string where
  "kAlpha = ''ABCDEFGHIJKLMNOPQRSTUVWXYZabcdefghijklmnopqrstuvwxyz0123456789+/''"

definition alpha :: "u32 \<Rightarrow> char" where
  "alpha w = kAlpha ! unat (w AND 63)"

fun EncodeBase64 :: "bytes \<Rightarrow> string" where
  "EncodeBase64 (a # b # c # rest) =
     (let v = push_bit 16 (char_u32 a) OR push_bit 8 (char_u32 b) OR char_u32 c
      in [alpha (drop_bit 18 v), alpha (drop_bit 12 v), alpha (drop_bit 6 v), alpha v]
         @ EncodeBase64 rest)"
| "EncodeBase64 [a, b] =
     (let v = push_bit 16 (char_u32 a) OR push_bit 8 (char_u32 b)
      in [alpha (drop_bit 18 v), alpha (drop_bit 12 v), alpha (drop_bit 6 v)])"
| "EncodeBase64 [a] =
     (let v = push_bit 16 (char_u32 a)
      in [alpha (drop_bit 18 v), alpha (drop_bit 12 v)])"
| "EncodeBase64 [] = []"

text \<open>The decoding table, read at one character; \<open>-1\<close> marks a character outside the alphabet.\<close>

definition kTable :: "char \<Rightarrow> int" where
  "kTable c = (let n = of_char c :: nat in
     if 65 \<le> n \<and> n < 65 + 26 then int (n - 65)
     else if 97 \<le> n \<and> n < 97 + 26 then int (26 + (n - 97))
     else if 48 \<le> n \<and> n < 48 + 10 then int (52 + (n - 48))
     else if c = CHR ''+'' then 62
     else if c = CHR ''/'' then 63
     else if c = CHR ''='' then 0
     else -1)"

fun decode_loop :: "u32 \<Rightarrow> nat \<Rightarrow> string \<Rightarrow> bytes" where
  "decode_loop buf bits [] = []"
| "decode_loop buf bits (c # cs) =
     (if c = CHR ''='' then []
      else if kTable c < 0 then decode_loop buf bits cs
      else
        let buf' = push_bit 6 buf OR of_int (kTable c); bits' = bits + 6
        in if 8 \<le> bits'
           then u32_char (drop_bit (bits' - 8) buf' AND 255) # decode_loop buf' (bits' - 8) cs
           else decode_loop buf' bits' cs)"

definition DecodeBase64 :: "string \<Rightarrow> bytes" where
  "DecodeBase64 encoded = decode_loop 0 0 encoded"

section \<open>Percent encoding\<close>

definition kHex :: string where "kHex = ''0123456789ABCDEF''"

definition hex_digit :: "nat \<Rightarrow> char" where
  "hex_digit n = kHex ! (n AND 15)"

fun PercentEncode :: "bytes \<Rightarrow> string" where
  "PercentEncode [] = []"
| "PercentEncode (c # cs) =
     (let n = of_char c :: nat
      in if 0x21 \<le> n \<and> n \<le> 0x7E \<and> c \<noteq> CHR ''%'' then c # PercentEncode cs
         else CHR ''%'' # hex_digit (drop_bit 4 n) # hex_digit n # PercentEncode cs)"

definition hexval :: "char \<Rightarrow> int" where
  "hexval c = (let n = of_char c :: nat in
     if 48 \<le> n \<and> n \<le> 57 then int (n - 48)
     else if 97 \<le> n \<and> n \<le> 102 then int (n - 97 + 10)
     else if 65 \<le> n \<and> n \<le> 70 then int (n - 65 + 10)
     else -1)"

fun PercentDecode :: "string \<Rightarrow> bytes" where
  "PercentDecode (c # h # l # rest) =
     (if c = CHR ''%'' \<and> 0 \<le> hexval h \<and> 0 \<le> hexval l
      then char_of (push_bit 4 (nat (hexval h)) OR nat (hexval l)) # PercentDecode rest
      else c # PercentDecode (h # l # rest))"
| "PercentDecode (c # cs) = c # PercentDecode cs"
| "PercentDecode [] = []"

section \<open>Guarded insertion\<close>

definition ValidateAndAdd :: "MetadataMap \<Rightarrow> string \<Rightarrow> string \<Rightarrow> cpp_exception + MetadataMap" where
  "ValidateAndAdd m key value =
     (if \<not> IsValidKey key then Inl (InvalidArgument (''Invalid metadata key: '' @ key))
      else if IsReservedKey key then Inl (InvalidArgument (''Reserved metadata key: '' @ key))
      else Inr (mm_emplace key value m))"

definition TotalSize :: "MetadataMap \<Rightarrow> nat" where
  "TotalSize m = sum_list (map (\<lambda>(k, v). length k + length v) m)"

lemma TotalSize_Nil [simp]: "TotalSize [] = 0"
  by (simp add: TotalSize_def)

lemma TotalSize_emplace [simp]: "TotalSize (mm_emplace k v m) = length k + length v + TotalSize m"
  unfolding TotalSize_def by (induction m) auto

section \<open>The codec contract\<close>

definition visible_char :: "char \<Rightarrow> bool" where
  "visible_char c \<longleftrightarrow> 0x21 \<le> (of_char c :: nat) \<and> (of_char c :: nat) \<le> 0x7E"

locale header_codec =
  fixes enc :: "bytes \<Rightarrow> string" and dec :: "string \<Rightarrow> bytes"
  assumes dec_enc: "dec (enc xs) = xs"
    and enc_visible: "list_all visible_char (enc xs)"
begin

lemma enc_inject: "enc xs = enc ys \<longleftrightarrow> xs = ys"
  by (metis dec_enc)

text \<open>No encoded value can smuggle a line break or a second header into the block.\<close>

lemma enc_no_control: "c \<in> set (enc xs) \<Longrightarrow> c \<noteq> CHR 0x0A \<and> c \<noteq> CHR 0x0D \<and> c \<noteq> CHR 0x00"
  using enc_visible [of xs] by (auto simp: list_all_iff visible_char_def)

end

subsection \<open>Base64 satisfies it\<close>


lemma kAlpha_table: "map kTable kAlpha = map int [0..<64]"
  by (simp add: kAlpha_def kTable_def upt_conv_Cons)
lemma kAlpha_visible: "list_all (\<lambda>c. visible_char c \<and> c \<noteq> CHR ''='') kAlpha"
  by (simp add: kAlpha_def visible_char_def)

lemma length_kAlpha: "length kAlpha = 64"
  by (simp add: kAlpha_def)

lemma and_63_less: "unat ((w :: u32) AND 63) < 64"
proof -
  have "unat (w AND 63) \<le> unat (63 :: u32)"
    by (rule word_and_le1 [THEN word_le_nat_alt [THEN iffD1]])
  then show ?thesis by simp
qed

lemma alpha_props [codec_simps]:
  "kTable (alpha w) = int (unat (w AND 63))" "alpha w \<noteq> CHR ''=''" "visible_char (alpha w)"
proof -
  have less: "unat (w AND 63) < length kAlpha"
    by (simp add: length_kAlpha and_63_less)
  have "kTable (alpha w) = map kTable kAlpha ! unat (w AND 63)"
    using less by (simp add: alpha_def)
  then show "kTable (alpha w) = int (unat (w AND 63))"
    by (simp add: kAlpha_table and_63_less)
  have "alpha w \<in> set kAlpha"
    using less by (simp add: alpha_def)
  then show "alpha w \<noteq> CHR ''=''" "visible_char (alpha w)"
    using kAlpha_visible by (auto simp: list_all_iff)
qed

text \<open>One alphabet character fed to the decoder.\<close>

lemma decode_alpha [codec_simps]:
  "decode_loop buf bits (alpha w # cs) =
     (let buf' = push_bit 6 buf OR (w AND 63)
      in if 2 \<le> bits then u32_char (drop_bit (bits - 2) buf' AND 255) # decode_loop buf' (bits - 2) cs
         else decode_loop buf' (bits + 6) cs)"
proof -
  have "(of_int (kTable (alpha w)) :: u32) = w AND 63"
    by (simp add: alpha_props)
  then show ?thesis
    by (simp add: alpha_props Let_def)
qed


text \<open>
  The decoder's buffer is never masked: its high bits are left-overs. What matters is its
  low \<open>n\<close> bits, which agree with the 24-bit group \<open>v\<close> shifted right by what has not
  been read yet.
\<close>

lemma buffer_step:
  fixes b v :: u32
  assumes "take_bit n b = take_bit n (drop_bit (m + 6) v)"
  shows "take_bit (n + 6) (push_bit 6 b OR (drop_bit m v AND 63)) = take_bit (n + 6) (drop_bit m v)"
proof (rule bit_word_eqI)
  fix i assume i: "i < LENGTH(32)"
  have m63: "(63 :: u32) = mask 6" by (simp add: mask_eq_exp_minus_1)
  have "bit b (i - 6) = bit v (m + i)" if "6 \<le> i" "i < n + 6"
  proof -
    have "bit (take_bit n b) (i - 6) = bit (take_bit n (drop_bit (m + 6) v)) (i - 6)"
      using assms by simp
    moreover have "m + 6 + (i - 6) = m + i" using that by simp
    ultimately show ?thesis
      using that i by (simp add: bit_take_bit_iff bit_drop_bit_eq add.commute)
  qed
  then show "bit (take_bit (n + 6) (push_bit 6 b OR (drop_bit m v AND 63))) i =
      bit (take_bit (n + 6) (drop_bit m v)) i"
    using i by (auto simp: m63 bit_take_bit_iff bit_or_iff bit_and_iff bit_push_bit_iff bit_mask_iff
        bit_drop_bit_eq add.commute)
qed

lemma buffer_byte:
  fixes b v :: u32
  assumes "take_bit (k + 8) b = take_bit (k + 8) (drop_bit m v)"
  shows "drop_bit k b AND 255 = drop_bit (m + k) v AND 255"
proof -
  have m255: "(255 :: u32) = mask 8" by (simp add: mask_eq_exp_minus_1)
  have "drop_bit k (take_bit (k + 8) b) = drop_bit k (take_bit (k + 8) (drop_bit m v))"
    using assms by simp
  then show ?thesis
    by (simp add: m255 flip: take_bit_eq_mask) (simp add: drop_bit_take_bit add.commute)
qed

lemma bit_char_u32_lt: "bit (char_u32 c) n \<Longrightarrow> n < 8" "bit (char_u32 c) n \<Longrightarrow> n < 16"
  using bit_char_u32_high [of n c] by (meson not_le, force)

lemma group_bytes:
  fixes v :: u32
  assumes "v = push_bit 16 (char_u32 a) OR push_bit 8 (char_u32 b) OR char_u32 c"
  shows "drop_bit 16 v AND 255 = char_u32 a" "drop_bit 8 v AND 255 = char_u32 b"
    "v AND 255 = char_u32 c"
proof -
  have m255: "(255 :: u32) = mask 8" by (simp add: mask_eq_exp_minus_1)
  note bits = bit_or_iff bit_and_iff bit_push_bit_iff bit_mask_iff bit_drop_bit_eq bit_char_u32_high
  show "drop_bit 16 v AND 255 = char_u32 a"
    by (rule bit_word_eqI) (auto simp: assms m255 bits dest: bit_char_u32_lt)
  show "drop_bit 8 v AND 255 = char_u32 b"
    by (rule bit_word_eqI) (auto simp: assms m255 bits dest: bit_char_u32_lt)
  show "v AND 255 = char_u32 c"
    by (rule bit_word_eqI) (auto simp: assms m255 bits dest: bit_char_u32_lt)
qed


declare decode_loop.simps(2) [simp del]

lemma decode_quiet:
  assumes "take_bit n b = take_bit n (drop_bit (m + 6) v)" "n < 2"
  obtains b' where "take_bit (n + 6) b' = take_bit (n + 6) (drop_bit m v)"
    and "decode_loop b n (alpha (drop_bit m v) # cs) = decode_loop b' (n + 6) cs"
proof
  show "take_bit (n + 6) (push_bit 6 b OR (drop_bit m v AND 63)) = take_bit (n + 6) (drop_bit m v)"
    by (rule buffer_step [OF assms(1)])
  show "decode_loop b n (alpha (drop_bit m v) # cs) =
      decode_loop (push_bit 6 b OR (drop_bit m v AND 63)) (n + 6) cs"
    using assms(2) by (simp add: decode_alpha)
qed

lemma decode_emit:
  assumes "take_bit n b = take_bit n (drop_bit (m + 6) v)" "2 \<le> n"
  obtains b' where "take_bit (n - 2) b' = take_bit (n - 2) (drop_bit m v)"
    and "decode_loop b n (alpha (drop_bit m v) # cs) =
      u32_char (drop_bit (m + n - 2) v AND 255) # decode_loop b' (n - 2) cs"
proof
  let ?b = "push_bit 6 b OR (drop_bit m v AND 63)"
  have eq: "take_bit (n + 6) ?b = take_bit (n + 6) (drop_bit m v)"
    by (rule buffer_step [OF assms(1)])
  then have "take_bit (n - 2) (take_bit (n + 6) ?b) = take_bit (n - 2) (take_bit (n + 6) (drop_bit m v))"
    by simp
  then show "take_bit (n - 2) ?b = take_bit (n - 2) (drop_bit m v)"
    by (simp only: take_bit_take_bit) (simp only: min_absorb1 [of "n - 2" "n + 6"] trans_le_add1 diff_le_self)
  have n: "n + 6 = (n - 2) + 8" using assms(2) by simp
  have "drop_bit (n - 2) ?b AND 255 = drop_bit (m + n - 2) v AND 255"
    using buffer_byte [of "n - 2" ?b m v] eq assms(2) unfolding n by simp
  then show "decode_loop b n (alpha (drop_bit m v) # cs) =
      u32_char (drop_bit (m + n - 2) v AND 255) # decode_loop ?b (n - 2) cs"
    using assms(2) by (simp only: decode_alpha Let_def if_True simp_thms)
qed

text \<open>The two-, three- and four-character groups, from a buffer with no pending bits.\<close>

lemma decode_group2:
  obtains b' where "take_bit 4 b' = take_bit 4 (drop_bit 12 v)"
    and "decode_loop b 0 (alpha (drop_bit 18 v) # alpha (drop_bit 12 v) # cs) =
      u32_char (drop_bit 16 v AND 255) # decode_loop b' 4 cs"
proof -
  obtain b1 where b1: "take_bit 6 b1 = take_bit 6 (drop_bit 18 v)"
    and d1: "decode_loop b 0 (alpha (drop_bit 18 v) # alpha (drop_bit 12 v) # cs)
      = decode_loop b1 6 (alpha (drop_bit 12 v) # cs)"
    using decode_quiet [of 0 b 18 v "alpha (drop_bit 12 v) # cs"] by auto
  obtain b2 where "take_bit 4 b2 = take_bit 4 (drop_bit 12 v)"
    and "decode_loop b1 6 (alpha (drop_bit 12 v) # cs) =
      u32_char (drop_bit 16 v AND 255) # decode_loop b2 4 cs"
    using decode_emit [of 6 b1 12 v cs] b1 by auto
  then show thesis using that d1 by simp
qed

lemma decode_group3:
  obtains b' where "take_bit 2 b' = take_bit 2 (drop_bit 6 v)"
    and "decode_loop b 0 (alpha (drop_bit 18 v) # alpha (drop_bit 12 v) # alpha (drop_bit 6 v) # cs) =
      u32_char (drop_bit 16 v AND 255) # u32_char (drop_bit 8 v AND 255) # decode_loop b' 2 cs"
proof -
  obtain b1 where b1: "take_bit 4 b1 = take_bit 4 (drop_bit 12 v)"
    and d1: "decode_loop b 0 (alpha (drop_bit 18 v) # alpha (drop_bit 12 v) # alpha (drop_bit 6 v) # cs)
      = u32_char (drop_bit 16 v AND 255) # decode_loop b1 4 (alpha (drop_bit 6 v) # cs)"
    by (rule decode_group2)
  obtain b2 where "take_bit 2 b2 = take_bit 2 (drop_bit 6 v)"
    and "decode_loop b1 4 (alpha (drop_bit 6 v) # cs) =
      u32_char (drop_bit 8 v AND 255) # decode_loop b2 2 cs"
    using decode_emit [of 4 b1 6 v cs] b1 by auto
  then show thesis using that d1 by simp
qed

lemma decode_group4:
  obtains b' where "decode_loop b 0 (alpha (drop_bit 18 v) # alpha (drop_bit 12 v) # alpha (drop_bit 6 v) # alpha v # cs) =
      u32_char (drop_bit 16 v AND 255) # u32_char (drop_bit 8 v AND 255) # u32_char (v AND 255) # decode_loop b' 0 cs"
proof -
  obtain b1 where b1: "take_bit 2 b1 = take_bit 2 (drop_bit 6 v)"
    and d1: "decode_loop b 0 (alpha (drop_bit 18 v) # alpha (drop_bit 12 v) # alpha (drop_bit 6 v) # alpha v # cs)
      = u32_char (drop_bit 16 v AND 255) # u32_char (drop_bit 8 v AND 255) # decode_loop b1 2 (alpha v # cs)"
    by (rule decode_group3)
  obtain b2 where "decode_loop b1 2 (alpha v # cs) = u32_char (v AND 255) # decode_loop b2 0 cs"
    using decode_emit [of 2 b1 0 v cs] b1 by auto
  then show thesis using that d1 by simp
qed

lemma decode_encode: "decode_loop b 0 (EncodeBase64 xs) = xs"
proof (induction xs arbitrary: b rule: EncodeBase64.induct)
  case (1 x y z rest)
  define v where "v = push_bit 16 (char_u32 x) OR push_bit 8 (char_u32 y) OR char_u32 z"
  obtain b' where "decode_loop b 0 (alpha (drop_bit 18 v) # alpha (drop_bit 12 v) # alpha (drop_bit 6 v)
      # alpha v # EncodeBase64 rest) =
    u32_char (drop_bit 16 v AND 255) # u32_char (drop_bit 8 v AND 255) # u32_char (v AND 255)
      # decode_loop b' 0 (EncodeBase64 rest)"
    by (rule decode_group4)
  then show ?case
    by (simp add: group_bytes [OF v_def] "1.IH" Let_def flip: v_def)
next
  case (2 x y)
  define v where "v = push_bit 16 (char_u32 x) OR push_bit 8 (char_u32 y) OR char_u32 CHR 0x00"
  have v: "v = push_bit 16 (char_u32 x) OR push_bit 8 (char_u32 y)"
    by (simp add: v_def char_u32_def)
  obtain b' where "decode_loop b 0 (alpha (drop_bit 18 v) # alpha (drop_bit 12 v) # alpha (drop_bit 6 v) # []) =
    u32_char (drop_bit 16 v AND 255) # u32_char (drop_bit 8 v AND 255) # decode_loop b' 2 []"
    by (rule decode_group3)
  then show ?case
    by (simp add: group_bytes [OF v_def] Let_def flip: v)
next
  case (3 x)
  define v where "v = push_bit 16 (char_u32 x) OR push_bit 8 (char_u32 CHR 0x00) OR char_u32 CHR 0x00"
  have v: "v = push_bit 16 (char_u32 x)"
    by (simp add: v_def char_u32_def)
  obtain b' where "decode_loop b 0 (alpha (drop_bit 18 v) # alpha (drop_bit 12 v) # []) =
    u32_char (drop_bit 16 v AND 255) # decode_loop b' 4 []"
    by (rule decode_group2)
  then show ?case
    by (simp add: group_bytes [OF v_def] Let_def flip: v)
qed simp

lemma EncodeBase64_visible: "list_all visible_char (EncodeBase64 xs)"
  by (induction xs rule: EncodeBase64.induct) (simp_all add: Let_def alpha_props)

interpretation base64: header_codec EncodeBase64 DecodeBase64
  by unfold_locales (simp_all add: DecodeBase64_def decode_encode EncodeBase64_visible)


subsection \<open>Percent encoding satisfies it\<close>

lemma kHex_table: "map hexval kHex = map int [0..<16]"
  by (simp add: kHex_def hexval_def upt_conv_Cons)

lemma kHex_visible: "list_all visible_char kHex"
  by (simp add: kHex_def visible_char_def)

lemma hex_digit_props [codec_simps]:
  "hexval (hex_digit n) = int (n mod 16)" "visible_char (hex_digit n)"
proof -
  have n15: "n AND 15 = n mod 16"
    using take_bit_eq_mask [of 4 n] by (simp add: take_bit_eq_mod mask_eq_exp_minus_1)
  have less: "n mod 16 < length kHex" by (simp add: kHex_def)
  have "hexval (hex_digit n) = map hexval kHex ! (n mod 16)"
    using less by (simp add: hex_digit_def n15)
  then show "hexval (hex_digit n) = int (n mod 16)"
    by (simp add: kHex_table)
  show "visible_char (hex_digit n)"
    using kHex_visible less by (simp add: list_all_length hex_digit_def n15)
qed

lemma nibbles_join: "n < 256 \<Longrightarrow> push_bit 4 (drop_bit 4 n mod 16) OR (n mod 16) = n" for n :: nat
proof -
  assume "n < 256"
  then have "drop_bit 4 n mod 16 = drop_bit 4 n"
    by (simp add: drop_bit_eq_div)
  moreover have "push_bit 4 (drop_bit 4 n) OR take_bit 4 n = n"
    by (rule bit_eqI) (auto simp: bit_or_iff bit_push_bit_iff bit_drop_bit_eq bit_take_bit_iff)
  ultimately show ?thesis
    by (simp add: take_bit_eq_mod)
qed

lemma PercentDecode_plain: "c \<noteq> CHR ''%'' \<Longrightarrow> PercentDecode (c # cs) = c # PercentDecode cs"
  by (cases cs rule: PercentDecode.cases) (simp_all split: list.splits)

lemma PercentDecode_escape:
  "PercentDecode (CHR ''%'' # hex_digit (drop_bit 4 n) # hex_digit n # cs) = char_of n # PercentDecode cs"
  if "n < 256"
  using nibbles_join [OF that] by (simp add: hex_digit_props)

lemma PercentDecode_PercentEncode: "PercentDecode (PercentEncode xs) = xs"
proof (induction xs)
  case (Cons c cs)
  then show ?case
    by (simp add: Let_def PercentDecode_plain PercentDecode_escape del: PercentDecode.simps(1))
qed simp

lemma visible_intros [codec_simps]:
  "visible_char CHR ''%''" "\<lbrakk>0x21 \<le> (of_char c :: nat); (of_char c :: nat) \<le> 0x7E\<rbrakk> \<Longrightarrow> visible_char c"
  by (simp_all add: visible_char_def)

lemma PercentEncode_visible: "list_all visible_char (PercentEncode xs)"
  by (induction xs) (auto simp: Let_def codec_simps)

interpretation percent: header_codec PercentEncode PercentDecode
  by unfold_locales (simp_all add: PercentDecode_PercentEncode PercentEncode_visible)


section \<open>Properties\<close>

lemma decode_loop_padding:
  "CHR ''='' \<notin> set cs \<Longrightarrow> decode_loop b n (cs @ CHR ''='' # pad) = decode_loop b n cs"
  by (induction cs arbitrary: b n) (auto simp: decode_loop.simps(2) Let_def)

lemma EncodeBase64_no_padding: "CHR ''='' \<notin> set (EncodeBase64 xs)"
  by (induction xs rule: EncodeBase64.induct) (simp_all add: Let_def alpha_props not_sym [OF alpha_props(2)])

text \<open>
  Base64 metadata round trip. For every byte string, decoding the unpadded encoding gives
  the bytes back, an encoding followed by padding decodes to the same bytes, and the encoding
  consists of visible ASCII only, so that it is a legal header value.
\<close>

theorem base64_roundtrip:
  "DecodeBase64 (EncodeBase64 xs) = xs
   \<and> DecodeBase64 (EncodeBase64 xs @ CHR ''='' # pad) = xs
   \<and> list_all visible_char (EncodeBase64 xs)"
  by (simp add: base64.dec_enc base64.enc_visible
      base64.dec_enc [unfolded DecodeBase64_def] DecodeBase64_def decode_loop_padding
      EncodeBase64_no_padding)

text \<open>
  Percent encoding round trip. Whatever bytes a status message holds (spaces, percent
  signs, control characters, bytes above 0x7E), decoding the encoded message gives the
  message back, and the encoded form is visible ASCII.
\<close>

theorem percent_roundtrip:
  "PercentDecode (PercentEncode xs) = xs \<and> list_all visible_char (PercentEncode xs)"
  by (simp add: percent.dec_enc percent.enc_visible)

end
