(* ===== verification/Framing.thy ===== *)
theory Framing
  imports Metadata "HOL-Library.Monad_Syntax"
begin

text \<open>
  \<open>src/protocol/framing.h\<close> and \<open>framing.cc\<close>: the length-prefixed message (LPM) encoder and the
  incremental decoder of a single unary message.

  The decoder's \<open>Feed\<close> is a loop that makes progress only while the decoder's fields agree
  with each other; a loop that does not end is \<open>None\<close>. The invariant \<open>decoder_ok\<close> holds of a
  new decoder and is kept by every operation, and under it \<open>Feed\<close> always returns.

  The locale \<open>chunked_feed\<close> is the contract of every incremental parser of the library: bytes
  may arrive in any chunks. It is interpreted here on \<open>FrameDecoder\<close> (up to the wording of an
  error message) and later on the streaming parsers.
\<close>

section \<open>Encoder\<close>

definition kLpmHeaderSize :: nat where "kLpmHeaderSize = 5"
definition kFlagUncompressed :: u8 where "kFlagUncompressed = 0"
definition kFlagCompressed :: u8 where "kFlagCompressed = 1"

definition be32_bytes :: "u32 \<Rightarrow> bytes" where
  "be32_bytes len = [u32_char (drop_bit 24 len AND 255), u32_char (drop_bit 16 len AND 255),
     u32_char (drop_bit 8 len AND 255), u32_char (len AND 255)]"

text \<open>\<open>None\<close> is the \<open>false\<close> result, which leaves the output untouched.\<close>

definition EncodeFrame :: "u8 \<Rightarrow> bytes \<Rightarrow> bytes option" where
  "EncodeFrame compress_flag payload =
     (if length payload > 2 ^ 32 - 1 then None
      else let len = of_nat (length payload) :: u32
           in Some ([u8_char compress_flag] @ be32_bytes len @ payload))"

section \<open>Decoder\<close>

datatype DecState = kAwaitingHeader | kAwaitingPayload | kDone | kError

record FrameDecoder =
  fd_state :: DecState
  fd_max_message_size :: nat
  fd_has_message :: bool
  fd_limit_exceeded :: bool
  fd_header_buf :: bytes
  fd_header_bytes :: nat
  fd_compress_flag :: u8
  fd_payload_len :: u32
  fd_payload :: bytes
  fd_error_message :: string

definition new_FrameDecoder :: "nat \<Rightarrow> FrameDecoder" where
  "new_FrameDecoder max_size =
     \<lparr>fd_state = kAwaitingHeader, fd_max_message_size = max_size, fd_has_message = False,
      fd_limit_exceeded = False, fd_header_buf = replicate 5 (CHR 0x00), fd_header_bytes = 0,
      fd_compress_flag = 0, fd_payload_len = 0, fd_payload = [], fd_error_message = []\<rparr>"

definition SetError :: "string \<Rightarrow> FrameDecoder \<Rightarrow> FrameDecoder" where
  "SetError msg d = d\<lparr>fd_state := kError, fd_error_message := msg\<rparr>"

text \<open>\<open>memcpy(buf + off, src, src.size())\<close> inside a buffer that is long enough.\<close>

definition memcpy_at :: "bytes \<Rightarrow> nat \<Rightarrow> bytes \<Rightarrow> bytes" where
  "memcpy_at buf off src = take off buf @ src @ drop (off + length src) buf"

text \<open>The big-endian length in bytes 1 to 4 of a header buffer.\<close>

definition be32 :: "bytes \<Rightarrow> u32" where
  "be32 buf = push_bit 24 (char_u32 (buf ! 1)) OR push_bit 16 (char_u32 (buf ! 2))
     OR push_bit 8 (char_u32 (buf ! 3)) OR char_u32 (buf ! 4)"

definition TryParseHeader :: "FrameDecoder \<Rightarrow> FrameDecoder" where
  "TryParseHeader d =
     (if fd_header_bytes d < kLpmHeaderSize then d
      else
        let flag = char_u8 (fd_header_buf d ! 0); d1 = d\<lparr>fd_compress_flag := flag\<rparr>
        in if flag \<noteq> kFlagUncompressed \<and> flag \<noteq> kFlagCompressed
           then SetError (''reserved compression flag: '' @ to_string (unat flag)) d1
           else
             let len = be32 (fd_header_buf d); d2 = d1\<lparr>fd_payload_len := len\<rparr>
             in if unat len > fd_max_message_size d
                then SetError (''message length '' @ to_string (unat len) @ '' exceeds limit ''
                       @ to_string (fd_max_message_size d)) (d2\<lparr>fd_limit_exceeded := True\<rparr>)
                else
                  let d3 = d2\<lparr>fd_payload := []\<rparr>
                  in if len = 0 then d3\<lparr>fd_has_message := True, fd_state := kDone\<rparr>
                     else d3\<lparr>fd_state := kAwaitingPayload\<rparr>)"

partial_function (option) feed_loop :: "FrameDecoder \<Rightarrow> bytes \<Rightarrow> FrameDecoder option" where
  "feed_loop d chunk =
     (if chunk = [] then Some d
      else case fd_state d of
        kAwaitingHeader \<Rightarrow>
          let need = kLpmHeaderSize - fd_header_bytes d;
              n = min need (length chunk);
              d1 = TryParseHeader
                (d\<lparr>fd_header_buf := memcpy_at (fd_header_buf d) (fd_header_bytes d) (take n chunk),
                   fd_header_bytes := fd_header_bytes d + n\<rparr>)
          in if fd_state d1 = kError then Some d1 else feed_loop d1 (drop n chunk)
      | kAwaitingPayload \<Rightarrow>
          let need = unat (fd_payload_len d) - length (fd_payload d);
              n = min need (length chunk);
              d1 = d\<lparr>fd_payload := fd_payload d @ take n chunk\<rparr>;
              rest = drop n chunk
          in if length (fd_payload d1) = unat (fd_payload_len d1)
             then let d2 = d1\<lparr>fd_has_message := True, fd_state := kDone\<rparr>
                  in if rest \<noteq> []
                     then Some (SetError ''unexpected bytes after single unary message'' d2)
                     else feed_loop d2 rest
             else feed_loop d1 rest
      | kDone \<Rightarrow> Some (SetError ''unexpected second message in unary call'' d)
      | kError \<Rightarrow> Some d)"

definition Feed :: "FrameDecoder \<Rightarrow> bytes \<Rightarrow> FrameDecoder option" where
  "Feed d chunk = (if fd_state d = kError then Some d else feed_loop d chunk)"

definition Reset :: "FrameDecoder \<Rightarrow> FrameDecoder" where
  "Reset d = d\<lparr>fd_state := kAwaitingHeader, fd_header_bytes := 0, fd_compress_flag := 0,
     fd_payload_len := 0, fd_payload := [], fd_error_message := [], fd_has_message := False,
     fd_limit_exceeded := False\<rparr>"

definition MarkEos :: "FrameDecoder \<Rightarrow> FrameDecoder" where
  "MarkEos d =
     (if fd_state d = kError \<or> fd_state d = kDone then d
      else if fd_state d = kAwaitingHeader \<and> fd_header_bytes d = 0 then d
      else SetError ''stream ended with incomplete message'' d)"

text \<open>\<open>TakePayload\<close> moves the payload out and leaves the decoder's vector empty.\<close>

definition TakePayload :: "FrameDecoder \<Rightarrow> bytes \<times> FrameDecoder" where
  "TakePayload d = (fd_payload d, d\<lparr>fd_payload := []\<rparr>)"

abbreviation fd_done :: "FrameDecoder \<Rightarrow> bool" where
  "fd_done d \<equiv> fd_state d = kDone"

abbreviation fd_error :: "FrameDecoder \<Rightarrow> bool" where
  "fd_error d \<equiv> fd_state d = kError"


section \<open>The chunking contract\<close>

text \<open>
  A parser with a state \<open>'p\<close> whose \<open>feed\<close> may fail to return; \<open>view\<close> is what an observer
  of the state may rely on. The law: two chunks in a row are one chunk.
\<close>

primrec feeds :: "('p \<Rightarrow> bytes \<Rightarrow> 'p option) \<Rightarrow> 'p \<Rightarrow> bytes list \<Rightarrow> 'p option" where
  "feeds feed p [] = Some p"
| "feeds feed p (c # cs) = Option.bind (feed p c) (\<lambda>q. feeds feed q cs)"

locale chunked_feed =
  fixes feed :: "'p \<Rightarrow> bytes \<Rightarrow> 'p option"
    and view :: "'p \<Rightarrow> 'v"
    and ok :: "'p \<Rightarrow> bool"
  assumes feed_returns: "ok p \<Longrightarrow> \<exists>p'. feed p chunk = Some p' \<and> ok p'"
    and feed_Nil: "ok p \<Longrightarrow> feed p [] = Some p"
    and feed_append: "ok p \<Longrightarrow> feed p a = Some q \<Longrightarrow>
          map_option view (feed p (a @ b)) = map_option view (feed q b)"
    and view_feed: "ok p \<Longrightarrow> ok q \<Longrightarrow> view p = view q \<Longrightarrow>
          map_option view (feed p c) = map_option view (feed q c)"
begin

lemma feeds_returns: "ok p \<Longrightarrow> \<exists>q. feeds feed p cs = Some q \<and> ok q"
proof (induction cs arbitrary: p)
  case (Cons c cs)
  then show ?case
    using feed_returns [of p c] by (metis bind.bind_lunit feeds.simps(2))
qed simp

lemma view_feeds:
  "ok p \<Longrightarrow> ok q \<Longrightarrow> view p = view q \<Longrightarrow> map_option view (feeds feed p cs) = map_option view (feeds feed q cs)"
proof (induction cs arbitrary: p q)
  case (Cons c cs)
  obtain p' q' where p': "feed p c = Some p'" "ok p'" and q': "feed q c = Some q'" "ok q'"
    using Cons.prems feed_returns by blast
  then have "view p' = view q'"
    using view_feed [of p q c] Cons.prems by simp
  then show ?case
    using Cons.IH [of p' q'] p' q' by simp
qed simp

text \<open>However a byte string is cut into chunks, the observable result is that of one chunk.\<close>

lemma feeds_concat:
  "ok p \<Longrightarrow> map_option view (feeds feed p cs) = map_option view (feed p (concat cs))"
proof (induction cs arbitrary: p)
  case Nil
  then show ?case by (simp add: feed_Nil)
next
  case (Cons c cs)
  obtain q where q: "feed p c = Some q" "ok q"
    using Cons.prems feed_returns by blast
  then have "map_option view (feeds feed q cs) = map_option view (feed q (concat cs))"
    using Cons.IH by blast
  then show ?case
    using q feed_append [OF Cons.prems q(1), of "concat cs"] by simp
qed

lemma same_bytes_same_view:
  "ok p \<Longrightarrow> concat cs = concat ds \<Longrightarrow> map_option view (feeds feed p cs) = map_option view (feeds feed p ds)"
  by (simp add: feeds_concat)

end

section \<open>The decoder's invariant\<close>

definition decoder_ok :: "FrameDecoder \<Rightarrow> bool" where
  "decoder_ok d \<longleftrightarrow>
     length (fd_header_buf d) = 5 \<and> fd_header_bytes d \<le> 5
     \<and> length (fd_payload d) \<le> fd_max_message_size d
     \<and> (fd_limit_exceeded d \<longrightarrow> fd_state d = kError)
     \<and> (fd_state d \<noteq> kError \<longrightarrow> fd_error_message d = [])
     \<and> (case fd_state d of
          kAwaitingHeader \<Rightarrow> fd_header_bytes d < 5 \<and> \<not> fd_has_message d
        | kAwaitingPayload \<Rightarrow> length (fd_payload d) < unat (fd_payload_len d)
            \<and> unat (fd_payload_len d) \<le> fd_max_message_size d \<and> \<not> fd_has_message d
        | kDone \<Rightarrow> fd_has_message d
        | kError \<Rightarrow> True)"

lemma SetError_sel [simp]:
  "fd_state (SetError m d) = kError" "fd_payload (SetError m d) = fd_payload d"
  "fd_error_message (SetError m d) = m" "fd_limit_exceeded (SetError m d) = fd_limit_exceeded d"
  "fd_max_message_size (SetError m d) = fd_max_message_size d"
  "fd_header_buf (SetError m d) = fd_header_buf d" "fd_header_bytes (SetError m d) = fd_header_bytes d"
  "fd_compress_flag (SetError m d) = fd_compress_flag d" "fd_has_message (SetError m d) = fd_has_message d"
  by (simp_all add: SetError_def)

lemma decoder_ok_new [simp]: "decoder_ok (new_FrameDecoder m)"
  by (simp add: decoder_ok_def new_FrameDecoder_def)

lemma decoder_ok_MarkEos: "decoder_ok d \<Longrightarrow> decoder_ok (MarkEos d)"
  by (auto simp: decoder_ok_def MarkEos_def split: DecState.splits)

lemma decoder_ok_Reset: "decoder_ok d \<Longrightarrow> decoder_ok (Reset d)"
  by (simp add: decoder_ok_def Reset_def)

lemma length_memcpy_at: "off + length src \<le> length buf \<Longrightarrow> length (memcpy_at buf off src) = length buf"
  by (simp add: memcpy_at_def)

lemma memcpy_at_Nil [simp]: "memcpy_at buf off [] = buf"
  by (simp add: memcpy_at_def)

lemma memcpy_at_append:
  "off \<le> length buf \<Longrightarrow>
     memcpy_at (memcpy_at buf off a) (off + length a) b = memcpy_at buf off (a @ b)"
  by (simp add: memcpy_at_def ac_simps)

definition hdr_acc :: "FrameDecoder \<Rightarrow> bytes \<Rightarrow> FrameDecoder" where
  "hdr_acc d a = d\<lparr>fd_header_buf := memcpy_at (fd_header_buf d) (fd_header_bytes d) a,
     fd_header_bytes := fd_header_bytes d + length a\<rparr>"

definition pay_acc :: "FrameDecoder \<Rightarrow> bytes \<Rightarrow> FrameDecoder" where
  "pay_acc d a = d\<lparr>fd_payload := fd_payload d @ a\<rparr>"

lemma decoder_ok_TryParseHeader:
  "decoder_ok d \<Longrightarrow> fd_state d = kAwaitingHeader \<Longrightarrow> fd_header_bytes d + length a = 5 \<Longrightarrow>
     decoder_ok (TryParseHeader (hdr_acc d a))"
  by (auto simp: decoder_ok_def TryParseHeader_def hdr_acc_def Let_def length_memcpy_at
      kLpmHeaderSize_def unat_gt_0)

lemma feed_loop_Nil [simp]: "feed_loop d [] = Some d"
  by (simp add: feed_loop.simps)

lemma feed_loop_error [simp]: "fd_state d = kError \<Longrightarrow> feed_loop d c = Some d"
  by (simp add: feed_loop.simps)

lemma feed_loop_done:
  "fd_state d = kDone \<Longrightarrow> c \<noteq> [] \<Longrightarrow>
     feed_loop d c = Some (SetError ''unexpected second message in unary call'' d)"
  by (simp add: feed_loop.simps)

lemma feed_loop_header_full:
  assumes "fd_state d = kAwaitingHeader" "fd_header_bytes d + length a = 5" "a \<noteq> []"
  shows "feed_loop d (a @ b) =
    (let d1 = TryParseHeader (hdr_acc d a) in if fd_state d1 = kError then Some d1 else feed_loop d1 b)"
proof -
  have "min (5 - fd_header_bytes d) (length a + length b) = length a"
    using assms(2) by simp
  then show ?thesis
    using assms by (subst feed_loop.simps) (simp add: kLpmHeaderSize_def hdr_acc_def Let_def)
qed

lemma feed_loop_header_part:
  assumes "decoder_ok d" "fd_state d = kAwaitingHeader" "fd_header_bytes d + length a < 5"
  shows "feed_loop d (a @ b) = feed_loop (hdr_acc d a) b"
proof (cases "a = [] \<or> b = []")
  case True
  then show ?thesis
    using assms(2,3)
    by (elim disjE) (simp add: hdr_acc_def, subst feed_loop.simps,
        auto simp: kLpmHeaderSize_def hdr_acc_def TryParseHeader_def Let_def min_def)
next
  case False
  let ?n = "min (5 - (fd_header_bytes d + length a)) (length b)"
  have n: "min (5 - fd_header_bytes d) (length a + length b) = length a + ?n"
    using assms(3) by auto
  have "memcpy_at (memcpy_at (fd_header_buf d) (fd_header_bytes d) a) (fd_header_bytes d + length a) (take ?n b)
      = memcpy_at (fd_header_buf d) (fd_header_bytes d) (a @ take ?n b)"
    using assms(1) by (intro memcpy_at_append) (simp add: decoder_ok_def)
  then show ?thesis
    using False assms(2,3) n
    by (subst (1 2) feed_loop.simps) (simp add: kLpmHeaderSize_def hdr_acc_def Let_def add.assoc)
qed


lemma feed_loop_payload_part:
  assumes "fd_state d = kAwaitingPayload" "length (fd_payload d) + length a < unat (fd_payload_len d)"
  shows "feed_loop d (a @ b) = feed_loop (pay_acc d a) b"
proof (cases "a = [] \<or> b = []")
  case True
  then show ?thesis
    using assms by (elim disjE) (simp add: pay_acc_def, subst feed_loop.simps,
        auto simp: pay_acc_def Let_def min_def)
next
  case False
  let ?n = "min (unat (fd_payload_len d) - (length (fd_payload d) + length a)) (length b)"
  have "min (unat (fd_payload_len d) - length (fd_payload d)) (length a + length b) = length a + ?n"
    using assms(2) by auto
  then show ?thesis
    using False assms
    by (subst (1 2) feed_loop.simps) (simp add: pay_acc_def Let_def add.assoc)
qed

definition pay_done :: "FrameDecoder \<Rightarrow> bytes \<Rightarrow> FrameDecoder" where
  "pay_done d a = (pay_acc d a)\<lparr>fd_has_message := True, fd_state := kDone\<rparr>"

lemma feed_loop_payload_full:
  assumes "fd_state d = kAwaitingPayload" "length (fd_payload d) + length a = unat (fd_payload_len d)" "a \<noteq> []"
  shows "feed_loop d (a @ b) =
    (if b = [] then Some (pay_done d a)
     else Some (SetError ''unexpected bytes after single unary message'' (pay_done d a)))"
proof -
  have "min (unat (fd_payload_len d) - length (fd_payload d)) (length a + length b) = length a"
    using assms(2) by simp
  then show ?thesis
    using assms by (subst feed_loop.simps) (simp add: pay_acc_def pay_done_def Let_def)
qed

text \<open>A chunk either stays inside the header (payload) or has a prefix that completes it.\<close>

lemma cut_at:
  assumes "n \<le> length c" "0 < n"
  obtains a b where "c = a @ b" "length a = n" "a \<noteq> []" "length b < length c"
  using assms by (intro that [of "take n c" "drop n c"]) auto

lemma header_cases:
  assumes "decoder_ok d" "fd_state d = kAwaitingHeader"
  obtains (part) "fd_header_bytes d + length c < 5"
    | (full) a b where "c = a @ b" "fd_header_bytes d + length a = 5" "a \<noteq> []" "length b < length c"
proof (cases "fd_header_bytes d + length c < 5")
  case False
  have lt: "fd_header_bytes d < 5" using assms by (simp add: decoder_ok_def)
  with False have "5 - fd_header_bytes d \<le> length c" "0 < 5 - fd_header_bytes d" by simp_all
  then obtain a b where ab: "c = a @ b" "length a = 5 - fd_header_bytes d" "a \<noteq> []" "length b < length c"
    by (rule cut_at)
  have "fd_header_bytes d + length a = 5" using ab(2) lt by linarith
  then show thesis by (rule full [OF ab(1) _ ab(3,4)])
qed (rule part)

lemma payload_cases:
  assumes "decoder_ok d" "fd_state d = kAwaitingPayload"
  obtains (part) "length (fd_payload d) + length c < unat (fd_payload_len d)"
    | (full) a b where "c = a @ b" "length (fd_payload d) + length a = unat (fd_payload_len d)" "a \<noteq> []"
proof (cases "length (fd_payload d) + length c < unat (fd_payload_len d)")
  case False
  let ?need = "unat (fd_payload_len d) - length (fd_payload d)"
  have lt: "length (fd_payload d) < unat (fd_payload_len d)" using assms by (simp add: decoder_ok_def)
  with False have "?need \<le> length c" "0 < ?need" by simp_all
  then obtain a b where ab: "c = a @ b" "length a = ?need" "a \<noteq> []"
    by (rule cut_at)
  have "length (fd_payload d) + length a = unat (fd_payload_len d)" using ab(2) lt by linarith
  then show thesis by (rule full [OF ab(1) _ ab(3)])
qed (rule part)

lemma decoder_ok_accs:
  "decoder_ok d \<Longrightarrow> fd_state d = kAwaitingHeader \<Longrightarrow> fd_header_bytes d + length a < 5 \<Longrightarrow>
     decoder_ok (hdr_acc d a)"
  "decoder_ok d \<Longrightarrow> fd_state d = kAwaitingPayload \<Longrightarrow>
     length (fd_payload d) + length a < unat (fd_payload_len d) \<Longrightarrow> decoder_ok (pay_acc d a)"
  "decoder_ok d \<Longrightarrow> fd_state d = kAwaitingPayload \<Longrightarrow>
     length (fd_payload d) + length a = unat (fd_payload_len d) \<Longrightarrow> decoder_ok (pay_done d a)"
  by (auto simp: decoder_ok_def hdr_acc_def pay_acc_def pay_done_def length_memcpy_at)

lemma decoder_ok_SetError: "decoder_ok d \<Longrightarrow> decoder_ok (SetError m d)"
  by (simp add: decoder_ok_def SetError_def)

lemma acc_sel [simp]:
  "fd_state (hdr_acc d a) = fd_state d" "fd_header_bytes (hdr_acc d a) = fd_header_bytes d + length a"
  "fd_state (pay_acc d a) = fd_state d" "fd_payload (pay_acc d a) = fd_payload d @ a"
  "fd_payload_len (pay_acc d a) = fd_payload_len d" "fd_state (pay_done d a) = kDone"
  by (simp_all add: hdr_acc_def pay_acc_def pay_done_def)

text \<open>Under the invariant the loop ends, and its result satisfies the invariant again.\<close>

lemma feed_loop_ok: "decoder_ok d \<Longrightarrow> \<exists>d'. feed_loop d c = Some d' \<and> decoder_ok d'"
proof (induction "length c" arbitrary: d c rule: less_induct)
  case less
  show ?case
  proof (cases "fd_state d")
    case kAwaitingHeader
    with less.prems show ?thesis
    proof (cases rule: header_cases [of d c])
      case part
      then show ?thesis
        using feed_loop_header_part [OF less.prems kAwaitingHeader part, of "[]"]
          decoder_ok_accs(1) [OF less.prems kAwaitingHeader part] by simp
    next
      case (full a b)
      then show ?thesis
        using feed_loop_header_full [OF kAwaitingHeader full(2,3), of b] less.hyps [OF full(4)]
          decoder_ok_TryParseHeader [OF less.prems kAwaitingHeader full(2)]
        by (auto simp: Let_def)
    qed
  next
    case kAwaitingPayload
    with less.prems show ?thesis
    proof (cases rule: payload_cases [of d c])
      case part
      then show ?thesis
        using feed_loop_payload_part [OF kAwaitingPayload part, of "[]"]
          decoder_ok_accs(2) [OF less.prems kAwaitingPayload part] by simp
    next
      case (full a b)
      then show ?thesis
        using feed_loop_payload_full [OF kAwaitingPayload full(2,3), of b]
          decoder_ok_accs(3) [OF less.prems kAwaitingPayload full(2)]
        by (auto intro: decoder_ok_SetError)
    qed
  next
    case kDone
    then show ?thesis
      using less.prems by (cases "c = []") (auto simp: feed_loop_done intro: decoder_ok_SetError)
  qed (use less.prems in simp)
qed

text \<open>Everything but the wording of the error message.\<close>

definition erase_message :: "FrameDecoder \<Rightarrow> FrameDecoder" where
  "erase_message d = d\<lparr>fd_error_message := []\<rparr>"

lemma erase_SetError [simp]: "erase_message (SetError m d) = erase_message (SetError m' d)"
  by (simp add: erase_message_def SetError_def)

lemma feed_loop_append:
  "decoder_ok d \<Longrightarrow> feed_loop d a = Some e \<Longrightarrow>
     map_option erase_message (feed_loop d (a @ b)) = map_option erase_message (feed_loop e b)"
proof (induction "length a" arbitrary: d a rule: less_induct)
  case less
  show ?case
  proof (cases "fd_state d")
    case kAwaitingHeader
    with less.prems(1) show ?thesis
    proof (cases rule: header_cases [of d a])
      case part
      then show ?thesis
        using feed_loop_header_part [OF less.prems(1) kAwaitingHeader part] less.prems(2)
        by (metis append_Nil2 feed_loop_Nil option.inject)
    next
      case (full a1 a2)
      let ?d1 = "TryParseHeader (hdr_acc d a1)"
      have ok: "decoder_ok ?d1"
        by (rule decoder_ok_TryParseHeader [OF less.prems(1) kAwaitingHeader full(2)])
      show ?thesis
        using feed_loop_header_full [OF kAwaitingHeader full(2,3), of a2]
          feed_loop_header_full [OF kAwaitingHeader full(2,3), of "a2 @ b"]
          less.hyps [OF full(4) ok] less.prems(2) full(1)
        by (auto simp: Let_def split: if_splits)
    qed
  next
    case kAwaitingPayload
    with less.prems(1) show ?thesis
    proof (cases rule: payload_cases [of d a])
      case part
      then show ?thesis
        using feed_loop_payload_part [OF kAwaitingPayload part] less.prems(2)
        by (metis append_Nil2 feed_loop_Nil option.inject)
    next
      case (full a1 a2)
      have "feed_loop (pay_done d a1) b = Some (if b = [] then pay_done d a1
          else SetError ''unexpected second message in unary call'' (pay_done d a1))"
        by (simp add: feed_loop_done)
      then show ?thesis
        using feed_loop_payload_full [OF kAwaitingPayload full(2,3), of a2]
          feed_loop_payload_full [OF kAwaitingPayload full(2,3), of "a2 @ b"]
          less.prems(2) full(1)
        by (auto split: if_splits)
    qed
  next
    case kDone
    then show ?thesis
      using less.prems(2) by (cases "a = []") (auto simp: feed_loop_done)
  qed (use less.prems(2) in simp)
qed

lemma Feed_eq: "Feed d c = feed_loop d c"
  by (simp add: Feed_def)

interpretation frame_decoder: chunked_feed Feed erase_message decoder_ok
proof
  fix p q :: FrameDecoder and c
  assume "decoder_ok p" "decoder_ok q" and eq: "erase_message p = erase_message q"
  then show "map_option erase_message (Feed p c) = map_option erase_message (Feed q c)"
  proof (cases "fd_state p = kError")
    case True
    moreover have "fd_state q = fd_state p"
      using eq by (cases p; cases q) (simp add: erase_message_def)
    ultimately show ?thesis using eq by (simp add: Feed_eq)
  next
    case False
    moreover have "fd_state q = fd_state p"
      using eq by (cases p; cases q) (simp add: erase_message_def)
    ultimately have "p = q"
      using eq \<open>decoder_ok p\<close> \<open>decoder_ok q\<close>
      by (cases p; cases q) (simp add: erase_message_def decoder_ok_def)
    then show ?thesis by simp
  qed
qed (auto simp: Feed_eq feed_loop_append feed_loop_ok)


section \<open>What the decoder computes\<close>

text \<open>
  The one-shot specification: a whole body, read as a single LPM frame. \<open>FrameError True\<close> is a
  declared length above the limit, \<open>FrameError False\<close> any other framing violation.
\<close>

datatype decode_result = NoMessage | Message u8 bytes | FrameError bool

definition decode_spec :: "nat \<Rightarrow> bytes \<Rightarrow> decode_result" where
  "decode_spec max_size bs =
     (if bs = [] then NoMessage
      else if length bs < 5 then FrameError False
      else let flag = char_u8 (bs ! 0); len = unat (be32 bs)
           in if flag \<noteq> 0 \<and> flag \<noteq> 1 then FrameError False
              else if max_size < len then FrameError True
              else if length bs \<noteq> 5 + len then FrameError False
              else Message flag (drop 5 bs))"

definition outcome :: "FrameDecoder \<Rightarrow> decode_result" where
  "outcome d = (case fd_state d of kAwaitingHeader \<Rightarrow> NoMessage | kAwaitingPayload \<Rightarrow> FrameError False
     | kDone \<Rightarrow> Message (fd_compress_flag d) (fd_payload d) | kError \<Rightarrow> FrameError (fd_limit_exceeded d))"

lemma outcome_erase: "outcome (MarkEos (erase_message d)) = outcome (MarkEos d)"
  by (simp add: outcome_def MarkEos_def erase_message_def SetError_def)

lemma be32_prefix: "length a = 5 \<Longrightarrow> be32 (a @ b) = be32 a"
  by (simp add: be32_def nth_append)

lemma hdr_acc_new:
  "length a = 5 \<Longrightarrow> fd_header_buf (hdr_acc (new_FrameDecoder m) a) = a"
  by (simp add: hdr_acc_def new_FrameDecoder_def memcpy_at_def)

lemma TryParseHeader_new:
  assumes "length a = 5"
  shows "TryParseHeader (hdr_acc (new_FrameDecoder m) a) =
    (let d = (hdr_acc (new_FrameDecoder m) a)\<lparr>fd_compress_flag := char_u8 (a ! 0)\<rparr>
     in if char_u8 (a ! 0) \<noteq> 0 \<and> char_u8 (a ! 0) \<noteq> 1
        then SetError (''reserved compression flag: '' @ to_string (unat (char_u8 (a ! 0)))) d
        else if m < unat (be32 a)
        then SetError (''message length '' @ to_string (unat (be32 a)) @ '' exceeds limit '' @ to_string m)
               (d\<lparr>fd_payload_len := be32 a, fd_limit_exceeded := True\<rparr>)
        else if be32 a = 0 then d\<lparr>fd_payload_len := 0, fd_has_message := True, fd_state := kDone\<rparr>
        else d\<lparr>fd_payload_len := be32 a, fd_state := kAwaitingPayload\<rparr>)"
  using hdr_acc_new [OF assms, of m] assms
  by (simp add: TryParseHeader_def Let_def kLpmHeaderSize_def kFlagUncompressed_def kFlagCompressed_def)
    (simp add: hdr_acc_def new_FrameDecoder_def)

lemma Feed_new:
  "map_option (outcome \<circ> MarkEos) (Feed (new_FrameDecoder m) bs) = Some (decode_spec m bs)"
proof -
  let ?d = "new_FrameDecoder m"
  have st: "fd_state ?d = kAwaitingHeader" "fd_header_bytes ?d = 0"
    by (simp_all add: new_FrameDecoder_def)
  from decoder_ok_new [of m] st(1) show ?thesis
  proof (cases rule: header_cases [of _ bs])
    case part
    then show ?thesis
      using feed_loop_header_part [OF decoder_ok_new st(1) part, of "[]"]
      by (auto simp: st Feed_eq outcome_def MarkEos_def decode_spec_def Let_def hdr_acc_def
          new_FrameDecoder_def SetError_def)
  next
    case (full a b)
    then have len: "length a = 5" by (simp add: st)
    let ?d1 = "TryParseHeader (hdr_acc ?d a)"
    have feed: "Feed ?d bs = (if fd_state ?d1 = kError then Some ?d1 else feed_loop ?d1 b)"
      using feed_loop_header_full [OF st(1) full(2,3), of b] by (simp add: Feed_eq full(1) Let_def)
    have bs: "bs \<noteq> []" "length bs = 5 + length b" "bs ! 0 = a ! 0" "be32 bs = be32 a" "drop 5 bs = b"
      using len full(1,3) by (auto simp: be32_prefix nth_append)
    note d1 = TryParseHeader_new [OF len, of m]
    consider (bad) "char_u8 (a ! 0) \<noteq> 0 \<and> char_u8 (a ! 0) \<noteq> 1"
      | (big) "char_u8 (a ! 0) = 0 \<or> char_u8 (a ! 0) = 1" "m < unat (be32 a)"
      | (empty) "char_u8 (a ! 0) = 0 \<or> char_u8 (a ! 0) = 1" "\<not> m < unat (be32 a)" "be32 a = 0"
      | (body) "char_u8 (a ! 0) = 0 \<or> char_u8 (a ! 0) = 1" "\<not> m < unat (be32 a)" "be32 a \<noteq> 0"
      by blast
    then show ?thesis
    proof cases
      case bad
      then show ?thesis
        by (simp add: feed d1 Let_def decode_spec_def bs outcome_def MarkEos_def)
           (simp add: hdr_acc_def new_FrameDecoder_def)
    next
      case big
      then show ?thesis
        by (auto simp: feed d1 Let_def decode_spec_def bs outcome_def MarkEos_def)
    next
      case empty
      then show ?thesis
        by (cases "b = []")
          (auto simp: feed d1 Let_def decode_spec_def bs outcome_def MarkEos_def feed_loop_done,
           auto simp: hdr_acc_def new_FrameDecoder_def)
    next
      case body
      then have d1': "?d1 = (hdr_acc ?d a)\<lparr>fd_compress_flag := char_u8 (a ! 0),
          fd_payload_len := be32 a, fd_state := kAwaitingPayload\<rparr>"
        by (auto simp: d1 Let_def)
      have ok: "decoder_ok ?d1"
        by (rule decoder_ok_TryParseHeader [OF decoder_ok_new st(1)]) (simp add: st len)
      have st1: "fd_state ?d1 = kAwaitingPayload" "fd_payload ?d1 = []" "fd_payload_len ?d1 = be32 a"
        "fd_limit_exceeded ?d1 = False" "fd_compress_flag ?d1 = char_u8 (a ! 0)"
        unfolding d1' by (simp_all add: hdr_acc_def new_FrameDecoder_def)
      from ok st1(1) show ?thesis
      proof (cases rule: payload_cases [of _ b])
        case part
        then show ?thesis
          using feed_loop_payload_part [OF st1(1) part, of "[]"] body st1
          by (auto simp: feed decode_spec_def bs outcome_def MarkEos_def Let_def pay_acc_def)
      next
        case (full a' b')
        then have "length a' = unat (be32 a)" by (simp add: st1)
        then show ?thesis
          using feed_loop_payload_full [OF st1(1) full(2,3), of b'] body st1 full(1)
          by (auto simp: feed decode_spec_def bs outcome_def MarkEos_def Let_def pay_done_def pay_acc_def)
      qed
    qed
  qed
qed


lemma char_u32_u32_char: "w < 256 \<Longrightarrow> char_u32 (u32_char w) = w"
  by (simp add: char_u32_def u32_char_def word_less_nat_alt unat_mod)

lemma be32_be32_bytes: "be32 (c # be32_bytes w @ xs) = w"
proof -
  have lt: "v AND 255 < (256 :: u32)" for v
    using word_and_le1 [of v 255] by (simp add: and.commute word_le_nat_alt word_less_nat_alt)
  have "be32 (c # be32_bytes w @ xs) =
      push_bit 24 (drop_bit 24 w AND 255) OR push_bit 16 (drop_bit 16 w AND 255)
      OR push_bit 8 (drop_bit 8 w AND 255) OR (w AND 255)"
    by (simp add: be32_def be32_bytes_def char_u32_u32_char lt numeral_nat)
  also have "\<dots> = w"
  proof (rule bit_word_eqI)
    fix n assume n: "n < LENGTH(32)"
    define m :: u32 where "m = mask 8"
    have m: "255 = m" and b: "bit m k \<longleftrightarrow> k < 8" for k
      by (auto simp: m_def mask_eq_exp_minus_1 bit_mask_iff [where 'a = u32, of 8 k, unfolded mask_eq_exp_minus_1, simplified])
    show "bit (push_bit 24 (drop_bit 24 w AND 255) OR push_bit 16 (drop_bit 16 w AND 255)
        OR push_bit 8 (drop_bit 8 w AND 255) OR (w AND 255)) n = bit w n"
      unfolding m using n by (cases "8 \<le> n"; cases "16 \<le> n"; cases "24 \<le> n") (auto simp: bit_simps b)
  qed
  finally show ?thesis .
qed

lemma length_be32_bytes [simp]: "length (be32_bytes w) = 4"
  by (simp add: be32_bytes_def)

lemma EncodeFrame_Some:
  "EncodeFrame flag payload = Some frame \<longleftrightarrow>
     length payload < 2 ^ 32 \<and> frame = u8_char flag # be32_bytes (of_nat (length payload)) @ payload"
  by (auto simp: EncodeFrame_def Let_def)

lemma decode_spec_EncodeFrame:
  assumes "EncodeFrame flag payload = Some frame" "flag = 0 \<or> flag = 1"
  shows "decode_spec m frame = (if length payload \<le> m then Message flag payload else FrameError True)"
proof -
  have len: "unat (of_nat (length payload) :: u32) = length payload"
    using assms(1) by (simp add: EncodeFrame_Some unat_of_nat)
  have "frame = u8_char flag # be32_bytes (of_nat (length payload)) @ payload"
    using assms(1) by (simp add: EncodeFrame_Some)
  then show ?thesis
    using assms(2) len by (auto simp: decode_spec_def Let_def be32_be32_bytes char_u8_u8_char)
qed

lemma feeds_outcome:
  "map_option (outcome \<circ> MarkEos) (feeds Feed (new_FrameDecoder m) chunks)
     = Some (decode_spec m (concat chunks))"
proof -
  have o: "map_option (outcome \<circ> MarkEos) x = map_option (outcome \<circ> MarkEos) (map_option erase_message x)" for x
    by (cases x) (simp_all add: outcome_erase)
  show ?thesis
    using frame_decoder.feeds_concat [OF decoder_ok_new, of m chunks] Feed_new [of m "concat chunks"]
    by (metis o)
qed

lemma TryParseHeader_max_message_size [simp]:
  "fd_max_message_size (TryParseHeader d) = fd_max_message_size d"
  by (simp add: TryParseHeader_def Let_def)

lemma feed_loop_max_message_size:
  assumes "feed_loop d c = Some e"
  shows "fd_max_message_size e = fd_max_message_size d"
  by (rule feed_loop.raw_induct [OF _ assms])
    (fastforce simp: Let_def SetError_def split: if_splits DecState.splits)

lemma feeds_max_message_size:
  "feeds Feed d cs = Some e \<Longrightarrow> fd_max_message_size e = fd_max_message_size d"
  by (induction cs arbitrary: d)
    (auto simp: Feed_eq bind_eq_Some_conv dest!: feed_loop_max_message_size)

lemma feeds_append: "feeds f p (xs @ ys) = Option.bind (feeds f p xs) (\<lambda>q. feeds f q ys)"
proof (induction xs arbitrary: p)
  case (Cons x xs)
  then show ?case by (cases "f p x") simp_all
qed simp

lemma Feed_error_stays: "fd_error d \<Longrightarrow> feeds Feed d chunks = Some d"
  by (induction chunks) (simp_all add: Feed_def)

section \<open>A call that feeds a decoder\<close>

text \<open>
  The unary and server-streaming calls of the server and the unary call of the client use the
  decoder the same way: \<open>on_data\<close> with a non-empty chunk does nothing once the call is closed,
  feeds the decoder otherwise, and rejects the call when that is an error.
\<close>

locale decoder_user =
  fixes on_data :: "'s \<Rightarrow> bytes \<Rightarrow> 's option"
    and dec :: "'s \<Rightarrow> FrameDecoder"
    and upd :: "FrameDecoder \<Rightarrow> 's \<Rightarrow> 's"
    and closed :: "'s \<Rightarrow> bool"
    and reject :: "FrameDecoder \<Rightarrow> 's \<Rightarrow> 's"
  assumes closed_data: "closed s \<Longrightarrow> on_data s c = Some s"
    and feed_data: "\<not> closed s \<Longrightarrow> c \<noteq> [] \<Longrightarrow> Feed (dec s) c = Some d \<Longrightarrow>
          on_data s c = Some (if fd_error d then reject d (upd d s) else upd d s)"
    and closed_reject: "closed (reject d s)"
    and upd_laws: "dec (upd d s) = d" "upd (dec s) s = s" "upd e (upd d s) = upd e s" "closed (upd d s) = closed s"
begin

lemma closed_stays: "closed s \<Longrightarrow> feeds on_data s chunks = Some s"
  by (induction chunks) (simp_all add: closed_data)

text \<open>The call follows its decoder, and answers the first framing error.\<close>

lemma follows_decoder:
  assumes "\<not> closed s" "decoder_ok (dec s)" "\<not> fd_error (dec s)" "list_all (\<lambda>c. c \<noteq> []) chunks"
    "feeds Feed (dec s) chunks = Some d"
  shows "feeds on_data s chunks = Some (if fd_error d then reject d (upd d s) else upd d s)"
  using assms
proof (induction chunks arbitrary: s)
  case (Cons c chunks)
  obtain d1 where d1: "Feed (dec s) c = Some d1" "decoder_ok d1"
    using frame_decoder.feed_returns [OF Cons.prems(2)] by blast
  then have d: "feeds Feed d1 chunks = Some d" using Cons.prems(5) by simp
  show ?case
  proof (cases "fd_error d1")
    case True
    then have "d = d1" using Feed_error_stays [OF True] d by simp
    then show ?thesis
      using True Cons.prems feed_data [OF _ _ d1(1)] by (simp add: closed_stays closed_reject)
  next
    case False
    then show ?thesis
      using Cons.IH [of "upd d1 s"] Cons.prems feed_data [OF _ _ d1(1)] d1(2) d by (simp add: upd_laws)
  qed
qed (auto simp: upd_laws)

end

section \<open>Properties\<close>

text \<open>
  C14: The incremental decoder refines the one-shot specification of a unary body. For every
  limit and every way the body is cut into DATA chunks (empty ones included), feeding the chunks
  to a new decoder and marking the end of the stream returns, and its outcome (no message, the
  message with its compression flag, a limit violation, another framing error) is what
  \<open>decode_spec\<close> reads off the concatenated bytes.
\<close>

theorem decoder_refines:
  "map_option (outcome \<circ> MarkEos) (feeds Feed (new_FrameDecoder m) chunks)
     = Some (decode_spec m (concat chunks))"
  by (rule feeds_outcome)

text \<open>
  A message framed by \<open>EncodeFrame\<close> with a flag of the protocol and sent in any chunks is
  decoded to the same flag and payload when it fits the receiver's limit, and reported as a limit
  violation when it does not.
\<close>

theorem frame_roundtrip:
  assumes "EncodeFrame flag payload = Some frame" "flag \<in> {kFlagUncompressed, kFlagCompressed}"
    and "concat chunks = frame"
  shows "map_option (outcome \<circ> MarkEos) (feeds Feed (new_FrameDecoder m) chunks)
    = Some (if length payload \<le> m then Message flag payload else FrameError True)"
  using feeds_outcome [of m chunks] decode_spec_EncodeFrame [OF assms(1), of m] assms(2,3)
  by (auto simp: kFlagUncompressed_def kFlagCompressed_def)

theorem frame_roundtrip_witness:
  "map_option (outcome \<circ> MarkEos)
     (feeds Feed (new_FrameDecoder 100) [[CHR 0x00, CHR 0x00], [CHR 0x00, CHR 0x00, CHR 0x02, CHR ''h''], ''i''])
   = Some (Message 0 ''hi'')"
proof -
  have "char_of (0 :: nat) = CHR 0x00" "char_of (2 :: nat) = CHR 0x02"
    by (simp_all add: char_of_eq_iff take_bit_eq_mod)
  then show ?thesis
    using frame_roundtrip [of 0 "''hi''" "[CHR 0x00, CHR 0x00, CHR 0x00, CHR 0x00, CHR 0x02, CHR ''h'', CHR ''i'']"
        "[[CHR 0x00, CHR 0x00], [CHR 0x00, CHR 0x00, CHR 0x02, CHR ''h''], ''i'']" 100]
    by (simp add: EncodeFrame_def Let_def be32_bytes_def kFlagUncompressed_def kFlagCompressed_def
        u8_char_def u32_char_def)
qed

text \<open>
  Whatever bytes a peer sends, in whatever chunks and with whatever limit, the decoder
  returns, never holds more payload than the limit, reports a limit violation only as an error,
  and says that it has a message only when it is done (or when bytes after the message were an
  error).
\<close>

theorem decoder_bounded:
  "\<exists>d. feeds Feed (new_FrameDecoder m) chunks = Some d
     \<and> length (fd_payload d) \<le> m
     \<and> (fd_limit_exceeded d \<longrightarrow> fd_state d = kError)
     \<and> (fd_has_message d \<longrightarrow> fd_state d = kDone \<or> fd_state d = kError)
     \<and> (fd_state d = kDone \<longrightarrow> fd_has_message d)"
proof -
  obtain d where "feeds Feed (new_FrameDecoder m) chunks = Some d" "decoder_ok d"
    using frame_decoder.feeds_returns [OF decoder_ok_new] by blast
  moreover have "fd_max_message_size d = m"
    using feeds_max_message_size [OF calculation(1)] by (simp add: new_FrameDecoder_def)
  ultimately show ?thesis
    by (auto simp: decoder_ok_def split: DecState.splits)
qed

theorem decoder_bounded_witness:
  "\<exists>d. feeds Feed (new_FrameDecoder 3) [[CHR 0x01, CHR 0x00, CHR 0x00], [CHR 0x00, CHR 0x09, CHR ''x'']] = Some d
     \<and> length (fd_payload d) \<le> 3"
  using decoder_bounded [of 3 "[[CHR 0x01, CHR 0x00, CHR 0x00], [CHR 0x00, CHR 0x09, CHR ''x'']]"] by blast

end
