(* ===== verification/Compression.thy ===== *)
theory Compression
  imports Framing
begin

text \<open>
  \<open>src/protocol/compression.h\<close> and \<open>compression.cc\<close>: the registry of message encodings and the
  gzip codec around zlib.

  The build flag \<open>RPCPIO_ENABLE_GZIP\<close> and the zlib functions are the fields of the record
  \<open>Zlib\<close>, an argument of the definitions that use them: a stream state \<open>'z\<close>, and for each call
  the input offered and the output room; the call returns its code, the new stream state, the
  input it left and the bytes it wrote. What zlib documents of \<open>inflate\<close> is \<open>inflate_contract\<close>.

  \<open>Decompress\<close> returns \<open>None\<close> when its loop never ends, \<open>Some None\<close> for \<open>false\<close> and
  \<open>Some (Some out)\<close> for \<open>true\<close>.
\<close>

datatype Encoding = kIdentity | kGzip

datatype zret = Z_OK | Z_STREAM_END | Z_BUF_ERROR | Z_FAIL

record 'z Zlib =
  gzip_enabled :: bool
  inflateInit2 :: "'z option"
  inflate :: "'z \<Rightarrow> bytes \<Rightarrow> nat \<Rightarrow> zret \<times> 'z \<times> bytes \<times> bytes"
  deflateInit2 :: "'z option"
  deflate :: "'z \<Rightarrow> bytes \<Rightarrow> nat \<Rightarrow> zret \<times> 'z \<times> bytes \<times> bytes"

section \<open>The registry\<close>

definition GzipAvailable :: "'z Zlib \<Rightarrow> bool" where
  "GzipAvailable zl = gzip_enabled zl"

definition ParseEncoding :: "'z Zlib \<Rightarrow> string \<Rightarrow> Encoding option" where
  "ParseEncoding zl s =
     (if s = ''identity'' then Some kIdentity
      else if gzip_enabled zl \<and> s = ''gzip'' then Some kGzip
      else None)"

fun EncodingName :: "Encoding \<Rightarrow> string" where
  "EncodingName kIdentity = ''identity''"
| "EncodingName kGzip = ''gzip''"

definition AcceptEncodingValue :: "'z Zlib \<Rightarrow> string" where
  "AcceptEncodingValue zl = ''identity'' @ (if gzip_enabled zl then '',gzip'' else [])"

section \<open>Buffers\<close>

text \<open>\<open>static_cast<uInt>\<close> of a size, and \<open>resize\<close> of a string or vector.\<close>

definition uInt :: "nat \<Rightarrow> nat" where
  "uInt n = unat (of_nat n :: u32)"

definition resize :: "nat \<Rightarrow> bytes \<Rightarrow> bytes" where
  "resize n xs = take n xs @ replicate (n - length xs) (CHR 0x00)"

lemma length_resize [simp]: "length (resize n xs) = n"
  by (simp add: resize_def)

lemma resize_0 [simp]: "resize 0 xs = []"
  by (simp add: resize_def)

lemma uInt_0 [simp]: "uInt 0 = 0"
  by (simp add: uInt_def)

lemma uInt_le: "uInt n \<le> n"
  by (simp add: uInt_def unsigned_of_nat take_bit_eq_mod)

section \<open>Compress and Decompress\<close>

definition Compress :: "'z Zlib \<Rightarrow> Encoding \<Rightarrow> bytes \<Rightarrow> bytes option" where
  "Compress zl enc src =
     (if enc = kIdentity then Some src
      else if gzip_enabled zl \<and> enc = kGzip then
        (case deflateInit2 zl of
           None \<Rightarrow> None
         | Some zs \<Rightarrow>
             let out = resize (length src + 64) [];
                 (ret, zs1, inp1, w1) = deflate zl zs (take (uInt (length src)) src) (uInt (length out));
                 out1 = memcpy_at out 0 w1;
                 total1 = length w1;
                 (ret2, out2, total2) =
                   (if ret = Z_BUF_ERROR then
                      let out' = resize (length out1 * 2) out1;
                          (ret', zs2, inp2, w2) = deflate zl zs1 inp1 (uInt (length out' - total1))
                      in (ret', memcpy_at out' total1 w2, total1 + length w2)
                    else (ret, out1, total1))
             in if ret2 \<noteq> Z_STREAM_END then None else Some (resize total2 out2))
      else None)"

partial_function (option) inflate_loop ::
  "'z Zlib \<Rightarrow> nat \<Rightarrow> 'z \<Rightarrow> bytes \<Rightarrow> bytes \<Rightarrow> nat \<Rightarrow> bytes option option" where
  "inflate_loop zl max_output_size zs inp out total_out =
     (let avail_out = uInt (length out - total_out)
      in if avail_out = 0 then
           let new_size = length out * 2
           in if new_size > max_output_size then Some None
              else inflate_loop zl max_output_size zs inp (resize new_size out) total_out
         else
           let (ret, zs', inp', w) = inflate zl zs inp avail_out;
               out' = memcpy_at out total_out w;
               total' = total_out + length w
           in if ret = Z_OK then inflate_loop zl max_output_size zs' inp' out' total'
              else if ret \<noteq> Z_STREAM_END then Some None
              else Some (Some (resize total' out')))"

definition Decompress :: "'z Zlib \<Rightarrow> Encoding \<Rightarrow> bytes \<Rightarrow> nat \<Rightarrow> bytes option option" where
  "Decompress zl enc src max_output_size =
     (if enc = kIdentity then
        (if length src > max_output_size then Some None else Some (Some src))
      else if gzip_enabled zl \<and> enc = kGzip then
        (case inflateInit2 zl of
           None \<Rightarrow> Some None
         | Some zs \<Rightarrow>
             inflate_loop zl max_output_size zs (take (uInt (length src)) src)
               (resize (min (length src * 4) max_output_size) []) 0)
      else Some None)"

section \<open>What zlib promises\<close>

text \<open>
  From the description of \<open>inflate\<close> in \<open>zlib.h\<close>: it writes no more than \<open>avail_out\<close> bytes, it
  never gives input back, and it returns \<open>Z_OK\<close> only "if some progress has been made (more input
  processed or more output produced)".
\<close>

definition inflate_contract :: "'z Zlib \<Rightarrow> bool" where
  "inflate_contract zl \<longleftrightarrow>
     (\<forall>zs inp room ret zs' inp' w. inflate zl zs inp room = (ret, zs', inp', w) \<longrightarrow>
        length w \<le> room \<and> length inp' \<le> length inp
        \<and> (ret = Z_OK \<longrightarrow> length inp' < length inp \<or> w \<noteq> []))"

text \<open>The sizes the output buffer takes: the first one, doubled while it stays below the limit.\<close>

definition buffer_size :: "nat \<Rightarrow> nat \<Rightarrow> nat \<Rightarrow> bool" where
  "buffer_size n0 limit n \<longleftrightarrow> n \<le> limit \<and> (\<exists>k. n = n0 * 2 ^ k)"

lemma buffer_size_double: "buffer_size n0 m n \<Longrightarrow> n * 2 \<le> m \<Longrightarrow> buffer_size n0 m (n * 2)"
proof -
  assume "buffer_size n0 m n" "n * 2 \<le> m"
  then obtain k where "n = n0 * 2 ^ k" "n * 2 \<le> m" by (auto simp: buffer_size_def)
  then show ?thesis
    by (auto simp: buffer_size_def intro: exI [of _ "Suc k"])
qed

lemma inflate_loop_returns:
  assumes "inflate_contract zl" "got \<le> length out" "length out \<le> m" "0 < length out"
    "buffer_size n0 m (length out)"
  shows "\<exists>r. inflate_loop zl m zs inp out got = Some r
    \<and> (\<forall>res. r = Some res \<longrightarrow> (\<exists>n. buffer_size n0 m n \<and> length res \<le> n))"
  using assms(2-5)
proof (induction "(length inp + (m - got), m - length out)" arbitrary: zs inp out got
    rule: wf_induct_rule [OF wf_lex_prod [OF wf_less_than wf_less_than]])
  case 1
  let ?room = "uInt (length out - got)"
  show ?case
  proof (cases "?room = 0")
    case True
    show ?thesis
    proof (cases "length out * 2 \<le> m")
      case le: True
      have "\<exists>r. inflate_loop zl m zs inp (resize (length out * 2) out) got = Some r
          \<and> (\<forall>res. r = Some res \<longrightarrow> (\<exists>n. buffer_size n0 m n \<and> length res \<le> n))"
        using "1.prems" le buffer_size_double [OF "1.prems"(4) le]
        by (intro "1.hyps") (auto simp flip: length_greater_0_conv)
      then show ?thesis
        using True le by (subst inflate_loop.simps) (simp add: Let_def)
    next
      case False
      then show ?thesis
        using True by (subst inflate_loop.simps) (simp add: Let_def)
    qed
  next
    case room: False
    obtain ret zs' inp' w where inf: "inflate zl zs inp ?room = (ret, zs', inp', w)"
      by (cases "inflate zl zs inp ?room") auto
    then have c: "length w \<le> ?room" "length inp' \<le> length inp"
        "ret = Z_OK \<Longrightarrow> length inp' < length inp \<or> w \<noteq> []"
      using assms(1) by (auto simp: inflate_contract_def)
    then have fit: "got + length w \<le> length out"
      using uInt_le [of "length out - got"] "1.prems"(1) by linarith
    then have len: "length (memcpy_at out got w) = length out"
      by (rule length_memcpy_at)
    show ?thesis
    proof (cases "ret = Z_OK")
      case ok: True
      have "length inp' + (m - (got + length w)) < length inp + (m - got)"
        using c(2) c(3) [OF ok] fit "1.prems"(2) by (cases w) auto
      then have "\<exists>r. inflate_loop zl m zs' inp' (memcpy_at out got w) (got + length w) = Some r
          \<and> (\<forall>res. r = Some res \<longrightarrow> (\<exists>n. buffer_size n0 m n \<and> length res \<le> n))"
        using "1.prems" fit len by (intro "1.hyps") auto
      then show ?thesis
        using room inf ok by (subst inflate_loop.simps) (simp add: Let_def)
    next
      case False
      then show ?thesis
        using room inf fit "1.prems"(4)
        by (subst inflate_loop.simps) (auto simp: Let_def)
    qed
  qed
qed

text \<open>An empty output buffer stays empty when it is doubled.\<close>

lemma inflate_loop_not_empty:
  assumes "inflate_loop zl m zs inp out got = Some r"
  shows "out = [] \<and> got = 0 \<longrightarrow> False"
  apply (rule inflate_loop.raw_induct [OF _ assms])
  subgoal premises p for f zl m zs inp out got r
  proof (rule impI)
    assume "out = [] \<and> got = 0"
    then have "f zl m zs inp [] 0 = Some r" using p(2) by (simp add: Let_def)
    from p(1) [OF this] show False by simp
  qed
  done

lemma inflate_loop_empty: "inflate_loop zl m zs inp [] 0 = None"
  using inflate_loop_not_empty [of zl m zs inp "[]" 0] by (cases "inflate_loop zl m zs inp [] 0") auto

lemma Decompress_gzip:
  "gzip_enabled zl \<Longrightarrow> inflateInit2 zl = Some zs \<Longrightarrow>
     Decompress zl kGzip src m = inflate_loop zl m zs (take (uInt (length src)) src)
       (resize (min (length src * 4) m) []) 0"
  by (simp add: Decompress_def)

lemma Decompress_total:
  assumes "inflate_contract zl" "src \<noteq> []" "0 < m"
  shows "\<exists>r. Decompress zl enc src m = Some r
    \<and> (\<forall>res. r = Some res \<longrightarrow> length res \<le> m
         \<and> (enc = kGzip \<longrightarrow> (\<exists>n. buffer_size (min (length src * 4) m) m n \<and> length res \<le> n)))"
proof (cases "enc = kGzip \<and> gzip_enabled zl \<and> inflateInit2 zl \<noteq> None")
  case False
  then show ?thesis by (cases enc) (auto simp: Decompress_def)
next
  case True
  then obtain zs where zs: "inflateInit2 zl = Some zs" by blast
  let ?n0 = "min (length src * 4) m"
  have "buffer_size ?n0 m ?n0"
    unfolding buffer_size_def by (auto intro: exI [of _ "0::nat"])
  moreover have "0 < ?n0" using assms(2,3) by simp
  ultimately have "\<exists>r. Decompress zl kGzip src m = Some r
      \<and> (\<forall>res. r = Some res \<longrightarrow> (\<exists>n. buffer_size ?n0 m n \<and> length res \<le> n))"
    using True Decompress_gzip [OF _ zs, of src m]
      inflate_loop_returns [OF assms(1), of 0 "resize ?n0 []" m ?n0 zs "take (uInt (length src)) src"]
    by (simp only: length_resize)
  then show ?thesis
    using True by (fastforce simp: buffer_size_def)
qed

text \<open>A codec that copies its input: it satisfies the contract, so the hypotheses can hold.\<close>

definition copy_zlib :: "unit Zlib" where
  "copy_zlib = \<lparr>gzip_enabled = True, inflateInit2 = Some (),
     inflate = (\<lambda>zs inp room. (if length inp \<le> room then Z_STREAM_END else if room = 0 then Z_BUF_ERROR
       else Z_OK, zs, drop room inp, take room inp)),
     deflateInit2 = Some (),
     deflate = (\<lambda>zs inp room. (if length inp \<le> room then Z_STREAM_END else Z_BUF_ERROR, zs,
       drop room inp, take room inp))\<rparr>"

lemma copy_zlib_contract: "inflate_contract copy_zlib"
  by (auto simp: inflate_contract_def copy_zlib_def split: if_splits)

lemma copy_zlib_ab: "Decompress copy_zlib kGzip ''ab'' 100 = Some (Some ''ab'')"
  by (simp add: Decompress_def copy_zlib_def uInt_def)
    (subst inflate_loop.simps, simp add: Let_def uInt_def resize_def memcpy_at_def unsigned_of_nat take_bit_eq_mod)

section \<open>Properties\<close>

text \<open>
  C29: With a zlib that keeps its contract, \<open>Decompress\<close> of a non-empty message under a positive
  limit always returns, and an accepted output is never longer than the limit, whatever the
  input claims (protection against decompression bombs).
\<close>

theorem Decompress_bounded:
  assumes "inflate_contract zl" "src \<noteq> []" "0 < max_output_size"
  shows "\<exists>r. Decompress zl enc src max_output_size = Some r
    \<and> (case r of None \<Rightarrow> True | Some out \<Rightarrow> length out \<le> max_output_size)"
  using Decompress_total [OF assms, of enc] by (auto split: option.splits)

theorem Decompress_bounded_witness:
  "\<exists>r. Decompress copy_zlib kGzip ''ab'' 100 = Some r
    \<and> (case r of None \<Rightarrow> True | Some out \<Rightarrow> length out \<le> 100)"
  using Decompress_bounded [OF copy_zlib_contract, of "''ab''" 100 kGzip] by simp

text \<open>
  The output buffer of the gzip branch is only ever doubled, so an accepted output fits a
  size \<open>min (4 * |src|) limit * 2 ^ k\<close> that is itself within the limit: a message between the
  largest such size and the limit is refused although the limit allows it.
\<close>

theorem Decompress_capacity:
  assumes "inflate_contract zl" "src \<noteq> []" "0 < max_output_size"
    and "Decompress zl kGzip src max_output_size = Some (Some out)"
  shows "\<exists>k. length out \<le> min (length src * 4) max_output_size * 2 ^ k
    \<and> min (length src * 4) max_output_size * 2 ^ k \<le> max_output_size"
  using Decompress_total [OF assms(1-3), of kGzip] assms(4) by (auto simp: buffer_size_def)

theorem Decompress_capacity_witness:
  "\<exists>k. length ''ab'' \<le> min (length ''ab'' * 4) 100 * 2 ^ k \<and> min (length ''ab'' * 4) 100 * 2 ^ k \<le> 100"
  using Decompress_capacity [OF copy_zlib_contract, of "''ab''" 100, OF _ _ copy_zlib_ab] by simp

text \<open>
  The loop of the gzip branch does not end on an empty message: the output buffer starts at
  size 0, \<open>avail_out\<close> is 0, and doubling 0 is 0, so \<open>inflate\<close> is never called. The same happens
  under a limit of 0.
\<close>

theorem Decompress_empty_hangs:
  assumes "gzip_enabled zl" "inflateInit2 zl \<noteq> None" "src = [] \<or> max_output_size = 0"
  shows "Decompress zl kGzip src max_output_size = None"
proof -
  obtain zs where "inflateInit2 zl = Some zs" using assms(2) by blast
  moreover have "resize (min (length src * 4) max_output_size) [] = []"
    using assms(3) by (auto simp: resize_def)
  ultimately show ?thesis
    using assms(1) by (simp add: Decompress_gzip inflate_loop_empty)
qed

theorem Decompress_empty_hangs_witness: "Decompress copy_zlib kGzip [] 4194304 = None"
  using Decompress_empty_hangs [of copy_zlib "[]" 4194304] by (simp add: copy_zlib_def)

end
