(* ===== verification/MetadataCodec.thy ===== *)
theory MetadataCodec
  imports Metadata
begin

text \<open>
  \<open>src/protocol/metadata_codec.h\<close> and \<open>metadata_codec.cc\<close>: between nghttp2-asio's
  \<open>header_map\<close> (a \<open>std::multimap\<close> from names to a value with a \<open>sensitive\<close> flag) and
  \<open>MetadataMap\<close>, and the \<open>grpc-status\<close> trailers.

  Both \<open>ExtractTrailerStatus\<close> overloads are modelled; a map passed by reference is returned.
\<close>

record header_value =
  hv_value :: string
  hv_sensitive :: bool

type_synonym header_map = "(string \<times> header_value) list"

definition plain_value :: "string \<Rightarrow> header_value" where
  "plain_value v = \<lparr>hv_value = v, hv_sensitive = False\<rparr>"

lemma hv_value_plain [simp]: "hv_value (plain_value v) = v"
  by (simp add: plain_value_def)

section \<open>Application metadata\<close>

definition IsHttp2Pseudo :: "string \<Rightarrow> bool" where
  "IsHttp2Pseudo k \<longleftrightarrow> k \<noteq> [] \<and> hd k = CHR '':''"

definition kSkip :: "string list" where
  "kSkip = [''grpc-status'', ''grpc-message'', ''grpc-status-details-bin'', ''grpc-encoding'',
     ''grpc-accept-encoding'', ''grpc-timeout'', ''content-type'', ''te'']"

definition IsGrpcInternal :: "string \<Rightarrow> bool" where
  "IsGrpcInternal k \<longleftrightarrow> k \<in> set kSkip"

fun headers_loop :: "nat \<Rightarrow> nat \<Rightarrow> header_map \<Rightarrow> MetadataMap \<Rightarrow> Status \<times> MetadataMap" where
  "headers_loop max_size got [] out = (status_ok, out)"
| "headers_loop max_size got ((name, hv) # rest) out =
     (if IsHttp2Pseudo name \<or> IsGrpcInternal name \<or> \<not> IsValidKey name
      then headers_loop max_size got rest out
      else
        let v = (if IsBinaryKey name then DecodeBase64 (hv_value hv) else hv_value hv);
            got' = got + (length name + length v)
        in if got' > max_size
           then (mk_status RESOURCE_EXHAUSTED ''metadata size exceeds limit'', out)
           else headers_loop max_size got' rest (mm_emplace name v out))"

definition Nghttp2HeadersToMetadata :: "header_map \<Rightarrow> MetadataMap \<Rightarrow> nat \<Rightarrow> Status \<times> MetadataMap" where
  "Nghttp2HeadersToMetadata headers out max_size = headers_loop max_size (TotalSize out) headers out"

fun MetadataToNghttp2Headers :: "MetadataMap \<Rightarrow> header_map \<Rightarrow> header_map" where
  "MetadataToNghttp2Headers [] out = out"
| "MetadataToNghttp2Headers ((key, v) # rest) out =
     (if \<not> IsValidKey key \<or> IsReservedKey key then MetadataToNghttp2Headers rest out
      else MetadataToNghttp2Headers rest
        (mm_emplace key (plain_value (if IsBinaryKey key then EncodeBase64 v else v)) out))"

section \<open>Status trailers\<close>

text \<open>The loop of \<open>ParseGrpcStatus\<close>: \<open>None\<close> is the early \<open>return UNKNOWN\<close>.\<close>

fun status_loop :: "int \<Rightarrow> string \<Rightarrow> int option" where
  "status_loop code [] = Some code"
| "status_loop code (c # cs) =
     (if \<not> is_digit c then None
      else let code' = code * 10 + int (digit_val c)
           in if code' > 16 then None else status_loop code' cs)"

definition ParseGrpcStatus :: "string \<Rightarrow> StatusCode" where
  "ParseGrpcStatus value =
     (let negative = (value \<noteq> [] \<and> hd value = CHR ''-'');
          digits = (if negative then tl value else value)
      in case status_loop 0 digits of
           None \<Rightarrow> UNKNOWN
         | Some code \<Rightarrow> if negative then UNKNOWN else StatusCodeFromInt code)"

definition ParseGrpcMessage :: "string \<Rightarrow> string" where
  "ParseGrpcMessage value = PercentDecode value"

definition ParseGrpcStatusDetails :: "string \<Rightarrow> string" where
  "ParseGrpcStatusDetails value = DecodeBase64 value"

definition ExtractTrailerStatus :: "header_map \<Rightarrow> Status" where
  "ExtractTrailerStatus trailers =
     (case mm_find trailers ''grpc-status'' of
        None \<Rightarrow> mk_status UNKNOWN ''missing grpc-status trailer''
      | Some hv \<Rightarrow>
          \<lparr>status_code = ParseGrpcStatus (hv_value hv),
           status_message = (case mm_find trailers ''grpc-message'' of
             None \<Rightarrow> [] | Some m \<Rightarrow> ParseGrpcMessage (hv_value m)),
           status_details = (case mm_find trailers ''grpc-status-details-bin'' of
             None \<Rightarrow> [] | Some d \<Rightarrow> ParseGrpcStatusDetails (hv_value d))\<rparr>)"

definition ExtractTrailerStatus_md :: "MetadataMap \<Rightarrow> Status" where
  "ExtractTrailerStatus_md trailers =
     (let find = (\<lambda>k. case mm_find trailers k of None \<Rightarrow> [] | Some v \<Rightarrow> v);
          status_str = find ''grpc-status''
      in if status_str = [] then mk_status UNKNOWN ''missing grpc-status trailer''
         else \<lparr>status_code = ParseGrpcStatus status_str,
               status_message = ParseGrpcMessage (find ''grpc-message''),
               status_details = ParseGrpcStatusDetails (find ''grpc-status-details-bin'')\<rparr>)"

definition BuildTrailers :: "Status \<Rightarrow> MetadataMap \<Rightarrow> header_map \<Rightarrow> header_map" where
  "BuildTrailers status trailing_metadata out =
     (let out1 = mm_emplace ''grpc-status'' (plain_value (int_to_string (code_int (status_code status)))) out;
          out2 = (if status_message status \<noteq> []
                  then mm_emplace ''grpc-message'' (plain_value (PercentEncode (status_message status))) out1
                  else out1);
          out3 = (if status_details status \<noteq> []
                  then mm_emplace ''grpc-status-details-bin'' (plain_value (EncodeBase64 (status_details status))) out2
                  else out2)
      in MetadataToNghttp2Headers trailing_metadata out3)"

section \<open>Sending and receiving metadata\<close>

definition sendable :: "string \<Rightarrow> bool" where
  "sendable k \<longleftrightarrow> IsValidKey k \<and> \<not> IsReservedKey k"

definition wire_value :: "string \<Rightarrow> string \<Rightarrow> string" where
  "wire_value k v = (if IsBinaryKey k then EncodeBase64 v else v)"

definition app_value :: "string \<Rightarrow> string \<Rightarrow> string" where
  "app_value k v = (if IsBinaryKey k then DecodeBase64 v else v)"

text \<open>The keys that reach the application.\<close>

definition visible :: "string \<Rightarrow> bool" where
  "visible k \<longleftrightarrow> \<not> IsHttp2Pseudo k \<and> \<not> IsGrpcInternal k \<and> IsValidKey k"

lemma kSkip_reserved: "k \<in> set kSkip \<Longrightarrow> IsReservedKey k"
  by (simp add: kSkip_def, elim disjE) (simp_all add: IsReservedKey_def)

lemma sendable_visible: "sendable k \<Longrightarrow> visible k"
  using kSkip_reserved [of k]
  by (cases k) (auto simp: sendable_def visible_def IsGrpcInternal_def IsHttp2Pseudo_def IsReservedKey_def)

text \<open>Both directions are a filter and a map over the entries, followed by insertions.\<close>

abbreviation mm_insert_all :: "(string \<times> 'v) list \<Rightarrow> 'v multimap \<Rightarrow> 'v multimap" where
  "mm_insert_all es m \<equiv> fold (\<lambda>(k, v). mm_emplace k v) es m"

lemma MetadataToNghttp2Headers_fold:
  "MetadataToNghttp2Headers md out =
     mm_insert_all (map (\<lambda>(k, v). (k, plain_value (wire_value k v))) (filter (sendable \<circ> fst) md)) out"
  by (induction md out rule: MetadataToNghttp2Headers.induct)
    (auto simp: sendable_def wire_value_def)

definition received :: "header_map \<Rightarrow> MetadataMap" where
  "received headers = map (\<lambda>(k, hv). (k, app_value k (hv_value hv))) (filter (visible \<circ> fst) headers)"

lemma received_Cons:
  "received ((k, hv) # rest) = (if visible k then (k, app_value k (hv_value hv)) # received rest else received rest)"
  by (simp add: received_def)

lemma headers_loop_Cons:
  "headers_loop m got ((k, hv) # rest) out =
     (if visible k then
        if got + (length k + length (app_value k (hv_value hv))) > m
        then (mk_status RESOURCE_EXHAUSTED ''metadata size exceeds limit'', out)
        else headers_loop m (got + (length k + length (app_value k (hv_value hv)))) rest
          (mm_emplace k (app_value k (hv_value hv)) out)
      else headers_loop m got rest out)"
  by (auto simp: visible_def app_value_def Let_def)

lemma TotalSize_Cons [simp]: "TotalSize ((k, v) # m) = length k + length v + TotalSize m"
  by (simp add: TotalSize_def)

lemma headers_loop_ok:
  "got + TotalSize (received headers) \<le> m \<Longrightarrow>
     headers_loop m got headers out = (status_ok, mm_insert_all (received headers) out)"
  by (induction headers arbitrary: got out)
    (auto simp: received_def headers_loop_Cons simp del: headers_loop.simps(2))

lemma headers_loop_too_big:
  "got + TotalSize (received headers) > m \<Longrightarrow> got \<le> m \<Longrightarrow>
     fst (headers_loop m got headers out) = mk_status RESOURCE_EXHAUSTED ''metadata size exceeds limit''"
  by (induction headers arbitrary: got out)
    (auto simp: received_def headers_loop_Cons simp del: headers_loop.simps(2))

lemma headers_loop_size:
  "TotalSize out \<le> m \<Longrightarrow> TotalSize (snd (headers_loop m (TotalSize out) headers out)) \<le> m"
proof (induction headers arbitrary: out)
  case (Cons h headers)
  obtain k hv where h: "h = (k, hv)" by (cases h)
  let ?out = "mm_emplace k (app_value k (hv_value hv)) out"
  have "TotalSize out + (length k + length (app_value k (hv_value hv))) = TotalSize ?out"
    by simp
  then show ?case
    using Cons.prems Cons.IH [of ?out] Cons.IH [of out]
    by (auto simp add: h headers_loop_Cons simp del: headers_loop.simps(2) TotalSize_emplace)
qed simp

text \<open>Inserting the entries of a sorted multimap one after the other rebuilds it.\<close>

lemma mm_insert_all_sorted: "mm_sorted es \<Longrightarrow> mm_insert_all es [] = es"
  by (rule mm_eqI) (simp_all add: mm.invar_fold mm.vals_fold, simp add: mm_values_def)

lemma mm_sorted_filter: "mm_sorted m \<Longrightarrow> mm_sorted (filter P m)"
  unfolding mm_sorted_def by (induction m) auto

lemma mm_sorted_map_values: "mm_sorted (map (\<lambda>(k, v). (k, f k v)) m) = mm_sorted m"
  by (simp add: mm_sorted_def case_prod_unfold comp_def)

lemma app_wire_value [simp]: "app_value k (wire_value k v) = v"
  by (simp add: app_value_def wire_value_def base64.dec_enc)

lemma received_wire:
  "received (map (\<lambda>(k, v). (k, plain_value (wire_value k v))) (filter (sendable \<circ> fst) md))
     = filter (sendable \<circ> fst) md"
  by (induction md) (auto simp: received_def sendable_visible)

lemma MetadataToNghttp2Headers_sorted:
  "mm_sorted md \<Longrightarrow> MetadataToNghttp2Headers md [] =
     map (\<lambda>(k, v). (k, plain_value (wire_value k v))) (filter (sendable \<circ> fst) md)"
  by (simp add: MetadataToNghttp2Headers_fold mm_insert_all_sorted mm_sorted_filter mm_sorted_map_values)

lemma find_reserved:
  assumes "mm_sorted out" "IsReservedKey k"
  shows "mm_find (MetadataToNghttp2Headers md out) k = mm_find out k"
proof -
  have "filter (\<lambda>e. fst e = k) (map (\<lambda>(k, v). (k, plain_value (wire_value k v))) (filter (sendable \<circ> fst) md)) = []"
    using assms(2) by (auto simp: filter_empty_conv sendable_def)
  then have "mm_values (MetadataToNghttp2Headers md out) k = mm_values out k"
    unfolding MetadataToNghttp2Headers_fold mm.vals_fold [OF assms(1)] by simp
  then show ?thesis by (simp add: mm_find_values)
qed

lemma reserved_status_keys [simp]:
  "IsReservedKey ''grpc-status''" "IsReservedKey ''grpc-message''" "IsReservedKey ''grpc-status-details-bin''"
  by (simp_all add: IsReservedKey_def)

section \<open>Parsing a status code\<close>

lemma decimal_value_mono: "v \<le> decimal_value v cs"
proof (induction cs arbitrary: v)
  case (Cons c cs)
  have "v \<le> v * 10 + digit_val c" by simp
  also have "\<dots> \<le> decimal_value (v * 10 + digit_val c) cs" by (rule Cons.IH)
  finally show ?case by simp
qed simp

lemma status_loop_spec:
  "v \<le> 16 \<Longrightarrow> status_loop (int v) cs =
     (if list_all is_digit cs \<and> decimal_value v cs \<le> 16 then Some (int (decimal_value v cs)) else None)"
proof (induction cs arbitrary: v)
  case (Cons c cs)
  let ?w = "v * 10 + digit_val c"
  have w: "int v * 10 + int (digit_val c) = int ?w" by simp
  show ?case
  proof (cases "?w \<le> 16")
    case True
    then show ?thesis using Cons.IH [of ?w] by (simp add: w del: of_nat_add of_nat_mult)
  next
    case False
    then show ?thesis
      using decimal_value_mono [of ?w cs] by (simp add: w del: of_nat_add of_nat_mult)
  qed
qed simp

lemma ParseGrpcStatus_digits:
  "ParseGrpcStatus s = (if list_all is_digit s \<and> decimal_value 0 s \<le> 16
     then StatusCodeFromInt (int (decimal_value 0 s)) else UNKNOWN)"
proof (cases "s \<noteq> [] \<and> hd s = CHR ''-''")
  case True
  then have "\<not> list_all is_digit s" by (cases s) (auto simp: is_digit_def)
  then show ?thesis using True by (simp add: ParseGrpcStatus_def Let_def split: option.splits)
next
  case False
  have "status_loop 0 s = status_loop (int 0) s" by simp
  then show ?thesis
    unfolding ParseGrpcStatus_def Let_def using False status_loop_spec [of 0 s] by auto
qed

lemma ParseGrpcStatus_code [simp]: "ParseGrpcStatus (int_to_string (code_int c)) = c"
proof -
  have range: "0 \<le> code_int c" "code_int c \<le> 16" by (cases c; simp)+
  then have "\<not> code_int c < 0" by linarith
  then have "list_all is_digit (int_to_string (code_int c))"
    "decimal_value 0 (int_to_string (code_int c)) = nat (code_int c)"
    by (simp_all add: int_to_string_def list_all_iff to_string_is_digit not_less [symmetric])
  then show ?thesis
    using range by (simp add: ParseGrpcStatus_digits) (cases c; simp add: StatusCodeFromInt_def IsKnownStatusCode_def all_codes_def)
qed

section \<open>Status trailers as they are built\<close>

lemma status_keys_distinct [simp]:
  "''grpc-status'' \<noteq> ''grpc-message''" "''grpc-status'' \<noteq> ''grpc-status-details-bin''"
  "''grpc-message'' \<noteq> ''grpc-status-details-bin''" "''grpc-message'' \<noteq> ''grpc-status''"
  "''grpc-status-details-bin'' \<noteq> ''grpc-status''" "''grpc-status-details-bin'' \<noteq> ''grpc-message''"
  by simp_all

lemma BuildTrailers_find:
  assumes "mm_sorted out"
  shows "mm_find out ''grpc-status'' = None \<Longrightarrow> mm_find (BuildTrailers st md out) ''grpc-status''
      = Some (plain_value (int_to_string (code_int (status_code st))))"
    and "mm_find out ''grpc-message'' = None \<Longrightarrow> mm_find (BuildTrailers st md out) ''grpc-message''
      = (if status_message st = [] then None else Some (plain_value (PercentEncode (status_message st))))"
    and "mm_find out ''grpc-status-details-bin'' = None \<Longrightarrow>
      mm_find (BuildTrailers st md out) ''grpc-status-details-bin''
      = (if status_details st = [] then None else Some (plain_value (EncodeBase64 (status_details st))))"
    and "IsReservedKey k \<Longrightarrow> k \<notin> {''grpc-status'', ''grpc-message'', ''grpc-status-details-bin''} \<Longrightarrow>
      mm_find (BuildTrailers st md out) k = mm_find out k"
  unfolding BuildTrailers_def Let_def using assms
  by (simp_all add: find_reserved mm_find_emplace del: mm_emplace.simps) blast

lemma Extract_BuildTrailers:
  assumes "mm_sorted out" "mm_find out ''grpc-status'' = None" "mm_find out ''grpc-message'' = None"
    "mm_find out ''grpc-status-details-bin'' = None"
  shows "ExtractTrailerStatus (BuildTrailers st md out) = st"
  using BuildTrailers_find(1-3) [OF assms(1)] assms(2-4)
  by (simp add: ExtractTrailerStatus_def ParseGrpcMessage_def ParseGrpcStatusDetails_def
      percent.dec_enc base64.dec_enc)

section \<open>Properties\<close>

text \<open>
  C27: The status a server puts into its trailers is the status the client reads out of them:
  code, message and details survive \<open>BuildTrailers\<close> followed by \<open>ExtractTrailerStatus\<close> for every
  status, whatever application trailing metadata is sent with it (an application entry can not
  shadow the protocol's own keys).
\<close>

theorem trailers_roundtrip:
  "ExtractTrailerStatus (BuildTrailers status trailing_metadata []) = status"
  by (rule Extract_BuildTrailers) simp_all

text \<open>
  Application metadata survives the wire. The entries of a \<open>MetadataMap\<close> whose keys the
  sender lets through arrive in the same order with the same values (binary ones through base64)
  when their total size is within the receiver's limit; above the limit the receiver reports
  \<open>RESOURCE_EXHAUSTED\<close>.
\<close>

theorem metadata_roundtrip:
  assumes "mm_sorted md" and "sent = filter (\<lambda>(k, v). IsValidKey k \<and> \<not> IsReservedKey k) md"
  shows "(TotalSize sent \<le> max_size \<longrightarrow>
      Nghttp2HeadersToMetadata (MetadataToNghttp2Headers md []) [] max_size = (status_ok, sent))
    \<and> (max_size < TotalSize sent \<longrightarrow>
      fst (Nghttp2HeadersToMetadata (MetadataToNghttp2Headers md []) [] max_size)
        = mk_status RESOURCE_EXHAUSTED ''metadata size exceeds limit'')"
proof -
  have sent: "sent = filter (sendable \<circ> fst) md"
    by (simp add: assms(2) sendable_def case_prod_unfold comp_def)
  then have "received (MetadataToNghttp2Headers md []) = sent"
    by (simp add: MetadataToNghttp2Headers_sorted [OF assms(1)] received_wire)
  moreover have "mm_insert_all sent [] = sent"
    by (simp add: sent assms(1) mm_insert_all_sorted mm_sorted_filter)
  ultimately show ?thesis
    by (simp add: Nghttp2HeadersToMetadata_def headers_loop_ok headers_loop_too_big)
qed

theorem metadata_roundtrip_witness:
  "Nghttp2HeadersToMetadata
     (MetadataToNghttp2Headers [(''grpc-status'', ''0''), (''key-bin'', ''a b''), (''user'', ''joe'')] []) [] 8192
   = (status_ok, [(''key-bin'', ''a b''), (''user'', ''joe'')])"
  using metadata_roundtrip [of "[(''grpc-status'', ''0''), (''key-bin'', ''a b''), (''user'', ''joe'')]"
      "[(''key-bin'', ''a b''), (''user'', ''joe'')]" 8192]
  by (simp add: mm_sorted_def IsValidKey_def key_char_def IsReservedKey_def)

text \<open>
  Whatever headers a peer sends, the metadata handed to the application stays within the
  limit, and the conversion succeeds exactly when the visible entries fit it; then each key has
  the received values (binary ones decoded) in the order of the header map.
\<close>

theorem received_metadata:
  "TotalSize (snd (Nghttp2HeadersToMetadata headers [] max_size)) \<le> max_size
   \<and> (is_ok (fst (Nghttp2HeadersToMetadata headers [] max_size)) \<longleftrightarrow> TotalSize (received headers) \<le> max_size)
   \<and> (is_ok (fst (Nghttp2HeadersToMetadata headers [] max_size)) \<longrightarrow>
        mm_values (snd (Nghttp2HeadersToMetadata headers [] max_size)) k = mm_values (received headers) k)"
proof (cases "TotalSize (received headers) \<le> max_size")
  case True
  then show ?thesis
    using headers_loop_ok [of 0 headers max_size "[]"] headers_loop_size [of "[]" max_size headers]
    by (simp add: Nghttp2HeadersToMetadata_def mm.vals_fold) (simp add: mm_values_def)
next
  case False
  then show ?thesis
    using headers_loop_too_big [of max_size 0 headers "[]"] headers_loop_size [of "[]" max_size headers]
    by (simp add: Nghttp2HeadersToMetadata_def)
qed

theorem received_metadata_witness:
  "TotalSize (snd (Nghttp2HeadersToMetadata [('':status'', plain_value ''200''), (''user'', plain_value ''joe'')] [] 5)) \<le> 5"
  using received_metadata [of "[('':status'', plain_value ''200''), (''user'', plain_value ''joe'')]" 5] by blast

text \<open>
  \<open>ParseGrpcStatus\<close> reads exactly the decimal numbers 0 to 16 (leading zeros, and the empty
  string as 0, included) as their status code, and everything else as \<open>UNKNOWN\<close>.
\<close>

theorem ParseGrpcStatus_spec:
  "ParseGrpcStatus s = (if list_all is_digit s \<and> decimal_value 0 s \<le> 16
     then StatusCodeFromInt (int (decimal_value 0 s)) else UNKNOWN)"
  by (rule ParseGrpcStatus_digits)

text \<open>
  C40: The two overloads of \<open>ExtractTrailerStatus\<close> agree on every trailer map except one whose
  \<open>grpc-status\<close> is present with an empty value: there the \<open>header_map\<close> overload, the one the
  clients call, reports \<open>OK\<close> and the \<open>MetadataMap\<close> overload \<open>UNKNOWN\<close>.
\<close>

theorem ExtractTrailerStatus_overloads:
  "(ExtractTrailerStatus (map (\<lambda>(k, v). (k, plain_value v)) md) = ExtractTrailerStatus_md md
      \<longleftrightarrow> mm_find md ''grpc-status'' \<noteq> Some [])
   \<and> (mm_find md ''grpc-status'' = Some [] \<longrightarrow>
        status_code (ExtractTrailerStatus (map (\<lambda>(k, v). (k, plain_value v)) md)) = OK
        \<and> status_code (ExtractTrailerStatus_md md) = UNKNOWN)"
proof -
  have f: "mm_find (map (\<lambda>(k, v). (k, plain_value v)) md) k = map_option plain_value (mm_find md k)" for k
    unfolding mm_find_def by (induction md) auto
  have e: "ParseGrpcStatus [] = OK" "ParseGrpcMessage [] = []" "ParseGrpcStatusDetails [] = []"
    by (simp_all add: ParseGrpcStatus_def StatusCodeFromInt_def IsKnownStatusCode_def all_codes_def
        ParseGrpcMessage_def ParseGrpcStatusDetails_def DecodeBase64_def)
  show ?thesis
    by (auto simp: ExtractTrailerStatus_def ExtractTrailerStatus_md_def Let_def f e mk_status_def split: option.splits)
qed

theorem ExtractTrailerStatus_overloads_witness:
  "status_code (ExtractTrailerStatus [(''grpc-status'', plain_value [])]) = OK
   \<and> status_code (ExtractTrailerStatus_md [(''grpc-status'', [])]) = UNKNOWN"
  using ExtractTrailerStatus_overloads [of "[(''grpc-status'', [])]"] by (simp add: mm_find_def)

end
