(* ===== verification/StatusMap.thy ===== *)
theory StatusMap
  imports Status
begin

text \<open>
  \<open>src/protocol/status_map.h\<close> and \<open>status_map.cc\<close>: transport errors to status codes.

  The numeric values of the \<open>NGHTTP2_ERR_*\<close> macros and of Boost.Asio's error enumerators are
  defined by those libraries; they are the fields of \<open>NgErrs\<close> and \<open>AsioErrs\<close>. The HTTP/2 error
  codes are written out as numbers in the source and here.
\<close>

record NgErrs =
  NGHTTP2_ERR_REFUSED_STREAM :: int
  NGHTTP2_ERR_STREAM_CLOSED :: int
  NGHTTP2_ERR_FLOW_CONTROL :: int
  NGHTTP2_ERR_FRAME_SIZE_ERROR :: int
  NGHTTP2_ERR_PROTO :: int
  NGHTTP2_ERR_HTTP_HEADER :: int
  NGHTTP2_ERR_HTTP_MESSAGING :: int

definition NgHttp2ErrToStatusCode :: "NgErrs \<Rightarrow> int \<Rightarrow> StatusCode" where
  "NgHttp2ErrToStatusCode ng err =
     (if err = NGHTTP2_ERR_REFUSED_STREAM ng \<or> err = NGHTTP2_ERR_STREAM_CLOSED ng then UNAVAILABLE
      else if err = NGHTTP2_ERR_FLOW_CONTROL ng then RESOURCE_EXHAUSTED
      else if err = NGHTTP2_ERR_FRAME_SIZE_ERROR ng then RESOURCE_EXHAUSTED
      else if err = NGHTTP2_ERR_PROTO ng \<or> err = NGHTTP2_ERR_HTTP_HEADER ng
            \<or> err = NGHTTP2_ERR_HTTP_MESSAGING ng then INTERNAL
      else INTERNAL)"

definition Http2ErrorCodeToStatusCode :: "u32 \<Rightarrow> StatusCode" where
  "Http2ErrorCodeToStatusCode ec =
     (if ec = 0x0 then INTERNAL
      else if ec = 0x1 \<or> ec = 0x2 then INTERNAL
      else if ec = 0x3 \<or> ec = 0x4 then INTERNAL
      else if ec = 0x5 then INTERNAL
      else if ec = 0x6 then RESOURCE_EXHAUSTED
      else if ec = 0x7 then UNAVAILABLE
      else if ec = 0x8 then CANCELLED
      else if ec = 0x9 \<or> ec = 0xA \<or> ec = 0xB then RESOURCE_EXHAUSTED
      else if ec = 0xD then UNIMPLEMENTED
      else INTERNAL)"

definition TlsErrorToStatusCode :: "string \<Rightarrow> StatusCode" where
  "TlsErrorToStatusCode description = UNAVAILABLE"

record AsioErrs =
  ae_connection_refused :: int
  ae_connection_reset :: int
  ae_broken_pipe :: int
  ae_network_down :: int
  ae_network_reset :: int
  ae_network_unreachable :: int
  ae_timed_out :: int
  ae_operation_aborted :: int
  ae_eof :: int
  ae_host_not_found :: int
  ae_host_not_found_try_again :: int

definition AsioErrorToStatusCode :: "AsioErrs \<Rightarrow> int \<Rightarrow> bool \<Rightarrow> StatusCode" where
  "AsioErrorToStatusCode ae ec_value is_connection =
     (if ec_value = ae_connection_refused ae \<or> ec_value = ae_connection_reset ae
         \<or> ec_value = ae_broken_pipe ae \<or> ec_value = ae_network_down ae
         \<or> ec_value = ae_network_reset ae \<or> ec_value = ae_network_unreachable ae
      then UNAVAILABLE
      else if ec_value = ae_timed_out ae then DEADLINE_EXCEEDED
      else if ec_value = ae_operation_aborted ae then CANCELLED
      else if ec_value = ae_eof ae then (if is_connection then UNAVAILABLE else INTERNAL)
      else if ec_value = ae_host_not_found ae \<or> ec_value = ae_host_not_found_try_again ae
      then UNAVAILABLE
      else INTERNAL)"

lemma Http2ErrorCode_not_OK [simp]: "Http2ErrorCodeToStatusCode ec \<noteq> OK"
  by (simp add: Http2ErrorCodeToStatusCode_def)

text \<open>The table of \<open>docs/protocol.md\<close>: three codes of their own, every other one \<open>INTERNAL\<close>.\<close>

definition documented_http2_code :: "u32 \<Rightarrow> StatusCode" where
  "documented_http2_code ec =
     (if ec = 7 then UNAVAILABLE else if ec = 8 then CANCELLED
      else if ec = 11 then RESOURCE_EXHAUSTED else INTERNAL)"

section \<open>Properties\<close>

text \<open>
  The code follows the documented table of HTTP/2 error codes except on exactly four codes:
  FRAME_SIZE_ERROR (6), COMPRESSION_ERROR (9), CONNECT_ERROR (10) and HTTP_1_1_REQUIRED (13). No
  error code is ever reported as \<open>OK\<close>.
\<close>

theorem http2_code_table:
  "(Http2ErrorCodeToStatusCode ec = documented_http2_code ec \<longleftrightarrow> ec \<notin> {6, 9, 10, 13})
     \<and> Http2ErrorCodeToStatusCode ec \<noteq> OK"
  by (auto simp: Http2ErrorCodeToStatusCode_def documented_http2_code_def)

end
