(* ===== verification/StreamQueue.thy ===== *)
theory StreamQueue
  imports Status
begin

text \<open>
  \<open>src/protocol/stream_queue.h\<close> and \<open>stream_queue.cc\<close>: the queue between the nghttp2 DATA
  callbacks and the coroutine that reads messages.

  All access is on one executor, so each call and each resumption of the \<open>Pop\<close> coroutine is one
  atomic step. The steady timer \<open>wake_\<close>, which never expires by itself, is the field \<open>q_wake\<close>:
  no \<open>Pop\<close> suspended, one suspended in \<open>async_wait\<close>, or one whose wait was cancelled and
  which is going to run its loop again. \<open>Pop\<close> is the body of its loop: \<open>None\<close> is a suspension.
  There is one consumer at a time, as in every use in the sources.
\<close>

datatype wake_state = NoWait | Waiting | Woken

record StreamMessageQueue =
  q_buffer :: "bytes list"
  q_eos :: bool
  q_error :: "Status option"
  q_wake :: wake_state

record PopResult =
  pr_status :: Status
  pr_data :: "bytes option"

definition new_StreamMessageQueue :: StreamMessageQueue where
  "new_StreamMessageQueue = \<lparr>q_buffer = [], q_eos = False, q_error = None, q_wake = NoWait\<rparr>"

definition pr_ok :: "PopResult \<Rightarrow> bool" where
  "pr_ok r = is_ok (pr_status r)"

definition pr_eos :: "PopResult \<Rightarrow> bool" where
  "pr_eos r \<longleftrightarrow> is_ok (pr_status r) \<and> pr_data r = None"

definition Wake :: "StreamMessageQueue \<Rightarrow> StreamMessageQueue" where
  "Wake q = (if q_wake q = Waiting then q\<lparr>q_wake := Woken\<rparr> else q)"

definition Push :: "bytes \<Rightarrow> StreamMessageQueue \<Rightarrow> StreamMessageQueue" where
  "Push proto_bytes q = Wake (q\<lparr>q_buffer := q_buffer q @ [proto_bytes]\<rparr>)"

definition SetEos :: "StreamMessageQueue \<Rightarrow> StreamMessageQueue" where
  "SetEos q = Wake (q\<lparr>q_eos := True\<rparr>)"

definition q_SetError :: "Status \<Rightarrow> StreamMessageQueue \<Rightarrow> StreamMessageQueue" where
  "q_SetError e q = Wake (q\<lparr>q_error := Some e\<rparr>)"

definition Pop :: "StreamMessageQueue \<Rightarrow> PopResult option \<times> StreamMessageQueue" where
  "Pop q =
     (case q_buffer q of
        msg # rest \<Rightarrow> (Some \<lparr>pr_status = status_ok, pr_data = Some msg\<rparr>,
                       q\<lparr>q_buffer := rest, q_wake := NoWait\<rparr>)
      | [] \<Rightarrow>
          (case q_error q of
             Some e \<Rightarrow> (Some \<lparr>pr_status = e, pr_data = None\<rparr>, q\<lparr>q_wake := NoWait\<rparr>)
           | None \<Rightarrow>
               if q_eos q then (Some \<lparr>pr_status = status_ok, pr_data = None\<rparr>, q\<lparr>q_wake := NoWait\<rparr>)
               else (None, q\<lparr>q_wake := Waiting\<rparr>)))"

section \<open>The contract of a message queue\<close>

text \<open>What a reader relies on: messages come out in the order they went in, and only then the end.\<close>

locale message_queue =
  fixes push :: "'m \<Rightarrow> 'q \<Rightarrow> 'q"
    and pop :: "'q \<Rightarrow> 'r option \<times> 'q"
    and contents :: "'q \<Rightarrow> 'm list"
    and data :: "'r \<Rightarrow> 'm option"
  assumes push_contents: "contents (push m q) = contents q @ [m]"
    and pop_Cons: "contents q = m # ms \<Longrightarrow> \<exists>r q'. pop q = (Some r, q') \<and> data r = Some m \<and> contents q' = ms"
    and pop_Nil: "contents q = [] \<Longrightarrow> pop q = (r, q') \<Longrightarrow> contents q' = [] \<and> (\<forall>x. r = Some x \<longrightarrow> data x = None)"
begin

lemma pop_contents:
  "pop q = (r, q') \<Longrightarrow> contents q = (case Option.bind r data of None \<Rightarrow> contents q' | Some m \<Rightarrow> m # contents q')"
  using pop_Cons [of q] pop_Nil [of q r q'] by (cases "contents q"; cases r) fastforce+

end

lemma Wake_sel [simp]:
  "q_buffer (Wake q) = q_buffer q" "q_eos (Wake q) = q_eos q" "q_error (Wake q) = q_error q"
  "q_wake (Wake q) \<noteq> Waiting"
  by (simp_all add: Wake_def)

lemma queue_sel [simp]:
  "q_buffer (Push m q) = q_buffer q @ [m]" "q_buffer (SetEos q) = q_buffer q"
  "q_buffer (q_SetError e q) = q_buffer q" "q_eos (Push m q) = q_eos q" "q_eos (SetEos q)"
  "q_eos (q_SetError e q) = q_eos q" "q_error (Push m q) = q_error q" "q_error (SetEos q) = q_error q"
  "q_error (q_SetError e q) = Some e"
  "q_wake (Push m q) \<noteq> Waiting" "q_wake (SetEos q) \<noteq> Waiting" "q_wake (q_SetError e q) \<noteq> Waiting"
  by (simp_all add: Push_def SetEos_def q_SetError_def)

lemma fold_Push_buffer [simp]:
  "q_buffer (fold Push ms q) = q_buffer q @ ms" "q_error (fold Push ms q) = q_error q" "q_eos (fold Push ms q) = q_eos q"
  by (induction ms arbitrary: q) simp_all

interpretation stream_queue: message_queue Push Pop q_buffer pr_data
  by unfold_locales (auto simp: Pop_def split: list.splits option.splits if_splits)

section \<open>Runs\<close>

text \<open>
  An interleaving of the producer's calls and of the consumer: \<open>EvPop\<close> lets the consumer run,
  by a new call or by a resumption; it does nothing while the consumer is suspended. The run
  returns the final queue and the results the consumer has got.
\<close>

datatype q_event = EvPush bytes | EvEos | EvError Status | EvPop

fun q_step :: "q_event \<Rightarrow> StreamMessageQueue \<Rightarrow> PopResult list \<times> StreamMessageQueue" where
  "q_step (EvPush m) q = ([], Push m q)"
| "q_step EvEos q = ([], SetEos q)"
| "q_step (EvError e) q = ([], q_SetError e q)"
| "q_step EvPop q =
     (if q_wake q = Waiting then ([], q)
      else case Pop q of (None, q') \<Rightarrow> ([], q') | (Some r, q') \<Rightarrow> ([r], q'))"

fun q_run :: "q_event list \<Rightarrow> StreamMessageQueue \<Rightarrow> PopResult list \<times> StreamMessageQueue" where
  "q_run [] q = ([], q)"
| "q_run (e # es) q = (case q_step e q of (rs, q') \<Rightarrow> case q_run es q' of (rs', q'') \<Rightarrow> (rs @ rs', q''))"

definition pushed :: "q_event list \<Rightarrow> bytes list" where
  "pushed es = List.map_filter (\<lambda>e. case e of EvPush m \<Rightarrow> Some m | _ \<Rightarrow> None) es"

definition delivered :: "PopResult list \<Rightarrow> bytes list" where
  "delivered rs = List.map_filter pr_data rs"

lemma pushed_simps [simp]:
  "pushed [] = []" "pushed (EvPush m # es) = m # pushed es" "pushed (EvEos # es) = pushed es"
  "pushed (EvError s # es) = pushed es" "pushed (EvPop # es) = pushed es"
  by (simp_all add: pushed_def map_filter_simps)

lemma delivered_simps [simp]:
  "delivered [] = []" "delivered (r # rs) = (case pr_data r of None \<Rightarrow> delivered rs | Some m \<Rightarrow> m # delivered rs)"
  "delivered (rs @ rs') = delivered rs @ delivered rs'"
  by (simp_all add: delivered_def map_filter_simps split: option.split) (simp add: map_filter_def)

definition q_inv :: "StreamMessageQueue \<Rightarrow> bool" where
  "q_inv q \<longleftrightarrow> (q_wake q = Waiting \<longrightarrow> q_buffer q = [] \<and> \<not> q_eos q \<and> q_error q = None)"

lemma q_inv_new [simp]: "q_inv new_StreamMessageQueue"
  by (simp add: q_inv_def new_StreamMessageQueue_def)

lemma q_inv_Pop: "Pop q = (r, q') \<Longrightarrow> q_inv q'"
  by (auto simp: Pop_def q_inv_def split: list.splits option.splits if_splits)

lemma q_inv_step: "q_inv q \<Longrightarrow> q_inv (snd (q_step e q))"
  by (cases e) (auto simp: q_inv_def split: prod.splits option.splits dest!: q_inv_Pop)

lemma q_inv_run: "q_inv q \<Longrightarrow> q_inv (snd (q_run es q))"
proof (induction es arbitrary: q)
  case (Cons e es)
  then show ?case
    using q_inv_step [of q e] by (auto split: prod.splits) (metis snd_conv)
qed simp

lemma q_step_contents:
  "q_step e q = (rs, q') \<Longrightarrow> q_buffer q @ pushed [e] = delivered rs @ q_buffer q'"
  using stream_queue.pop_contents [of q]
  by (cases e) (auto split: if_splits prod.splits option.splits)

lemma q_run_contents:
  "q_run es q = (rs, q') \<Longrightarrow> q_buffer q @ pushed es = delivered rs @ q_buffer q'"
proof (induction es arbitrary: q rs)
  case (Cons e es)
  obtain rs1 q1 rs2 where "q_step e q = (rs1, q1)" "q_run es q1 = (rs2, q')" "rs = rs1 @ rs2"
    using Cons.prems by (auto split: prod.splits)
  then have "q_buffer q @ pushed [e] = delivered rs1 @ q_buffer q1"
    "q_buffer q1 @ pushed es = delivered rs2 @ q_buffer q'" "delivered rs = delivered rs1 @ delivered rs2"
    using Cons.IH [of q1 rs2] q_step_contents [of e q rs1 q1] by simp_all
  moreover have "pushed (e # es) = pushed [e] @ pushed es" by (cases e) simp_all
  ultimately show ?case by (metis append_assoc)
qed simp

section \<open>Properties\<close>

text \<open>
  In every interleaving of the producer and the consumer, the messages the consumer has got
  are, in order, the messages pushed so far up to those still in the buffer: none is lost,
  duplicated or reordered, also across an error or the end of the stream.
\<close>

theorem queue_fifo:
  "pushed es = delivered (fst (q_run es new_StreamMessageQueue)) @ q_buffer (snd (q_run es new_StreamMessageQueue))"
  using q_run_contents [of es new_StreamMessageQueue]
  by (cases "q_run es new_StreamMessageQueue") (simp add: new_StreamMessageQueue_def)

text \<open>
  C28: No wake-up is lost. In every reachable queue a suspended consumer has nothing to
  read: the buffer is empty and neither an error nor the end of the stream is recorded. So a
  consumer that is not suspended by the last event either has its result or will run again.
\<close>

theorem queue_no_lost_wakeup:
  assumes "q_wake (snd (q_run es new_StreamMessageQueue)) = Waiting"
  shows "q_buffer (snd (q_run es new_StreamMessageQueue)) = []
    \<and> \<not> q_eos (snd (q_run es new_StreamMessageQueue)) \<and> q_error (snd (q_run es new_StreamMessageQueue)) = None"
  using q_inv_run [OF q_inv_new, of es] assms by (simp add: q_inv_def)

theorem queue_no_lost_wakeup_witness:
  "q_buffer (snd (q_run [EvPush ''a'', EvPop, EvPop] new_StreamMessageQueue)) = []"
  using queue_no_lost_wakeup [of "[EvPush ''a'', EvPop, EvPop]"]
  by (simp add: new_StreamMessageQueue_def Push_def Wake_def Pop_def)

end
