(* ===== verification/StreamParser.thy ===== *)
theory StreamParser
  imports Framing
begin

text \<open>
  The parsers of message streams. \<open>StreamingFrameParser\<close> (\<open>src/server/client_streaming_call_state.h\<close>)
  is the one of the server's client-streaming and bidirectional calls; the client's call states
  hold a parser of their own in their \<open>on_data\<close> callbacks
  (\<open>src/client/*_streaming_call_state.cc\<close>), modelled as \<open>ClientLpm\<close> below.

  The locale \<open>lpm_parser\<close> states what one iteration of such a parser's loop does to the bytes it
  has buffered; everything else (that the loop ends, that it computes \<open>lpm_spec\<close>, that chunk
  boundaries do not matter) is proved once in it. A sublocale declaration gives it the contract
  \<open>chunked_feed\<close>, and both parsers interpret it.
\<close>

section \<open>The specification of a message stream\<close>

text \<open>How a byte string ends: inside a frame (with the bytes of it read so far), or with a frame
  whose header is refused.\<close>

datatype lpm_end = Rest bytes | BadFlag | TooLong

definition frame_flag :: "bytes \<Rightarrow> u8" where
  "frame_flag bs = char_u8 (bs ! 0)"

definition frame_len :: "bytes \<Rightarrow> nat" where
  "frame_len bs = unat (be32 bs)"

function lpm_spec :: "(u8 \<Rightarrow> bool) \<Rightarrow> nat \<Rightarrow> bytes \<Rightarrow> bytes list \<times> lpm_end" where
  "lpm_spec accept m bs =
     (if length bs < 5 then ([], Rest bs)
      else if \<not> accept (frame_flag bs) then ([], BadFlag)
      else if m < frame_len bs then ([], TooLong)
      else if length bs < 5 + frame_len bs then ([], Rest bs)
      else let (ms, e) = lpm_spec accept m (drop (5 + frame_len bs) bs)
           in (take (frame_len bs) (drop 5 bs) # ms, e))"
  by auto
termination
  by (relation "measure (\<lambda>(accept, m, bs). length bs)") auto

declare lpm_spec.simps [simp del]

lemma frame_prefix [simp]:
  "5 \<le> length a \<Longrightarrow> frame_flag (a @ b) = frame_flag a"
  "5 \<le> length a \<Longrightarrow> frame_len (a @ b) = frame_len a"
  by (auto simp: frame_flag_def frame_len_def be32_def nth_append)

lemma lpm_spec_short: "length bs < 5 \<Longrightarrow> lpm_spec accept m bs = ([], Rest bs)"
  by (simp add: lpm_spec.simps)

lemma lpm_spec_frame:
  assumes "length a = 5 + frame_len a" "accept (frame_flag a)" "frame_len a \<le> m"
  shows "lpm_spec accept m (a @ b) = (drop 5 a # fst (lpm_spec accept m b), snd (lpm_spec accept m b))"
  using assms by (subst lpm_spec.simps) (simp add: case_prod_unfold Let_def)

text \<open>Reading a string in two parts.\<close>

lemma lpm_spec_append:
  "lpm_spec accept m (x @ y) =
     (case snd (lpm_spec accept m x) of
        Rest r \<Rightarrow> (fst (lpm_spec accept m x) @ fst (lpm_spec accept m (r @ y)), snd (lpm_spec accept m (r @ y)))
      | e \<Rightarrow> (fst (lpm_spec accept m x), e))"
proof (induction accept m x rule: lpm_spec.induct)
  case (1 accept m x)
  consider "length x < 5" | "5 \<le> length x" "\<not> accept (frame_flag x)"
    | "5 \<le> length x" "accept (frame_flag x)" "m < frame_len x"
    | "5 \<le> length x" "accept (frame_flag x)" "frame_len x \<le> m" "length x < 5 + frame_len x"
    | (full) "5 \<le> length x" "accept (frame_flag x)" "frame_len x \<le> m" "5 + frame_len x \<le> length x"
    by linarith
  then show ?case
  proof cases
    case full
    let ?x = "drop (5 + frame_len x) x"
    have "lpm_spec accept m (x @ y) = (take (frame_len x) (drop 5 x) # fst (lpm_spec accept m (?x @ y)),
        snd (lpm_spec accept m (?x @ y)))"
      using full by (subst lpm_spec.simps) (simp add: case_prod_unfold Let_def)
    moreover have "lpm_spec accept m x = (take (frame_len x) (drop 5 x) # fst (lpm_spec accept m ?x),
        snd (lpm_spec accept m ?x))"
      using full by (subst lpm_spec.simps) (simp add: case_prod_unfold Let_def)
    ultimately show ?thesis
      using "1.IH" full by (simp split: lpm_end.splits)
  qed (simp_all add: lpm_spec.simps [of accept m x] lpm_spec.simps [of accept m "x @ y"])
qed

lemma lpm_spec_rest:
  "snd (lpm_spec accept m x) = Rest r \<Longrightarrow> lpm_spec accept m r = ([], Rest r)"
proof (induction accept m x rule: lpm_spec.induct)
  case (1 accept m x)
  show ?case
  proof (cases "5 \<le> length x \<and> accept (frame_flag x) \<and> frame_len x \<le> m \<and> 5 + frame_len x \<le> length x")
    case True
    then show ?thesis
      using 1 by (subst (asm) (2) lpm_spec.simps) (simp add: case_prod_unfold Let_def)
  next
    case False
    then show ?thesis
      using "1.prems" by (auto simp: lpm_spec.simps [of accept m x] lpm_spec.simps [of accept m r] split: if_splits)
  qed
qed

text \<open>
  Feeding a parser chunk after chunk: the state, the messages so far and the status. After an
  error the parser is not called again, which is what the callers with a \<open>responded_\<close> or
  \<open>closed_\<close> guard do.
\<close>

definition stream_feed ::
  "('p \<Rightarrow> bytes \<Rightarrow> ('p \<times> bytes list \<times> Status) option) \<Rightarrow> 'p \<times> bytes list \<times> Status \<Rightarrow> bytes
     \<Rightarrow> ('p \<times> bytes list \<times> Status) option" where
  "stream_feed run = (\<lambda>(p, ms, st) chunk.
     if is_ok st then map_option (\<lambda>(p', ms', st'). (p', ms @ ms', st')) (run p chunk)
     else Some (p, ms, st))"

definition stream_view :: "('p \<Rightarrow> bytes) \<Rightarrow> 'p \<times> bytes list \<times> Status \<Rightarrow> bytes list \<times> Status \<times> bytes" where
  "stream_view pend = (\<lambda>(p, ms, st). (ms, st, if is_ok st then pend p else []))"

definition stream_ok :: "('p \<Rightarrow> bool) \<Rightarrow> 'p \<times> bytes list \<times> Status \<Rightarrow> bool" where
  "stream_ok ok = (\<lambda>(p, ms, st). is_ok st \<longrightarrow> st = status_ok \<and> ok p)"

fun rest_of :: "lpm_end \<Rightarrow> bytes" where
  "rest_of (Rest r) = r"
| "rest_of BadFlag = []"
| "rest_of TooLong = []"

section \<open>The contract of a stream parser\<close>

text \<open>
  \<open>run\<close> is the parser's loop on a chunk: the new state, the messages handed over in order and
  the status; \<open>pend\<close> is the bytes of the frame it is in the middle of. The first two laws speak
  of a parser that has not read the whole header yet, the last two of one inside a payload.
\<close>

locale lpm_parser =
  fixes run :: "'p \<Rightarrow> bytes \<Rightarrow> ('p \<times> bytes list \<times> Status) option"
    and pend :: "'p \<Rightarrow> bytes"
    and inv :: "'p \<Rightarrow> bool"
    and accept :: "u8 \<Rightarrow> bool"
    and limit :: nat
    and bad_flag too_long :: Status
  assumes errors: "\<not> is_ok bad_flag" "\<not> is_ok too_long"
    and run_Nil: "run p [] = Some (p, [], status_ok)"
    and inv_pend: "inv p \<Longrightarrow> lpm_spec accept limit (pend p) = ([], Rest (pend p))"
    and header_part: "inv p \<Longrightarrow> length (pend p) + length a < 5 \<Longrightarrow> a \<noteq> [] \<Longrightarrow>
          \<exists>p'. run p a = Some (p', [], status_ok) \<and> inv p' \<and> pend p' = pend p @ a"
    and header_full: "inv p \<Longrightarrow> length (pend p) + length a = 5 \<Longrightarrow> a \<noteq> [] \<Longrightarrow>
          (if \<not> accept (frame_flag (pend p @ a)) then \<exists>p'. run p (a @ b) = Some (p', [], bad_flag)
           else if limit < frame_len (pend p @ a) then \<exists>p'. run p (a @ b) = Some (p', [], too_long)
           else if frame_len (pend p @ a) = 0
           then \<exists>p'. inv p' \<and> pend p' = [] \<and> run p (a @ b) = map_option (\<lambda>(q, ms, s). (q, [] # ms, s)) (run p' b)
           else \<exists>p'. inv p' \<and> pend p' = pend p @ a \<and> run p (a @ b) = run p' b)"
    and payload_part: "inv p \<Longrightarrow> 5 \<le> length (pend p) \<Longrightarrow> length (pend p) + length a < 5 + frame_len (pend p) \<Longrightarrow>
          a \<noteq> [] \<Longrightarrow> \<exists>p'. run p a = Some (p', [], status_ok) \<and> inv p' \<and> pend p' = pend p @ a"
    and payload_full: "inv p \<Longrightarrow> 5 \<le> length (pend p) \<Longrightarrow> length (pend p) + length a = 5 + frame_len (pend p) \<Longrightarrow>
          \<exists>p'. inv p' \<and> pend p' = [] \<and>
            run p (a @ b) = map_option (\<lambda>(q, ms, s). (q, drop 5 (pend p @ a) # ms, s)) (run p' b)"
begin

definition end_status :: "lpm_end \<Rightarrow> Status" where
  "end_status e = (case e of Rest _ \<Rightarrow> status_ok | BadFlag \<Rightarrow> bad_flag | TooLong \<Rightarrow> too_long)"

definition computes :: "('p \<times> bytes list \<times> Status) option \<Rightarrow> bytes list \<times> lpm_end \<Rightarrow> bool" where
  "computes r spec \<longleftrightarrow> (\<exists>p'. r = Some (p', fst spec, end_status (snd spec))
     \<and> (case snd spec of Rest rest \<Rightarrow> inv p' \<and> pend p' = rest | _ \<Rightarrow> True))"

lemma computes_Cons:
  "computes r (ms, e) \<Longrightarrow> computes (map_option (\<lambda>(q, ms, s). (q, m # ms, s)) r) (m # ms, e)"
  by (auto simp: computes_def)

lemma run_header:
  assumes "inv p" "length (pend p) < 5"
    and IH: "\<And>p' b. inv p' \<Longrightarrow> length b < length c \<Longrightarrow> computes (run p' b) (lpm_spec accept limit (pend p' @ b))"
  shows "computes (run p c) (lpm_spec accept limit (pend p @ c))"
proof (cases "length (pend p) + length c < 5")
  case True
  then show ?thesis
    using header_part [OF assms(1) True] run_Nil [of p] assms(1)
    by (cases "c = []") (auto simp: computes_def lpm_spec_short end_status_def)
next
  case False
  then have n: "5 - length (pend p) \<le> length c" "0 < 5 - length (pend p)" using assms(2) by simp_all
  obtain a b where ab: "c = a @ b" "length a = 5 - length (pend p)" "a \<noteq> []" "length b < length c"
    using cut_at [OF n] by blast
  let ?h = "pend p @ a"
  have five: "length (pend p) + length a = 5" "length ?h = 5" using ab(2) assms(2) by simp_all
  have c: "pend p @ c = ?h @ b" by (simp add: ab(1))
  have pre: "frame_flag (pend p @ a @ b) = frame_flag ?h" "frame_len (pend p @ a @ b) = frame_len ?h"
    using frame_prefix [of ?h b] five(2) by simp_all
  note hf = header_full [OF assms(1) five(1) ab(3), of b]
  show ?thesis
  proof (cases "accept (frame_flag ?h) \<and> frame_len ?h \<le> limit")
    case False
    then show ?thesis
      using hf five(1) unfolding c
      by (subst lpm_spec.simps) (auto simp: pre ab(1) computes_def end_status_def split: if_splits)
  next
    case ok: True
    show ?thesis
    proof (cases "frame_len ?h = 0")
      case True
      then obtain p' where p': "inv p'" "pend p' = []"
        "run p (a @ b) = map_option (\<lambda>(q, ms, s). (q, [] # ms, s)) (run p' b)"
        using hf ok by auto
      have "lpm_spec accept limit (?h @ b) = ([] # fst (lpm_spec accept limit b), snd (lpm_spec accept limit b))"
        using lpm_spec_frame [of ?h accept limit b] True ok five(2) by simp
      then show ?thesis
        using IH [OF p'(1) ab(4)] p' unfolding c ab(1) by (simp add: computes_Cons)
    next
      case False
      then obtain p' where "inv p'" "pend p' = ?h" "run p (a @ b) = run p' b"
        using hf ok by auto
      then show ?thesis
        using IH [of p' b] ab(4) unfolding c ab(1) by simp
    qed
  qed
qed

lemma run_payload:
  assumes "inv p" "5 \<le> length (pend p)"
    and IH: "\<And>p' b. inv p' \<Longrightarrow> length b < length c \<Longrightarrow> computes (run p' b) (lpm_spec accept limit (pend p' @ b))"
  shows "computes (run p c) (lpm_spec accept limit (pend p @ c))"
proof -
  have p: "accept (frame_flag (pend p))" "frame_len (pend p) \<le> limit" "length (pend p) < 5 + frame_len (pend p)"
    using inv_pend [OF assms(1)] assms(2)
    by (auto simp: lpm_spec.simps [of accept limit "pend p"] case_prod_unfold Let_def split: if_splits)
  show ?thesis
  proof (cases "length (pend p) + length c < 5 + frame_len (pend p)")
    case True
    then have "lpm_spec accept limit (pend p @ c) = ([], Rest (pend p @ c))"
      using p assms(2) by (subst lpm_spec.simps) simp
    then show ?thesis
      using payload_part [OF assms(1,2) True] run_Nil [of p] assms(1)
      by (cases "c = []") (auto simp: computes_def end_status_def)
  next
    case False
    let ?n = "5 + frame_len (pend p) - length (pend p)"
    have n: "?n \<le> length c" "0 < ?n" using False p(3) by simp_all
    obtain a b where ab: "c = a @ b" "length a = ?n" "length b < length c"
      using cut_at [OF n] by blast
    have full: "length (pend p) + length a = 5 + frame_len (pend p)" using ab(2) p(3) by simp
    have c: "pend p @ a @ b = (pend p @ a) @ b" by simp
    obtain p' where pf: "inv p'" "pend p' = []"
      "run p (a @ b) = map_option (\<lambda>(q, ms, s). (q, drop 5 (pend p @ a) # ms, s)) (run p' b)"
      using payload_full [OF assms(1,2) full, of b] by blast
    have "lpm_spec accept limit ((pend p @ a) @ b)
        = (drop 5 (pend p @ a) # fst (lpm_spec accept limit b), snd (lpm_spec accept limit b))"
      using p full assms(2) by (intro lpm_spec_frame) simp_all
    then show ?thesis
      unfolding ab(1) c using pf IH [OF pf(1) ab(3)] by (simp add: computes_Cons)
  qed
qed

text \<open>The loop ends and computes the specification of the buffered bytes and the chunk.\<close>

lemma run_computes: "inv p \<Longrightarrow> computes (run p c) (lpm_spec accept limit (pend p @ c))"
proof (induction "length c" arbitrary: p c rule: less_induct)
  case less
  then show ?case
    using run_header [of p c] run_payload [of p c] by (meson not_less)
qed

lemma end_status_ok [simp]: "is_ok (end_status e) \<longleftrightarrow> (\<exists>r. e = Rest r)"
  by (cases e) (simp_all add: end_status_def errors)

lemma end_status_Rest [simp]: "end_status (Rest r) = status_ok"
  by (simp add: end_status_def)

text \<open>What an observer sees after a chunk is a function of what it saw before.\<close>

definition next_view :: "bytes list \<times> Status \<times> bytes \<Rightarrow> bytes \<Rightarrow> bytes list \<times> Status \<times> bytes" where
  "next_view = (\<lambda>(ms, st, r) c. if is_ok st
     then (ms @ fst (lpm_spec accept limit (r @ c)), end_status (snd (lpm_spec accept limit (r @ c))),
           rest_of (snd (lpm_spec accept limit (r @ c))))
     else (ms, st, r))"

lemma feed_next_view:
  assumes "stream_ok inv x"
  shows "\<exists>y. stream_feed run x c = Some y \<and> stream_ok inv y \<and> stream_view pend y = next_view (stream_view pend x) c"
proof -
  obtain p ms st where x: "x = (p, ms, st)" by (cases x)
  show ?thesis
  proof (cases "is_ok st")
    case False
    then show ?thesis by (simp add: x stream_feed_def stream_ok_def stream_view_def next_view_def)
  next
    case True
    then have "computes (run p c) (lpm_spec accept limit (pend p @ c))"
      using assms run_computes by (simp add: x stream_ok_def)
    with True show ?thesis
      by (cases "snd (lpm_spec accept limit (pend p @ c))")
        (auto simp: x computes_def stream_feed_def stream_ok_def stream_view_def next_view_def
          is_ok_def errors [unfolded is_ok_def] end_status_def status_ok_def)
  qed
qed

lemma next_view_append: "next_view (next_view v a) b = next_view v (a @ b)"
proof -
  obtain ms st r where v: "v = (ms, st, r)" by (cases v)
  show ?thesis
    using lpm_spec_append [of accept limit "r @ a" b]
    by (cases "snd (lpm_spec accept limit (r @ a))") (simp_all add: v next_view_def errors end_status_def)
qed

end

sublocale lpm_parser \<subseteq> chunked_feed "stream_feed run" "stream_view pend" "stream_ok inv"
proof
  fix x :: "'p \<times> bytes list \<times> Status" and chunk
  assume x: "stream_ok inv x"
  show "\<exists>y. stream_feed run x chunk = Some y \<and> stream_ok inv y"
    using feed_next_view [OF x] by blast
  show "stream_feed run x [] = Some x"
    using x by (cases x) (auto simp: stream_feed_def stream_ok_def run_Nil)
next
  fix x y :: "'p \<times> bytes list \<times> Status" and a b
  assume x: "stream_ok inv x" and y: "stream_feed run x a = Some y"
  obtain y' z z' where z: "stream_feed run x a = Some y'" "stream_ok inv y'"
      "stream_view pend y' = next_view (stream_view pend x) a"
    and "stream_feed run x (a @ b) = Some z" "stream_view pend z = next_view (stream_view pend x) (a @ b)"
    using feed_next_view [OF x] by metis
  then show "map_option (stream_view pend) (stream_feed run x (a @ b)) = map_option (stream_view pend) (stream_feed run y b)"
    using feed_next_view [OF z(2), of b] y by (auto simp: next_view_append)
next
  fix x y :: "'p \<times> bytes list \<times> Status" and c
  assume "stream_ok inv x" "stream_ok inv y" "stream_view pend x = stream_view pend y"
  then show "map_option (stream_view pend) (stream_feed run x c) = map_option (stream_view pend) (stream_feed run y c)"
    using feed_next_view [of x c] feed_next_view [of y c] by auto
qed

context lpm_parser
begin

text \<open>A new parser, fed a byte string in any chunks.\<close>

lemma stream_of_chunks:
  assumes "inv p" "pend p = []"
  shows "map_option (stream_view pend) (feeds (stream_feed run) (p, [], status_ok) chunks) =
    Some (fst (lpm_spec accept limit (concat chunks)), end_status (snd (lpm_spec accept limit (concat chunks))),
          rest_of (snd (lpm_spec accept limit (concat chunks))))"
proof -
  have ok: "stream_ok inv (p, [], status_ok)" using assms(1) by (simp add: stream_ok_def)
  show ?thesis
    using feeds_concat [OF ok, of chunks] feed_next_view [OF ok, of "concat chunks"] assms(2)
    by (auto simp: next_view_def stream_view_def)
qed

end

section \<open>StreamingFrameParser\<close>

record StreamingFrameParser =
  sp_max_message_size :: nat
  sp_header_buf :: bytes
  sp_header_bytes :: nat
  sp_payload_len :: u32
  sp_payload :: bytes

definition new_StreamingFrameParser :: "nat \<Rightarrow> StreamingFrameParser" where
  "new_StreamingFrameParser max_message_size =
     \<lparr>sp_max_message_size = max_message_size, sp_header_buf = replicate 5 (CHR 0x00), sp_header_bytes = 0,
      sp_payload_len = 0, sp_payload = []\<rparr>"

text \<open>
  The loop of \<open>Feed\<close>: the state it leaves, the payloads it passes to the callback in order, and
  the status it returns. (The subtraction of the payload branch does not wrap: the loop never
  holds more than \<open>payload_len_\<close> bytes.)
\<close>

partial_function (option) sp_loop ::
  "StreamingFrameParser \<Rightarrow> bytes \<Rightarrow> (StreamingFrameParser \<times> bytes list \<times> Status) option" where
  "sp_loop p chunk =
     (if chunk = [] then Some (p, [], status_ok)
      else if sp_header_bytes p < 5 then
        let need = 5 - sp_header_bytes p;
            n = min need (length chunk);
            p1 = p\<lparr>sp_header_buf := memcpy_at (sp_header_buf p) (sp_header_bytes p) (take n chunk),
                   sp_header_bytes := sp_header_bytes p + n\<rparr>;
            rest = drop n chunk
        in if sp_header_bytes p1 = 5 then
             let compress = char_u8 (sp_header_buf p1 ! 0)
             in if compress \<noteq> 0 \<and> compress \<noteq> 1
                then Some (p1, [], mk_status INVALID_ARGUMENT ''invalid LPM compression flag'')
                else
                  let len = be32 (sp_header_buf p1);
                      p2 = p1\<lparr>sp_payload_len := len\<rparr>
                  in if unat len > sp_max_message_size p
                     then Some (p2, [], mk_status RESOURCE_EXHAUSTED ''message length exceeds limit'')
                     else
                       let p3 = p2\<lparr>sp_payload := []\<rparr>
                       in if len = 0
                          then do { (q, ms, s) \<leftarrow> sp_loop (p3\<lparr>sp_header_bytes := 0\<rparr>) rest; Some (q, [] # ms, s) }
                          else sp_loop p3 rest
           else sp_loop p1 rest
      else
        let need = unat (sp_payload_len p) - length (sp_payload p);
            n = min need (length chunk);
            p1 = p\<lparr>sp_payload := sp_payload p @ take n chunk\<rparr>;
            rest = drop n chunk
        in if length (sp_payload p1) = unat (sp_payload_len p1)
           then do { (q, ms, s) \<leftarrow> sp_loop (p1\<lparr>sp_header_bytes := 0, sp_payload_len := 0, sp_payload := []\<rparr>) rest;
                     Some (q, sp_payload p1 # ms, s) }
           else sp_loop p1 rest)"

definition between_frames :: "StreamingFrameParser \<Rightarrow> bool" where
  "between_frames p \<longleftrightarrow> sp_header_bytes p = 0 \<and> sp_payload p = []"

definition sp_pend :: "StreamingFrameParser \<Rightarrow> bytes" where
  "sp_pend p = (if sp_header_bytes p < 5 then take (sp_header_bytes p) (sp_header_buf p)
     else sp_header_buf p @ sp_payload p)"

definition sp_accept :: "u8 \<Rightarrow> bool" where
  "sp_accept flag \<longleftrightarrow> flag = 0 \<or> flag = 1"

definition sp_inv :: "nat \<Rightarrow> StreamingFrameParser \<Rightarrow> bool" where
  "sp_inv m p \<longleftrightarrow> sp_max_message_size p = m \<and> length (sp_header_buf p) = 5 \<and> sp_header_bytes p \<le> 5
     \<and> (sp_header_bytes p = 5 \<longrightarrow> sp_accept (frame_flag (sp_header_buf p))
          \<and> sp_payload_len p = be32 (sp_header_buf p) \<and> frame_len (sp_header_buf p) \<le> m
          \<and> length (sp_payload p) < frame_len (sp_header_buf p))"

lemma sp_pend_length:
  "sp_inv m p \<Longrightarrow> length (sp_pend p) < 5 \<longleftrightarrow> sp_header_bytes p < 5"
  "sp_inv m p \<Longrightarrow> sp_header_bytes p < 5 \<Longrightarrow> length (sp_pend p) = sp_header_bytes p"
  by (auto simp: sp_inv_def sp_pend_def)

lemma sp_header_append:
  "sp_inv m p \<Longrightarrow> sp_header_bytes p + length a \<le> 5 \<Longrightarrow> sp_header_bytes p < 5 \<Longrightarrow>
     take (sp_header_bytes p + length a) (memcpy_at (sp_header_buf p) (sp_header_bytes p) a) = sp_pend p @ a
     \<and> length (memcpy_at (sp_header_buf p) (sp_header_bytes p) a) = 5"
  by (simp add: sp_inv_def sp_pend_def memcpy_at_def)

lemma sp_loop_Nil [simp]: "sp_loop p [] = Some (p, [], status_ok)"
  by (simp add: sp_loop.simps)

lemma map_as_bind: "do { (q, ms, s) \<leftarrow> x; Some (q, m # ms, s) } = map_option (\<lambda>(q, ms, s). (q, m # ms, s)) x"
  by (cases x) auto

lemma sp_header_part:
  assumes "sp_inv m p" "sp_header_bytes p + length a < 5" "a \<noteq> []"
  shows "\<exists>p'. sp_loop p a = Some (p', [], status_ok) \<and> sp_inv m p' \<and> sp_pend p' = sp_pend p @ a"
proof -
  let ?p = "p\<lparr>sp_header_buf := memcpy_at (sp_header_buf p) (sp_header_bytes p) a,
      sp_header_bytes := sp_header_bytes p + length a\<rparr>"
  have "sp_loop p a = Some (?p, [], status_ok)"
    using assms by (subst sp_loop.simps) (simp add: Let_def min_def)
  moreover have "sp_inv m ?p" "sp_pend ?p = sp_pend p @ a"
    using sp_header_append [OF assms(1), of a] assms(1,2) by (auto simp: sp_inv_def) (simp add: sp_pend_def)
  ultimately show ?thesis by blast
qed

lemma sp_header_full:
  assumes "sp_inv m p" "sp_header_bytes p + length a = 5" "a \<noteq> []"
  defines "h \<equiv> sp_pend p @ a"
  shows "if \<not> sp_accept (frame_flag h)
      then \<exists>p'. sp_loop p (a @ b) = Some (p', [], mk_status INVALID_ARGUMENT ''invalid LPM compression flag'')
    else if m < frame_len h
      then \<exists>p'. sp_loop p (a @ b) = Some (p', [], mk_status RESOURCE_EXHAUSTED ''message length exceeds limit'')
    else if frame_len h = 0
      then \<exists>p'. sp_inv m p' \<and> sp_pend p' = []
        \<and> sp_loop p (a @ b) = map_option (\<lambda>(q, ms, s). (q, [] # ms, s)) (sp_loop p' b)
    else \<exists>p'. sp_inv m p' \<and> sp_pend p' = h \<and> sp_loop p (a @ b) = sp_loop p' b"
proof -
  have hb: "sp_header_bytes p < 5" using assms(2,3) by (cases a) auto
  have min: "min (5 - sp_header_bytes p) (length a + length b) = length a" using assms(2) by simp
  have m: "sp_max_message_size p = m" using assms(1) by (simp add: sp_inv_def)
  have h: "memcpy_at (sp_header_buf p) (sp_header_bytes p) a = h" "length h = 5"
    using sp_header_append [OF assms(1) _ hb, of a] assms(2) by (auto simp: h_def)
  have loop: "sp_loop p (a @ b) =
      (if \<not> sp_accept (frame_flag h)
       then Some (p\<lparr>sp_header_buf := h, sp_header_bytes := 5\<rparr>, [], mk_status INVALID_ARGUMENT ''invalid LPM compression flag'')
       else if m < frame_len h
       then Some (p\<lparr>sp_header_buf := h, sp_header_bytes := 5, sp_payload_len := be32 h\<rparr>, [],
              mk_status RESOURCE_EXHAUSTED ''message length exceeds limit'')
       else if frame_len h = 0
       then map_option (\<lambda>(q, ms, s). (q, [] # ms, s))
              (sp_loop (p\<lparr>sp_header_buf := h, sp_payload_len := be32 h, sp_payload := [], sp_header_bytes := 0\<rparr>) b)
       else sp_loop (p\<lparr>sp_header_buf := h, sp_header_bytes := 5, sp_payload_len := be32 h, sp_payload := []\<rparr>) b)"
    using assms(2,3) hb
    by (subst sp_loop.simps)
      (simp add: Let_def min h m map_as_bind sp_accept_def frame_flag_def frame_len_def unat_eq_0)
  show ?thesis
  proof (cases "sp_accept (frame_flag h) \<and> frame_len h \<le> m")
    case False
    then show ?thesis by (auto simp: loop)
  next
    case True
    then have "frame_len h = 0 \<Longrightarrow> sp_inv m (p\<lparr>sp_header_buf := h, sp_payload_len := be32 h, sp_payload := [], sp_header_bytes := 0\<rparr>)"
      "frame_len h \<noteq> 0 \<Longrightarrow> sp_inv m (p\<lparr>sp_header_buf := h, sp_header_bytes := 5, sp_payload_len := be32 h, sp_payload := []\<rparr>)"
      using h(2) m by (simp_all add: sp_inv_def)
    with True show ?thesis
      by (auto simp: loop sp_pend_def)
  qed
qed

lemma sp_payload_inv:
  assumes "sp_inv m p" "\<not> sp_header_bytes p < 5"
  shows "sp_header_bytes p = 5" "sp_pend p = sp_header_buf p @ sp_payload p" "length (sp_header_buf p) = 5"
    "frame_len (sp_pend p) = unat (sp_payload_len p)" "length (sp_payload p) < unat (sp_payload_len p)"
  using assms by (auto simp: sp_inv_def sp_pend_def frame_len_def be32_prefix)

lemma sp_payload_part:
  assumes "sp_inv m p" "\<not> sp_header_bytes p < 5" "length (sp_payload p) + length a < unat (sp_payload_len p)" "a \<noteq> []"
  shows "\<exists>p'. sp_loop p a = Some (p', [], status_ok) \<and> sp_inv m p' \<and> sp_pend p' = sp_pend p @ a"
proof -
  let ?p = "p\<lparr>sp_payload := sp_payload p @ a\<rparr>"
  have "sp_loop p a = Some (?p, [], status_ok)"
    using assms by (subst sp_loop.simps) (simp add: Let_def min_def)
  moreover have "sp_inv m ?p" "sp_pend ?p = sp_pend p @ a"
    using assms(1-3) by (auto simp: sp_inv_def sp_pend_def frame_len_def)
  ultimately show ?thesis by blast
qed

lemma sp_payload_full:
  assumes "sp_inv m p" "\<not> sp_header_bytes p < 5" "length (sp_payload p) + length a = unat (sp_payload_len p)"
  shows "\<exists>p'. sp_inv m p' \<and> sp_pend p' = [] \<and>
    sp_loop p (a @ b) = map_option (\<lambda>(q, ms, s). (q, (sp_payload p @ a) # ms, s)) (sp_loop p' b)"
proof -
  let ?p = "p\<lparr>sp_header_bytes := 0, sp_payload_len := 0, sp_payload := []\<rparr>"
  have "a \<noteq> []" "min (unat (sp_payload_len p) - length (sp_payload p)) (length a + length b) = length a"
    using sp_payload_inv [OF assms(1,2)] assms(3) by auto
  then have "sp_loop p (a @ b) = map_option (\<lambda>(q, ms, s). (q, (sp_payload p @ a) # ms, s)) (sp_loop ?p b)"
    using assms(2,3) by (subst sp_loop.simps) (simp add: Let_def map_as_bind)
  moreover have "sp_inv m ?p" "sp_pend ?p = []"
    using assms(1) by (auto simp: sp_inv_def sp_pend_def)
  ultimately show ?thesis by blast
qed

interpretation sfp: lpm_parser sp_loop sp_pend "sp_inv m" sp_accept m
  "mk_status INVALID_ARGUMENT ''invalid LPM compression flag''"
  "mk_status RESOURCE_EXHAUSTED ''message length exceeds limit''" for m
proof
  fix p a b
  assume inv: "sp_inv m p"
  show "lpm_spec sp_accept m (sp_pend p) = ([], Rest (sp_pend p))"
    using inv by (subst lpm_spec.simps) (auto simp: sp_inv_def sp_pend_def frame_len_def be32_prefix)
  show "\<exists>p'. sp_loop p a = Some (p', [], status_ok) \<and> sp_inv m p' \<and> sp_pend p' = sp_pend p @ a"
    if "length (sp_pend p) + length a < 5" "a \<noteq> []"
    using sp_header_part [OF inv, of a] sp_pend_length [OF inv] that by auto
  show "if \<not> sp_accept (frame_flag (sp_pend p @ a))
      then \<exists>p'. sp_loop p (a @ b) = Some (p', [], mk_status INVALID_ARGUMENT ''invalid LPM compression flag'')
    else if m < frame_len (sp_pend p @ a)
      then \<exists>p'. sp_loop p (a @ b) = Some (p', [], mk_status RESOURCE_EXHAUSTED ''message length exceeds limit'')
    else if frame_len (sp_pend p @ a) = 0
      then \<exists>p'. sp_inv m p' \<and> sp_pend p' = []
        \<and> sp_loop p (a @ b) = map_option (\<lambda>(q, ms, s). (q, [] # ms, s)) (sp_loop p' b)
    else \<exists>p'. sp_inv m p' \<and> sp_pend p' = sp_pend p @ a \<and> sp_loop p (a @ b) = sp_loop p' b"
    if "length (sp_pend p) + length a = 5" "a \<noteq> []"
    using sp_header_full [OF inv, of a b] sp_pend_length [OF inv] that by (cases a) auto
  assume five: "5 \<le> length (sp_pend p)"
  then have hb: "\<not> sp_header_bytes p < 5" using sp_pend_length [OF inv] by auto
  note pl = sp_payload_inv [OF inv hb]
  show "\<exists>p'. sp_loop p a = Some (p', [], status_ok) \<and> sp_inv m p' \<and> sp_pend p' = sp_pend p @ a"
    if "length (sp_pend p) + length a < 5 + frame_len (sp_pend p)" "a \<noteq> []"
    using sp_payload_part [OF inv hb _ that(2)] that(1) pl by simp
  show "\<exists>p'. sp_inv m p' \<and> sp_pend p' = [] \<and>
      sp_loop p (a @ b) = map_option (\<lambda>(q, ms, s). (q, drop 5 (sp_pend p @ a) # ms, s)) (sp_loop p' b)"
    if "length (sp_pend p) + length a = 5 + frame_len (sp_pend p)"
    using sp_payload_full [OF inv hb, of a b] that pl by simp
qed simp_all

section \<open>The client's parser\<close>

text \<open>
  The parser fields of the client's streaming call states and the loop of their \<open>on_data\<close>
  callbacks, the same code in all three: it does not look at the compression flag, keeps
  \<open>hdr_done_\<close> beside \<open>hdr_bytes_\<close>, and a message above the limit is a \<open>Fail\<close> of the call,
  the status returned here.
\<close>

record ClientLpm =
  cl_hdr_buf :: bytes
  cl_hdr_bytes :: nat
  cl_payload_len :: u32
  cl_payload_buf :: bytes
  cl_hdr_done :: bool

definition new_ClientLpm :: ClientLpm where
  "new_ClientLpm = \<lparr>cl_hdr_buf = replicate 5 (CHR 0x00), cl_hdr_bytes = 0, cl_payload_len = 0,
     cl_payload_buf = [], cl_hdr_done = False\<rparr>"

partial_function (option) client_lpm_loop ::
  "nat \<Rightarrow> ClientLpm \<Rightarrow> bytes \<Rightarrow> (ClientLpm \<times> bytes list \<times> Status) option" where
  "client_lpm_loop max_msg_size p copy =
     (if copy = [] then Some (p, [], status_ok)
      else if \<not> cl_hdr_done p then
        let need = 5 - cl_hdr_bytes p;
            n = min need (length copy);
            p1 = p\<lparr>cl_hdr_buf := memcpy_at (cl_hdr_buf p) (cl_hdr_bytes p) (take n copy),
                   cl_hdr_bytes := cl_hdr_bytes p + n\<rparr>;
            rest = drop n copy
        in if cl_hdr_bytes p1 = 5 then
             let len = be32 (cl_hdr_buf p1);
                 p2 = p1\<lparr>cl_hdr_done := True, cl_payload_len := len\<rparr>
             in if unat len > max_msg_size
                then Some (p2, [], mk_status RESOURCE_EXHAUSTED ''received message too large'')
                else
                  let p3 = p2\<lparr>cl_payload_buf := []\<rparr>
                  in if len = 0
                     then do { (q, ms, s) \<leftarrow> client_lpm_loop max_msg_size (p3\<lparr>cl_hdr_done := False, cl_hdr_bytes := 0\<rparr>) rest;
                               Some (q, [] # ms, s) }
                     else client_lpm_loop max_msg_size p3 rest
           else client_lpm_loop max_msg_size p1 rest
      else
        let need = unat (cl_payload_len p) - length (cl_payload_buf p);
            n = min need (length copy);
            p1 = p\<lparr>cl_payload_buf := cl_payload_buf p @ take n copy\<rparr>;
            rest = drop n copy
        in if length (cl_payload_buf p1) = unat (cl_payload_len p1)
           then do { (q, ms, s) \<leftarrow> client_lpm_loop max_msg_size
                       (p1\<lparr>cl_hdr_done := False, cl_hdr_bytes := 0, cl_payload_len := 0, cl_payload_buf := []\<rparr>) rest;
                     Some (q, cl_payload_buf p1 # ms, s) }
           else client_lpm_loop max_msg_size p1 rest)"

definition cl_pend :: "ClientLpm \<Rightarrow> bytes" where
  "cl_pend p = (if cl_hdr_done p then cl_hdr_buf p @ cl_payload_buf p
     else take (cl_hdr_bytes p) (cl_hdr_buf p))"

abbreviation cl_accept :: "u8 \<Rightarrow> bool" where
  "cl_accept flag \<equiv> True"

definition cl_inv :: "nat \<Rightarrow> ClientLpm \<Rightarrow> bool" where
  "cl_inv m p \<longleftrightarrow> length (cl_hdr_buf p) = 5
     \<and> (if cl_hdr_done p then cl_hdr_bytes p = 5 \<and> cl_payload_len p = be32 (cl_hdr_buf p)
          \<and> frame_len (cl_hdr_buf p) \<le> m \<and> length (cl_payload_buf p) < frame_len (cl_hdr_buf p)
        else cl_hdr_bytes p < 5)"

lemma cl_pend_length:
  "cl_inv m p \<Longrightarrow> length (cl_pend p) < 5 \<longleftrightarrow> \<not> cl_hdr_done p"
  "cl_inv m p \<Longrightarrow> \<not> cl_hdr_done p \<Longrightarrow> length (cl_pend p) = cl_hdr_bytes p"
  by (auto simp: cl_inv_def cl_pend_def)

lemma cl_header_append:
  "cl_inv m p \<Longrightarrow> cl_hdr_bytes p + length a \<le> 5 \<Longrightarrow> \<not> cl_hdr_done p \<Longrightarrow>
     take (cl_hdr_bytes p + length a) (memcpy_at (cl_hdr_buf p) (cl_hdr_bytes p) a) = cl_pend p @ a
     \<and> length (memcpy_at (cl_hdr_buf p) (cl_hdr_bytes p) a) = 5"
  by (simp add: cl_inv_def cl_pend_def memcpy_at_def)

lemma client_lpm_loop_Nil [simp]: "client_lpm_loop m p [] = Some (p, [], status_ok)"
  by (simp add: client_lpm_loop.simps)

lemma cl_header_part:
  assumes "cl_inv m p" "\<not> cl_hdr_done p" "cl_hdr_bytes p + length a < 5" "a \<noteq> []"
  shows "\<exists>p'. client_lpm_loop m p a = Some (p', [], status_ok) \<and> cl_inv m p' \<and> cl_pend p' = cl_pend p @ a"
proof -
  let ?p = "p\<lparr>cl_hdr_buf := memcpy_at (cl_hdr_buf p) (cl_hdr_bytes p) a,
      cl_hdr_bytes := cl_hdr_bytes p + length a\<rparr>"
  have "client_lpm_loop m p a = Some (?p, [], status_ok)"
    using assms by (subst client_lpm_loop.simps) (simp add: Let_def min_def)
  moreover have "cl_inv m ?p" "cl_pend ?p = cl_pend p @ a"
    using cl_header_append [OF assms(1), of a] assms(1-3) by (auto simp: cl_inv_def) (simp add: cl_pend_def)
  ultimately show ?thesis by blast
qed

lemma cl_header_full:
  assumes "cl_inv m p" "\<not> cl_hdr_done p" "cl_hdr_bytes p + length a = 5" "a \<noteq> []"
  defines "h \<equiv> cl_pend p @ a"
  shows "if m < frame_len h
      then \<exists>p'. client_lpm_loop m p (a @ b) = Some (p', [], mk_status RESOURCE_EXHAUSTED ''received message too large'')
    else if frame_len h = 0
      then \<exists>p'. cl_inv m p' \<and> cl_pend p' = []
        \<and> client_lpm_loop m p (a @ b) = map_option (\<lambda>(q, ms, s). (q, [] # ms, s)) (client_lpm_loop m p' b)
    else \<exists>p'. cl_inv m p' \<and> cl_pend p' = h \<and> client_lpm_loop m p (a @ b) = client_lpm_loop m p' b"
proof -
  have min: "min (5 - cl_hdr_bytes p) (length a + length b) = length a" using assms(3) by simp
  have h: "memcpy_at (cl_hdr_buf p) (cl_hdr_bytes p) a = h" "length h = 5"
    using cl_header_append [OF assms(1) _ assms(2), of a] assms(3) by (auto simp: h_def)
  let ?p0 = "p\<lparr>cl_hdr_buf := h, cl_payload_len := be32 h, cl_payload_buf := [], cl_hdr_done := False, cl_hdr_bytes := 0\<rparr>"
  let ?p5 = "p\<lparr>cl_hdr_buf := h, cl_hdr_bytes := 5, cl_hdr_done := True, cl_payload_len := be32 h, cl_payload_buf := []\<rparr>"
  have loop: "client_lpm_loop m p (a @ b) =
      (if m < frame_len h
       then Some (p\<lparr>cl_hdr_buf := h, cl_hdr_bytes := 5, cl_hdr_done := True, cl_payload_len := be32 h\<rparr>, [],
              mk_status RESOURCE_EXHAUSTED ''received message too large'')
       else if frame_len h = 0 then map_option (\<lambda>(q, ms, s). (q, [] # ms, s)) (client_lpm_loop m ?p0 b)
       else client_lpm_loop m ?p5 b)"
    using assms(2-4)
    by (subst client_lpm_loop.simps) (simp add: Let_def min h map_as_bind frame_len_def unat_eq_0)
  have "frame_len h = 0 \<Longrightarrow> cl_inv m ?p0" "frame_len h \<noteq> 0 \<Longrightarrow> frame_len h \<le> m \<Longrightarrow> cl_inv m ?p5"
    using h(2) by (simp_all add: cl_inv_def)
  then show ?thesis
    by (auto simp: loop cl_pend_def)
qed

lemma cl_payload_inv:
  assumes "cl_inv m p" "cl_hdr_done p"
  shows "cl_pend p = cl_hdr_buf p @ cl_payload_buf p" "length (cl_hdr_buf p) = 5"
    "frame_len (cl_pend p) = unat (cl_payload_len p)" "length (cl_payload_buf p) < unat (cl_payload_len p)"
  using assms by (auto simp: cl_inv_def cl_pend_def frame_len_def be32_prefix)

lemma cl_payload_part:
  assumes "cl_inv m p" "cl_hdr_done p" "length (cl_payload_buf p) + length a < unat (cl_payload_len p)" "a \<noteq> []"
  shows "\<exists>p'. client_lpm_loop m p a = Some (p', [], status_ok) \<and> cl_inv m p' \<and> cl_pend p' = cl_pend p @ a"
proof -
  let ?p = "p\<lparr>cl_payload_buf := cl_payload_buf p @ a\<rparr>"
  have "client_lpm_loop m p a = Some (?p, [], status_ok)"
    using assms by (subst client_lpm_loop.simps) (simp add: Let_def min_def)
  moreover have "cl_inv m ?p" "cl_pend ?p = cl_pend p @ a"
    using assms(1-3) by (auto simp: cl_inv_def cl_pend_def frame_len_def)
  ultimately show ?thesis by blast
qed

lemma cl_payload_full:
  assumes "cl_inv m p" "cl_hdr_done p" "length (cl_payload_buf p) + length a = unat (cl_payload_len p)"
  shows "\<exists>p'. cl_inv m p' \<and> cl_pend p' = [] \<and>
    client_lpm_loop m p (a @ b) = map_option (\<lambda>(q, ms, s). (q, (cl_payload_buf p @ a) # ms, s)) (client_lpm_loop m p' b)"
proof -
  let ?p = "p\<lparr>cl_hdr_done := False, cl_hdr_bytes := 0, cl_payload_len := 0, cl_payload_buf := []\<rparr>"
  have "a \<noteq> []" "min (unat (cl_payload_len p) - length (cl_payload_buf p)) (length a + length b) = length a"
    using cl_payload_inv [OF assms(1,2)] assms(3) by auto
  then have "client_lpm_loop m p (a @ b)
      = map_option (\<lambda>(q, ms, s). (q, (cl_payload_buf p @ a) # ms, s)) (client_lpm_loop m ?p b)"
    using assms(2,3) by (subst client_lpm_loop.simps) (simp add: Let_def map_as_bind)
  moreover have "cl_inv m ?p" "cl_pend ?p = []"
    using assms(1) by (auto simp: cl_inv_def cl_pend_def split: if_splits)
  ultimately show ?thesis by blast
qed

interpretation clp: lpm_parser "client_lpm_loop m" cl_pend "cl_inv m" cl_accept m
  "mk_status INTERNAL []" "mk_status RESOURCE_EXHAUSTED ''received message too large''" for m
proof
  fix p a b
  assume inv: "cl_inv m p"
  show "lpm_spec cl_accept m (cl_pend p) = ([], Rest (cl_pend p))"
    using inv by (subst lpm_spec.simps) (auto simp: cl_inv_def cl_pend_def frame_len_def be32_prefix split: if_splits)
  show "\<exists>p'. client_lpm_loop m p a = Some (p', [], status_ok) \<and> cl_inv m p' \<and> cl_pend p' = cl_pend p @ a"
    if "length (cl_pend p) + length a < 5" "a \<noteq> []"
    using cl_header_part [OF inv, of a] cl_pend_length [OF inv] that by auto
  show "if \<not> True then \<exists>p'. client_lpm_loop m p (a @ b) = Some (p', [], mk_status INTERNAL [])
    else if m < frame_len (cl_pend p @ a)
      then \<exists>p'. client_lpm_loop m p (a @ b) = Some (p', [], mk_status RESOURCE_EXHAUSTED ''received message too large'')
    else if frame_len (cl_pend p @ a) = 0
      then \<exists>p'. cl_inv m p' \<and> cl_pend p' = []
        \<and> client_lpm_loop m p (a @ b) = map_option (\<lambda>(q, ms, s). (q, [] # ms, s)) (client_lpm_loop m p' b)
    else \<exists>p'. cl_inv m p' \<and> cl_pend p' = cl_pend p @ a \<and> client_lpm_loop m p (a @ b) = client_lpm_loop m p' b"
    if "length (cl_pend p) + length a = 5" "a \<noteq> []"
    using cl_header_full [OF inv, of a b] cl_pend_length [OF inv] that by (cases a) auto
  assume five: "5 \<le> length (cl_pend p)"
  then have hd: "cl_hdr_done p" using cl_pend_length [OF inv] by auto
  note pl = cl_payload_inv [OF inv hd]
  show "\<exists>p'. client_lpm_loop m p a = Some (p', [], status_ok) \<and> cl_inv m p' \<and> cl_pend p' = cl_pend p @ a"
    if "length (cl_pend p) + length a < 5 + frame_len (cl_pend p)" "a \<noteq> []"
    using cl_payload_part [OF inv hd _ that(2)] that(1) pl by simp
  show "\<exists>p'. cl_inv m p' \<and> cl_pend p' = [] \<and>
      client_lpm_loop m p (a @ b) = map_option (\<lambda>(q, ms, s). (q, drop 5 (cl_pend p @ a) # ms, s)) (client_lpm_loop m p' b)"
    if "length (cl_pend p) + length a = 5 + frame_len (cl_pend p)"
    using cl_payload_full [OF inv hd, of a b] that pl by simp
qed simp_all

section \<open>Framed messages\<close>

definition framed :: "bytes list \<Rightarrow> bytes" where
  "framed msgs = concat (map (\<lambda>m. the (EncodeFrame 0 m)) msgs)"

lemma EncodeFrame_frame:
  assumes "length payload < 2 ^ 32"
  obtains fr where "EncodeFrame flag payload = Some fr" "frame_flag fr = flag" "frame_len fr = length payload"
    "length fr = 5 + length payload" "drop 5 fr = payload"
proof -
  let ?fr = "u8_char flag # be32_bytes (of_nat (length payload)) @ payload"
  have "EncodeFrame flag payload = Some ?fr" using assms by (simp add: EncodeFrame_Some)
  moreover have "unat (of_nat (length payload) :: u32) = length payload"
    using assms by (simp add: unat_of_nat)
  ultimately show thesis
    by (intro that [of ?fr]) (simp_all add: frame_flag_def frame_len_def be32_be32_bytes)
qed

lemma framed_append: "framed (ms @ ns) = framed ms @ framed ns"
  by (simp add: framed_def)

lemma lpm_spec_framed:
  assumes "list_all (\<lambda>p. length p \<le> m \<and> length p < 2 ^ 32) msgs" "accept 0"
  shows "lpm_spec accept m (framed msgs @ r) = (msgs @ fst (lpm_spec accept m r), snd (lpm_spec accept m r))"
  using assms(1)
proof (induction msgs)
  case (Cons p msgs)
  then obtain fr where fr: "EncodeFrame 0 p = Some fr" "frame_flag fr = 0" "frame_len fr = length p"
    "length fr = 5 + length p" "drop 5 fr = p"
    using EncodeFrame_frame [of p 0] by auto
  then have "lpm_spec accept m (fr @ framed msgs @ r) = (p # fst (lpm_spec accept m (framed msgs @ r)),
      snd (lpm_spec accept m (framed msgs @ r)))"
    using Cons.prems assms(2) lpm_spec_frame [of fr accept m "framed msgs @ r"] by simp
  then show ?case
    using Cons fr(1) by (simp add: framed_def)
qed (simp add: framed_def)

text \<open>What is read of a message stream that has not arrived completely.\<close>

lemma lpm_spec_cut:
  assumes "a @ b = framed msgs" "list_all (\<lambda>p. length p \<le> m \<and> length p < 2 ^ 32) msgs" "accept 0"
  shows "\<exists>ys zs r. msgs = ys @ zs \<and> lpm_spec accept m a = (ys, Rest r) \<and> r @ b = framed zs"
  using assms(1,2)
proof (induction msgs arbitrary: a)
  case Nil
  then show ?case by (simp add: framed_def lpm_spec_short)
next
  case (Cons p msgs)
  then obtain fr where fr: "EncodeFrame 0 p = Some fr" "frame_flag fr = 0" "frame_len fr = length p"
    "length fr = 5 + length p" "drop 5 fr = p"
    using EncodeFrame_frame [of p 0] by auto
  have ab: "a @ b = fr @ framed msgs" using Cons.prems(1) fr(1) by (simp add: framed_def)
  show ?case
  proof (cases "length a < length fr")
    case True
    then obtain x where x: "fr = a @ x" using ab by (auto simp: append_eq_append_conv2)
    have "lpm_spec accept m a = ([], Rest a)"
    proof (cases "length a < 5")
      case False
      then have "frame_flag a = 0" "frame_len a = length p"
        using frame_prefix [of a x] fr(2,3) by (simp_all add: x)
      then show ?thesis
        using False True fr(4) Cons.prems(2) assms(3) by (subst lpm_spec.simps) simp
    qed (simp add: lpm_spec_short)
    then show ?thesis using Cons.prems(1) by blast
  next
    case False
    then obtain a' where a': "a = fr @ a'" "a' @ b = framed msgs" using ab by (auto simp: append_eq_append_conv2)
    obtain ys zs r where "msgs = ys @ zs" "lpm_spec accept m a' = (ys, Rest r)" "r @ b = framed zs"
      using Cons.IH [OF a'(2)] Cons.prems(2) by auto
    moreover have "lpm_spec accept m a = (p # fst (lpm_spec accept m a'), snd (lpm_spec accept m a'))"
      using lpm_spec_frame [of fr accept m a'] fr(2-5) Cons.prems(2) assms(3) by (simp add: a'(1))
    ultimately show ?thesis by (intro exI [of _ "p # ys"] exI [of _ zs] exI [of _ r]) simp
  qed
qed

lemma sp_inv_new: "sp_inv m (new_StreamingFrameParser m)" "sp_pend (new_StreamingFrameParser m) = []"
  by (simp_all add: sp_inv_def sp_pend_def new_StreamingFrameParser_def)

lemma cl_inv_new: "cl_inv m new_ClientLpm" "cl_pend new_ClientLpm = []"
  by (simp_all add: cl_inv_def cl_pend_def new_ClientLpm_def)

lemmas sp_stream = sfp.stream_of_chunks [OF sp_inv_new, unfolded sfp.end_status_def]

lemmas cl_stream = clp.stream_of_chunks [OF cl_inv_new, unfolded clp.end_status_def]

section \<open>A call that feeds a stream parser\<close>

text \<open>
  The server's client-streaming call and the client's three streaming calls use their parser the
  same way: \<open>on_data\<close> with a non-empty chunk does nothing once the call is closed, hands the
  messages on otherwise, and rejects the call with the parser's error. \<open>ok\<close> says that the call is
  one for which \<open>run\<close> is its parser.
\<close>

lemma stream_feed_error_stays:
  "\<not> is_ok st \<Longrightarrow> feeds (stream_feed run) (p, ms, st) chunks = Some (p, ms, st)"
  by (induction chunks) (simp_all add: stream_feed_def)

locale stream_user =
  fixes on_data :: "'s \<Rightarrow> bytes \<Rightarrow> 's option"
    and run :: "'p \<Rightarrow> bytes \<Rightarrow> ('p \<times> bytes list \<times> Status) option"
    and parser :: "'s \<Rightarrow> 'p"
    and accept :: "'p \<Rightarrow> bytes list \<Rightarrow> 's \<Rightarrow> 's"
    and closed :: "'s \<Rightarrow> bool"
    and reject :: "Status \<Rightarrow> 's \<Rightarrow> 's"
    and ok :: "'s \<Rightarrow> bool"
  assumes closed_data: "closed s \<Longrightarrow> on_data s c = Some s"
    and run_data: "ok s \<Longrightarrow> \<not> closed s \<Longrightarrow> c \<noteq> [] \<Longrightarrow> run (parser s) c = Some (p, ms, st) \<Longrightarrow>
          on_data s c = Some (if is_ok st then accept p ms s else reject st (accept p ms s))"
    and closed_reject: "closed (reject st s)"
    and accept_laws: "parser (accept p ms s) = p" "closed (accept p ms s) = closed s" "accept (parser s) [] s = s"
          "ok (accept p ms s) = ok s" "accept q ns (accept p ms s) = accept q (ms @ ns) s"
begin

lemma closed_stays: "closed s \<Longrightarrow> feeds on_data s chunks = Some s"
  by (induction chunks) (simp_all add: closed_data)

lemma follows_parser_from:
  assumes "ok s" "\<not> closed s" "list_all (\<lambda>c. c \<noteq> []) chunks" "is_ok st0"
    "feeds (stream_feed run) (parser s, ms0, st0) chunks = Some (p, msf, st)"
  shows "\<exists>ms. msf = ms0 @ ms
    \<and> feeds on_data s chunks = Some (if is_ok st then accept p ms s else reject st (accept p ms s))"
  using assms
proof (induction chunks arbitrary: s ms0 st0)
  case (Cons c chunks)
  obtain p1 m1 st1 where loop: "run (parser s) c = Some (p1, m1, st1)"
    and rest: "feeds (stream_feed run) (p1, ms0 @ m1, st1) chunks = Some (p, msf, st)"
    using Cons.prems(4,5) by (auto simp: stream_feed_def bind_eq_Some_conv)
  show ?case
  proof (cases "is_ok st1")
    case True
    then show ?thesis
      using Cons.IH [of "accept p1 m1 s" st1 "ms0 @ m1"] Cons.prems(1-3) rest run_data [OF _ _ _ loop]
      by (auto simp: accept_laws)
  next
    case False
    then show ?thesis
      using rest Cons.prems(1-3) run_data [OF _ _ _ loop]
      by (auto simp: stream_feed_error_stays closed_stays closed_reject)
  qed
qed (auto simp: accept_laws)

lemmas follows_parser = follows_parser_from [where ?ms0.0 = "[]" and ?st0.0 = status_ok, OF _ _ _ is_ok_status_ok, simplified]

end

section \<open>Properties\<close>

text \<open>
  C15: The server's streaming parser refines the one-shot reading of a message stream. Whatever
  the chunks are, feeding them to a new parser returns; the messages handed to the callback, the
  status (none, a reserved compression flag, a length above the limit) and the bytes of an
  unfinished frame are those of \<open>lpm_spec\<close> on the concatenated bytes.
\<close>

theorem streaming_parser_refines:
  "map_option (stream_view sp_pend) (feeds (stream_feed sp_loop) (new_StreamingFrameParser m, [], status_ok) chunks)
   = Some (case lpm_spec sp_accept m (concat chunks) of (ms, e) \<Rightarrow>
       (ms, (case e of Rest _ \<Rightarrow> status_ok
             | BadFlag \<Rightarrow> mk_status INVALID_ARGUMENT ''invalid LPM compression flag''
             | TooLong \<Rightarrow> mk_status RESOURCE_EXHAUSTED ''message length exceeds limit''), rest_of e))"
  using sp_stream [of m chunks] by (simp add: case_prod_unfold)

text \<open>
  The client's streaming parser refines the same specification, with every compression flag
  accepted.
\<close>

theorem client_parser_refines:
  "map_option (stream_view cl_pend) (feeds (stream_feed (client_lpm_loop m)) (new_ClientLpm, [], status_ok) chunks)
   = Some (case lpm_spec (\<lambda>_. True) m (concat chunks) of (ms, e) \<Rightarrow>
       (ms, (case e of Rest _ \<Rightarrow> status_ok | BadFlag \<Rightarrow> mk_status INTERNAL []
             | TooLong \<Rightarrow> mk_status RESOURCE_EXHAUSTED ''received message too large''), rest_of e))"
  using cl_stream [of m chunks] by (simp add: case_prod_unfold)

text \<open>
  Messages that fit the receiver's limit, framed by \<open>EncodeFrame\<close> and sent one after the
  other in any chunks, reach the other side unchanged, in order and completely, in both
  directions of a stream.
\<close>

theorem stream_roundtrip:
  assumes "list_all (\<lambda>p. length p \<le> m \<and> length p < 2 ^ 32) msgs" "concat chunks = framed msgs"
  shows "map_option (stream_view sp_pend) (feeds (stream_feed sp_loop) (new_StreamingFrameParser m, [], status_ok) chunks)
      = Some (msgs, status_ok, [])
    \<and> map_option (stream_view cl_pend) (feeds (stream_feed (client_lpm_loop m)) (new_ClientLpm, [], status_ok) chunks)
      = Some (msgs, status_ok, [])"
  using sp_stream [of m chunks] cl_stream [of m chunks] lpm_spec_framed [OF assms(1), of _ "[]"] assms(2)
  by (simp add: lpm_spec_short sp_accept_def)

theorem stream_roundtrip_witness:
  "map_option (stream_view sp_pend) (feeds (stream_feed sp_loop) (new_StreamingFrameParser 10, [], status_ok)
     [framed [''a''], framed [[], ''bc'']]) = Some ([''a'', [], ''bc''], status_ok, [])"
  using stream_roundtrip [of 10 "[''a'', [], ''bc'']" "[framed [''a''], framed [[], ''bc'']]"]
  by (simp add: framed_def)

end
