(* ===== verification/ServerBase.thy ===== *)
theory ServerBase
  imports Timeout Compression MetadataCodec StatusMap StreamQueue StreamParser
begin

text \<open>
  What the four server call states share: \<open>ServerContext\<close> (\<open>include/rpcpio/server_context.h\<close>),
  the request and response objects of nghttp2-asio as far as the sources use them, the response
  headers, and the reader and writer handles of \<open>src/server/raw_server_impls.{h,cc}\<close>.

  The calls a call state makes on the response object are recorded in order as \<open>resp_action\<close>s.
  A DATA generator passed to \<open>end\<close> is a function from its captured state and the room in the
  buffer to a \<open>gen_result\<close>; nghttp2 pulls it. The locale \<open>body_generator\<close> is the contract of the
  three generators of the library, \<open>single_response\<close> that of the \<open>responded_\<close> gates.
\<close>

section \<open>Requests, responses and the context\<close>

record HttpRequest =
  rq_header :: header_map
  rq_host :: string

datatype resp_action =
    WriteHead int header_map
  | EndStream
  | EndGenerator
  | WriteTrailer header_map
  | Resume

record ServerContext =
  sc_client_metadata :: MetadataMap
  sc_authority :: string
  sc_peer_identity :: "string option"
  sc_has_deadline :: bool
  sc_deadline :: int
  sc_initial_metadata :: MetadataMap
  sc_trailing_metadata :: MetadataMap
  sc_cancelled :: bool

definition new_ServerContext :: ServerContext where
  "new_ServerContext = \<lparr>sc_client_metadata = [], sc_authority = [], sc_peer_identity = None,
     sc_has_deadline = False, sc_deadline = 0, sc_initial_metadata = [], sc_trailing_metadata = [],
     sc_cancelled = False\<rparr>"

text \<open>\<open>AddInitialMetadata\<close> and \<open>AddTrailingMetadata\<close> pass on the exceptions of \<open>ValidateAndAdd\<close>.\<close>

definition AddInitialMetadata :: "string \<Rightarrow> string \<Rightarrow> ServerContext \<Rightarrow> cpp_exception + ServerContext" where
  "AddInitialMetadata k v c = (case ValidateAndAdd (sc_initial_metadata c) k v of
     Inl e \<Rightarrow> Inl e | Inr m \<Rightarrow> Inr (c\<lparr>sc_initial_metadata := m\<rparr>))"

definition AddTrailingMetadata :: "string \<Rightarrow> string \<Rightarrow> ServerContext \<Rightarrow> cpp_exception + ServerContext" where
  "AddTrailingMetadata k v c = (case ValidateAndAdd (sc_trailing_metadata c) k v of
     Inl e \<Rightarrow> Inl e | Inr m \<Rightarrow> Inr (c\<lparr>sc_trailing_metadata := m\<rparr>))"

definition trigger_cancel :: "ServerContext \<Rightarrow> ServerContext" where
  "trigger_cancel c = c\<lparr>sc_cancelled := True\<rparr>"

text \<open>
  Time points and durations are signed 64-bit counts of nanoseconds; a sum that leaves the range
  wraps (in C++ the signed overflow is undefined; two's complement is what the targets do).
\<close>

definition time_add :: "int \<Rightarrow> int \<Rightarrow> int" where
  "time_add t d = sint (of_int (t + d) :: 64 word)"

text \<open>
  The common prologue of the \<open>Start\<close> functions: authority, peer identity, and the deadline from
  \<open>grpc-timeout\<close>; the second component is the duration the deadline timer is armed with.
\<close>

definition set_peer :: "HttpRequest \<Rightarrow> string \<Rightarrow> ServerContext \<Rightarrow> ServerContext" where
  "set_peer req peer_identity c =
     (let c1 = c\<lparr>sc_authority := rq_host req\<rparr>
      in if peer_identity \<noteq> [] then c1\<lparr>sc_peer_identity := Some peer_identity\<rparr> else c1)"

definition arm_deadline :: "int \<Rightarrow> HttpRequest \<Rightarrow> ServerContext \<Rightarrow> ServerContext \<times> int option" where
  "arm_deadline now req c =
     (case mm_find (rq_header req) ''grpc-timeout'' of
        None \<Rightarrow> (c, None)
      | Some hv \<Rightarrow>
          (case ParseTimeout (hv_value hv) of
             None \<Rightarrow> (c, None)
           | Some dur \<Rightarrow>
               if dur > 0 then (c\<lparr>sc_deadline := time_add now dur, sc_has_deadline := True\<rparr>, Some dur)
               else (c, None)))"

lemma arm_deadline_sel [simp]:
  "sc_cancelled (fst (arm_deadline now req c)) = sc_cancelled c"
  "sc_client_metadata (fst (arm_deadline now req c)) = sc_client_metadata c"
  "sc_peer_identity (fst (arm_deadline now req c)) = sc_peer_identity c"
  "sc_initial_metadata (fst (arm_deadline now req c)) = sc_initial_metadata c"
  "sc_trailing_metadata (fst (arm_deadline now req c)) = sc_trailing_metadata c"
  by (simp_all add: arm_deadline_def split: option.split)

section \<open>Response headers\<close>

definition AddCommonHeaders :: "'z Zlib \<Rightarrow> header_map \<Rightarrow> header_map" where
  "AddCommonHeaders zl hdrs =
     mm_emplace ''grpc-accept-encoding'' (plain_value (AcceptEncodingValue zl))
       (mm_emplace ''content-type'' (plain_value ''application/grpc+proto'') hdrs)"

text \<open>The trailers-only head of an error.\<close>

definition error_head :: "'z Zlib \<Rightarrow> Status \<Rightarrow> header_map" where
  "error_head zl status = BuildTrailers status [] (AddCommonHeaders zl [])"

lemma AddCommonHeaders_sorted [simp]: "mm_sorted (AddCommonHeaders zl [])"
  unfolding AddCommonHeaders_def by (simp del: mm_emplace.simps)

lemma AddCommonHeaders_find [simp]:
  "mm_find (AddCommonHeaders zl []) ''grpc-status'' = None"
  "mm_find (AddCommonHeaders zl []) ''grpc-message'' = None"
  "mm_find (AddCommonHeaders zl []) ''grpc-status-details-bin'' = None"
  "mm_find (AddCommonHeaders zl []) ''content-type'' = Some (plain_value ''application/grpc+proto'')"
  unfolding AddCommonHeaders_def by (simp_all add: mm_find_emplace del: mm_emplace.simps)

lemma MetadataToNghttp2Headers_mm_sorted [simp]:
  "mm_sorted out \<Longrightarrow> mm_sorted (MetadataToNghttp2Headers md out)"
  unfolding MetadataToNghttp2Headers_fold by (rule mm.invar_fold)

text \<open>A head with metadata and a status, the trailers-only form of a handler's error.\<close>

lemma head_status:
  "ExtractTrailerStatus (BuildTrailers st tmd (MetadataToNghttp2Headers imd (AddCommonHeaders zl []))) = st"
  by (rule Extract_BuildTrailers) (simp_all add: find_reserved)

lemma error_head_status [simp]: "ExtractTrailerStatus (error_head zl st) = st"
  unfolding error_head_def by (rule Extract_BuildTrailers) simp_all

lemma reserved_content_type [simp]: "IsReservedKey ''content-type''"
  by (simp add: IsReservedKey_def)

lemma head_content_type:
  "mm_find (BuildTrailers st tmd (MetadataToNghttp2Headers imd (AddCommonHeaders zl []))) ''content-type''
     = Some (plain_value ''application/grpc+proto'')"
  by (subst BuildTrailers_find(4)) (simp_all add: find_reserved)

lemma error_head_content_type [simp]:
  "mm_find (error_head zl st) ''content-type'' = Some (plain_value ''application/grpc+proto'')"
  unfolding error_head_def by (subst BuildTrailers_find(4)) simp_all

section \<open>DATA generators\<close>

text \<open>
  One call of a generator: some bytes (the return value is their number), \<open>NGHTTP2_ERR_DEFERRED\<close>,
  the end of DATA with \<open>NO_END_STREAM\<close> set and the trailers written, or the end of DATA with the
  stream ended.
\<close>

datatype gen_result = GData bytes | GDeferred | GTrailers header_map | GEnd

fun pulls :: "('s \<Rightarrow> nat \<Rightarrow> gen_result \<times> 's) \<Rightarrow> 's \<Rightarrow> nat list \<Rightarrow> bytes \<times> gen_result option \<times> 's" where
  "pulls pull s [] = ([], None, s)"
| "pulls pull s (n # ns) =
     (case pull s n of
        (GData bs, s') \<Rightarrow> (case pulls pull s' ns of (out, r, s'') \<Rightarrow> (bs @ out, r, s''))
      | (g, s') \<Rightarrow> ([], Some g, s'))"

locale body_generator =
  fixes pull :: "'s \<Rightarrow> nat \<Rightarrow> gen_result \<times> 's"
    and rest :: "'s \<Rightarrow> bytes"
    and fin :: "'s \<Rightarrow> gen_result"
    and inv :: "'s \<Rightarrow> bool"
  assumes pull_data: "inv s \<Longrightarrow> rest s \<noteq> [] \<Longrightarrow> \<exists>bs s'. pull s n = (GData bs, s') \<and> inv s' \<and> rest s = bs @ rest s'
        \<and> fin s' = fin s \<and> length bs \<le> n \<and> (0 < n \<longrightarrow> bs \<noteq> [])"
    and pull_fin: "inv s \<Longrightarrow> rest s = [] \<Longrightarrow> pull s n = (fin s, s)"
    and fin_no_data: "fin s \<noteq> GData bs"
begin

text \<open>However small the buffers are, the bytes come out once, in order and completely.\<close>

lemma pulls_all:
  "inv s \<Longrightarrow> list_all (\<lambda>n. 0 < n) ns \<Longrightarrow> length (rest s) < length ns \<Longrightarrow>
     \<exists>s'. pulls pull s ns = (rest s, Some (fin s), s') \<and> inv s' \<and> rest s' = []"
proof (induction ns arbitrary: s)
  case (Cons n ns)
  show ?case
  proof (cases "rest s = []")
    case True
    then show ?thesis
      using pull_fin [OF Cons.prems(1) True, of n] fin_no_data [of s] Cons.prems(1)
      by (auto split: gen_result.split)
  next
    case False
    then obtain bs s' where s': "pull s n = (GData bs, s')" "inv s'" "rest s = bs @ rest s'" "fin s' = fin s" "bs \<noteq> []"
      using pull_data [OF Cons.prems(1) False, of n] Cons.prems(2) by auto
    then have "length (rest s') < length ns"
      using Cons.prems(3) by (cases bs) auto
    then show ?thesis
      using Cons.IH [OF s'(2)] Cons.prems(2) s' by auto
  qed
qed simp

lemma pulls_prefix: "inv s \<Longrightarrow> pulls pull s ns = (out, r, s') \<Longrightarrow> rest s = out @ rest s'"
proof (induction ns arbitrary: s out r s')
  case (Cons n ns)
  show ?case
  proof (cases "rest s = []")
    case True
    then show ?thesis
      using pull_fin [OF Cons.prems(1) True, of n] fin_no_data [of s] Cons.prems(2)
      by (auto split: gen_result.splits)
  next
    case False
    then obtain bs t where t: "pull s n = (GData bs, t)" "inv t" "rest s = bs @ rest t"
      using pull_data [OF Cons.prems(1) False, of n] by auto
    then obtain o' r' t' where "pulls pull t ns = (o', r', t')" "out = bs @ o'" "s' = t'"
      using Cons.prems(2) by (auto split: prod.splits)
    then show ?thesis
      using Cons.IH [OF t(2)] t(3) by auto
  qed
qed simp

end

text \<open>The generator of a single framed response (\<open>SendResponse\<close> of the unary and client-streaming calls).\<close>

record ResponseGen =
  rg_frame :: bytes
  rg_offset :: nat
  rg_trail_hdrs :: header_map

definition response_generate :: "ResponseGen \<Rightarrow> nat \<Rightarrow> gen_result \<times> ResponseGen" where
  "response_generate g len =
     (let remaining = length (rg_frame g) - rg_offset g
      in if remaining = 0 then (GTrailers (rg_trail_hdrs g), g)
         else let n = min remaining len
              in (GData (take n (drop (rg_offset g) (rg_frame g))), g\<lparr>rg_offset := rg_offset g + n\<rparr>))"

interpretation response_gen: body_generator response_generate
  "\<lambda>g. drop (rg_offset g) (rg_frame g)" "\<lambda>g. GTrailers (rg_trail_hdrs g)" "\<lambda>g. rg_offset g \<le> length (rg_frame g)"
proof
  fix g :: ResponseGen and n
  assume "rg_offset g \<le> length (rg_frame g)" "drop (rg_offset g) (rg_frame g) \<noteq> []"
  then show "\<exists>bs s'. response_generate g n = (GData bs, s') \<and> rg_offset s' \<le> length (rg_frame s')
      \<and> drop (rg_offset g) (rg_frame g) = bs @ drop (rg_offset s') (rg_frame s')
      \<and> GTrailers (rg_trail_hdrs s') = GTrailers (rg_trail_hdrs g) \<and> length bs \<le> n \<and> (0 < n \<longrightarrow> bs \<noteq> [])"
    using drop_split_at [of "rg_offset g" "rg_frame g"] by (auto simp: response_generate_def Let_def)
qed (simp_all add: response_generate_def)

section \<open>The server's writer\<close>

text \<open>
  \<open>RawServerWriterImpl\<close>. \<open>Write\<close> and \<open>Finish\<close> also return the calls they make on the response.
  The generator is the one of \<open>SendHeaders\<close> in the server-streaming and bidirectional calls.
\<close>

record RawServerWriterImpl =
  sw_max_response_size :: nat
  sw_pending :: "bytes list"
  sw_offset :: nat
  sw_finished :: bool
  sw_trail_hdrs :: header_map

definition new_RawServerWriterImpl :: "nat \<Rightarrow> RawServerWriterImpl" where
  "new_RawServerWriterImpl max_response_size = \<lparr>sw_max_response_size = max_response_size, sw_pending = [],
     sw_offset = 0, sw_finished = False, sw_trail_hdrs = []\<rparr>"

definition sw_Finish :: "Status \<Rightarrow> RawServerWriterImpl \<Rightarrow> RawServerWriterImpl \<times> resp_action list" where
  "sw_Finish status w =
     (if sw_finished w then (w, [])
      else (w\<lparr>sw_finished := True, sw_trail_hdrs := BuildTrailers status [] (sw_trail_hdrs w)\<rparr>, [Resume]))"

definition sw_Write :: "bytes \<Rightarrow> RawServerWriterImpl \<Rightarrow> Status \<times> RawServerWriterImpl \<times> resp_action list" where
  "sw_Write proto_bytes w =
     (if sw_finished w
      then (mk_status INTERNAL ''RawServerWriterImpl::Write called after Finish'', w, [])
      else if length proto_bytes > sw_max_response_size w
      then let st = mk_status RESOURCE_EXHAUSTED ''response message exceeds max_response_message_size'';
               (w', acts) = sw_Finish st w
           in (st, w', acts)
      else case EncodeFrame 0 proto_bytes of
        None \<Rightarrow> (mk_status RESOURCE_EXHAUSTED ''message too large to frame'', w, [])
      | Some frame \<Rightarrow> (status_ok, w\<lparr>sw_pending := sw_pending w @ [frame]\<rparr>, [Resume]))"

definition sw_generate :: "RawServerWriterImpl \<Rightarrow> nat \<Rightarrow> gen_result \<times> RawServerWriterImpl" where
  "sw_generate w len =
     (case sw_pending w of
        [] \<Rightarrow> if sw_finished w then (GTrailers (sw_trail_hdrs w), w) else (GDeferred, w)
      | front # frames \<Rightarrow>
          let remaining = length front - sw_offset w;
              n = min remaining len;
              w1 = w\<lparr>sw_offset := sw_offset w + n\<rparr>;
              w2 = (if sw_offset w1 = length front then w1\<lparr>sw_pending := frames, sw_offset := 0\<rparr> else w1)
          in (GData (take n (drop (sw_offset w) front)), w2))"

text \<open>\<open>RawServerWriter\<close>, the handle with an optional implementation behind it.\<close>

definition RawServerWriter_Write ::
  "bytes \<Rightarrow> RawServerWriterImpl option \<Rightarrow> Status \<times> RawServerWriterImpl option \<times> resp_action list" where
  "RawServerWriter_Write proto_bytes impl =
     (case impl of
        None \<Rightarrow> (mk_status INTERNAL ''RawServerWriter: not initialized'', None, [])
      | Some w \<Rightarrow> (case sw_Write proto_bytes w of (st, w', acts) \<Rightarrow> (st, Some w', acts)))"

definition RawServerWriter_Finish ::
  "Status \<Rightarrow> RawServerWriterImpl option \<Rightarrow> RawServerWriterImpl option \<times> resp_action list" where
  "RawServerWriter_Finish status impl =
     (case impl of None \<Rightarrow> (None, []) | Some w \<Rightarrow> (case sw_Finish status w of (w', acts) \<Rightarrow> (Some w', acts)))"

text \<open>\<open>RawServerReader::Read\<close>: \<open>None\<close> while the coroutine is suspended in \<open>Pop\<close>.\<close>

definition RawServerReader_Read ::
  "StreamMessageQueue \<Rightarrow> (Status \<times> bytes option) option \<times> StreamMessageQueue" where
  "RawServerReader_Read q =
     (case Pop q of
        (None, q') \<Rightarrow> (None, q')
      | (Some result, q') \<Rightarrow>
          (if \<not> pr_ok result then (Some (pr_status result, None), q')
           else if pr_eos result then (Some (status_ok, None), q')
           else (Some (status_ok, pr_data result), q')))"

text \<open>
  The bytes a queue of frames still has to send when \<open>off\<close> bytes of the first frame are gone, and
  what sending some of them leaves. Both writers drain their queue this way.
\<close>

definition frames_rest :: "nat \<Rightarrow> bytes list \<Rightarrow> bytes" where
  "frames_rest off frames = (case frames of [] \<Rightarrow> [] | f # fs \<Rightarrow> drop off f @ concat fs)"

definition frames_ok :: "nat \<Rightarrow> bytes list \<Rightarrow> bool" where
  "frames_ok off frames \<longleftrightarrow> list_all (\<lambda>f. f \<noteq> []) frames
     \<and> (case frames of [] \<Rightarrow> off = 0 | f # fs \<Rightarrow> off < length f)"

lemma frames_rest_append: "frames_ok off fs \<Longrightarrow> frames_rest off (fs @ gs) = frames_rest off fs @ concat gs"
  by (cases fs; cases gs) (simp_all add: frames_rest_def frames_ok_def)

lemma frames_ok_append: "frames_ok off fs \<Longrightarrow> list_all (\<lambda>f. f \<noteq> []) gs \<Longrightarrow> frames_ok off (fs @ gs)"
  by (cases fs; cases gs) (simp_all add: frames_ok_def)

lemma frames_rest_Nil: "frames_ok off frames \<Longrightarrow> frames_rest off frames = [] \<longleftrightarrow> frames = []"
  by (cases frames) (auto simp: frames_ok_def frames_rest_def)

lemma frames_pull:
  assumes "frames_ok off (f # fs)" "n \<le> length f - off"
  shows "frames_rest off (f # fs) = take n (drop off f)
      @ (if off + n = length f then frames_rest 0 fs else frames_rest (off + n) (f # fs))"
    and "if off + n = length f then frames_ok 0 fs else frames_ok (off + n) (f # fs)"
  using assms drop_split_at [of off f n]
  by (auto simp: frames_rest_def frames_ok_def split: list.splits)

abbreviation sw_rest :: "RawServerWriterImpl \<Rightarrow> bytes" where
  "sw_rest w \<equiv> frames_rest (sw_offset w) (sw_pending w)"

abbreviation sw_inv :: "RawServerWriterImpl \<Rightarrow> bool" where
  "sw_inv w \<equiv> frames_ok (sw_offset w) (sw_pending w)"

interpretation server_writer: body_generator sw_generate sw_rest
  "\<lambda>w. if sw_finished w then GTrailers (sw_trail_hdrs w) else GDeferred" sw_inv
proof
  fix w :: RawServerWriterImpl and n
  assume ok: "sw_inv w" and ne: "sw_rest w \<noteq> []"
  then obtain f fs where p: "sw_pending w = f # fs" by (cases "sw_pending w") (auto simp: frames_rest_def)
  have "sw_offset w < length f" using ok by (simp add: frames_ok_def p)
  then show "\<exists>bs s'. sw_generate w n = (GData bs, s') \<and> sw_inv s' \<and> sw_rest w = bs @ sw_rest s'
      \<and> (if sw_finished s' then GTrailers (sw_trail_hdrs s') else GDeferred)
        = (if sw_finished w then GTrailers (sw_trail_hdrs w) else GDeferred)
      \<and> length bs \<le> n \<and> (0 < n \<longrightarrow> bs \<noteq> [])"
    using frames_pull [OF ok [unfolded p], of "min (length f - sw_offset w) n"]
    by (auto simp: sw_generate_def p Let_def split: if_splits)
qed (auto simp: frames_rest_Nil sw_generate_def)

lemma sw_new [simp]:
  "sw_inv (new_RawServerWriterImpl m)" "sw_rest (new_RawServerWriterImpl m) = []"
  "\<not> sw_finished (new_RawServerWriterImpl m)" "sw_trail_hdrs (new_RawServerWriterImpl m) = []"
  "sw_max_response_size (new_RawServerWriterImpl m) = m"
  by (simp_all add: frames_ok_def frames_rest_def new_RawServerWriterImpl_def)

lemma sw_Write_frame:
  assumes "sw_inv w" "\<not> sw_finished w" "length m \<le> sw_max_response_size w" "length m < 2 ^ 32"
  shows "\<exists>w'. sw_Write m w = (status_ok, w', [Resume]) \<and> sw_inv w' \<and> \<not> sw_finished w'
    \<and> sw_max_response_size w' = sw_max_response_size w \<and> sw_trail_hdrs w' = sw_trail_hdrs w
    \<and> sw_rest w' = sw_rest w @ framed [m]"
proof -
  obtain fr where fr: "EncodeFrame 0 m = Some fr" "length fr = 5 + length m"
    using EncodeFrame_frame [OF assms(4), of 0] by metis
  then show ?thesis
    using assms by (auto simp: sw_Write_def framed_def frames_rest_append intro!: frames_ok_append)
qed

text \<open>Writing several messages; the statuses are those the handler sees.\<close>

fun sw_Writes :: "bytes list \<Rightarrow> RawServerWriterImpl \<Rightarrow> Status list \<times> RawServerWriterImpl" where
  "sw_Writes [] w = ([], w)"
| "sw_Writes (m # ms) w = (case sw_Write m w of (st, w', acts) \<Rightarrow>
     (case sw_Writes ms w' of (sts, w'') \<Rightarrow> (st # sts, w'')))"

lemma sw_Writes_frames:
  assumes "sw_inv w" "\<not> sw_finished w"
    "list_all (\<lambda>m. length m \<le> sw_max_response_size w \<and> length m < 2 ^ 32) msgs"
  shows "\<exists>w'. sw_Writes msgs w = (map (\<lambda>_. status_ok) msgs, w') \<and> sw_inv w' \<and> \<not> sw_finished w'
    \<and> sw_trail_hdrs w' = sw_trail_hdrs w \<and> sw_rest w' = sw_rest w @ framed msgs"
  using assms
proof (induction msgs arbitrary: w)
  case (Cons m msgs)
  obtain w1 where w1: "sw_Write m w = (status_ok, w1, [Resume])" "sw_inv w1" "\<not> sw_finished w1"
    "sw_max_response_size w1 = sw_max_response_size w" "sw_trail_hdrs w1 = sw_trail_hdrs w"
    "sw_rest w1 = sw_rest w @ framed [m]"
    using sw_Write_frame [OF Cons.prems(1,2), of m] Cons.prems(3) by auto
  then obtain w2 where "sw_Writes msgs w1 = (map (\<lambda>_. status_ok) msgs, w2)" "sw_inv w2" "\<not> sw_finished w2"
    "sw_trail_hdrs w2 = sw_trail_hdrs w1" "sw_rest w2 = sw_rest w1 @ framed msgs"
    using Cons.IH [of w1] Cons.prems(3) by auto
  then show ?case using w1 by (auto simp: framed_def)
qed (simp add: framed_def)

section \<open>The gate of a single response\<close>

definition resp_heads :: "resp_action list \<Rightarrow> header_map list" where
  "resp_heads acts = List.map_filter (\<lambda>a. case a of WriteHead _ h \<Rightarrow> Some h | _ \<Rightarrow> None) acts"

lemma resp_heads_simps [simp]:
  "resp_heads [] = []" "resp_heads (WriteHead c h # acts) = h # resp_heads acts"
  "resp_heads (EndStream # acts) = resp_heads acts" "resp_heads (EndGenerator # acts) = resp_heads acts"
  "resp_heads (WriteTrailer t # acts) = resp_heads acts" "resp_heads (Resume # acts) = resp_heads acts"
  "resp_heads (acts @ acts') = resp_heads acts @ resp_heads acts'"
  by (simp_all add: resp_heads_def map_filter_simps) (simp add: map_filter_def)

text \<open>
  The contract of a call state's \<open>responded_\<close> flag: a head is written only by the step that sets
  the flag, and never again afterwards.
\<close>

locale single_response =
  fixes step :: "'s \<Rightarrow> 's \<Rightarrow> bool"
    and responded :: "'s \<Rightarrow> bool"
    and sent :: "'s \<Rightarrow> resp_action list"
  assumes responded_stays: "step s s' \<Longrightarrow> responded s \<Longrightarrow> responded s' \<and> resp_heads (sent s') = resp_heads (sent s)"
    and first_head: "step s s' \<Longrightarrow> \<not> responded s \<Longrightarrow> resp_heads (sent s') = resp_heads (sent s)
          \<or> (responded s' \<and> (\<exists>h. resp_heads (sent s') = resp_heads (sent s) @ [h]))"
begin

lemma responded_run:
  "step\<^sup>*\<^sup>* s s' \<Longrightarrow> responded s \<Longrightarrow> responded s' \<and> resp_heads (sent s') = resp_heads (sent s)"
  by (induction rule: rtranclp_induct) (auto dest: responded_stays)

lemma at_most_one_head:
  "step\<^sup>*\<^sup>* s s' \<Longrightarrow> \<not> responded s \<Longrightarrow> resp_heads (sent s) = [] \<Longrightarrow>
     length (resp_heads (sent s')) \<le> 1 \<and> (\<not> responded s' \<longrightarrow> resp_heads (sent s') = [])"
proof (induction rule: rtranclp_induct)
  case (step y z)
  then show ?case
    using responded_stays [of y z] first_head [of y z] by (cases "responded y") auto
qed simp

end

section \<open>Properties\<close>

text \<open>
  What a streaming handler writes is what goes on the wire. Messages within the response
  limit are all accepted; after \<open>Finish\<close>, a generator pulled with non-empty buffers of any sizes
  emits exactly the framed messages in order, and then trailers that carry the final status.
\<close>

theorem server_writer_stream:
  assumes "list_all (\<lambda>m. length m \<le> max_response_size \<and> length m < 2 ^ 32) msgs"
    and "sw_Writes msgs (new_RawServerWriterImpl max_response_size) = (sts, w)"
    and "sw_Finish status w = (w', acts)"
    and "list_all (\<lambda>n. 0 < n) bufs" "length (framed msgs) < length bufs"
  shows "list_all is_ok sts
    \<and> (\<exists>trailers w''. pulls sw_generate w' bufs = (framed msgs, Some (GTrailers trailers), w'')
         \<and> ExtractTrailerStatus trailers = status)"
proof -
  have w: "sts = map (\<lambda>_. status_ok) msgs" "sw_inv w" "\<not> sw_finished w" "sw_trail_hdrs w = []" "sw_rest w = framed msgs"
    using sw_Writes_frames [of "new_RawServerWriterImpl max_response_size" msgs] assms(1,2) by auto
  then have w': "sw_inv w'" "sw_rest w' = framed msgs" "sw_finished w'" "sw_trail_hdrs w' = BuildTrailers status [] []"
    using assms(3) by (auto simp: sw_Finish_def)
  then show ?thesis
    using server_writer.pulls_all [OF w'(1) assms(4)] assms(5) w(1)
    by (auto simp: list_all_iff Extract_BuildTrailers)
qed

theorem server_writer_stream_witness:
  "\<exists>trailers w''. pulls sw_generate (fst (sw_Finish status_ok (snd (sw_Writes [''hi'', []] (new_RawServerWriterImpl 9)))))
       (replicate 20 3) = (framed [''hi'', []], Some (GTrailers trailers), w'')
     \<and> ExtractTrailerStatus trailers = status_ok"
  using server_writer_stream [of 9 "[''hi'', []]" _ _ status_ok _ _ "replicate 20 3", OF _ prod.collapse [symmetric] prod.collapse [symmetric]]
  by (simp add: framed_def EncodeFrame_def Let_def list_all_iff)

text \<open>
  A message above the response limit ends the stream: the handler gets
  \<open>RESOURCE_EXHAUSTED\<close>, the trailers carry that status, nothing of the message is queued, and
  every later \<open>Write\<close> is refused and every later \<open>Finish\<close> changes nothing.
\<close>

theorem server_writer_limit:
  assumes "\<not> sw_finished w" "sw_trail_hdrs w = []" "sw_max_response_size w < length m"
  shows "\<exists>w'. sw_Write m w = (mk_status RESOURCE_EXHAUSTED ''response message exceeds max_response_message_size'', w', [Resume])
    \<and> sw_finished w' \<and> sw_pending w' = sw_pending w
    \<and> status_code (ExtractTrailerStatus (sw_trail_hdrs w')) = RESOURCE_EXHAUSTED
    \<and> sw_Finish status w' = (w', [])
    \<and> (case sw_Write m' w' of (st, w'', acts) \<Rightarrow> \<not> is_ok st \<and> w'' = w' \<and> acts = [])"
  using assms by (auto simp: sw_Write_def sw_Finish_def Let_def Extract_BuildTrailers)

theorem server_writer_limit_witness:
  "\<exists>w'. sw_Write ''abc'' (new_RawServerWriterImpl 2)
      = (mk_status RESOURCE_EXHAUSTED ''response message exceeds max_response_message_size'', w', [Resume])
    \<and> sw_finished w' \<and> sw_pending w' = []"
  using server_writer_limit [of "new_RawServerWriterImpl 2" "''abc''" status_ok "[]"]
  by (auto simp: new_RawServerWriterImpl_def)

end
