(* ===== verification/ClientBase.thy ===== *)
theory ClientBase
  imports ServerBase
begin

text \<open>
  What the client's call states share: \<open>ClientContext\<close> (\<open>include/rpcpio/client_context.h\<close>), the
  reader and writer implementations of \<open>src/client/raw_client_impls.{h,cc}\<close>, the generator
  \<open>ClientWriterGenerator\<close> of \<open>src/client/channel_impl.cc\<close>, and the contract of a completion that
  fires once.

  \<open>Enqueue\<close> and \<open>MarkWritesDone\<close> post a task to the channel's strand, which runs its tasks in the
  order they were posted: \<open>cw_posted\<close> is that part of the strand's queue. \<open>cw_deferred\<close> says
  whether nghttp2 has been told \<open>NGHTTP2_ERR_DEFERRED\<close> and not been resumed since.
\<close>

section \<open>The context\<close>

record ClientContext =
  cc_deadline :: "int option"
  cc_send_metadata :: MetadataMap
  cc_max_recv_size :: nat
  cc_max_send_size :: nat
  cc_compression_algorithm :: string

definition new_ClientContext :: ClientContext where
  "new_ClientContext = \<lparr>cc_deadline = None, cc_send_metadata = [], cc_max_recv_size = 4 * 1024 * 1024,
     cc_max_send_size = 4 * 1024 * 1024, cc_compression_algorithm = ''identity''\<rparr>"

definition deadline_from_now :: "int \<Rightarrow> ClientContext \<Rightarrow> int" where
  "deadline_from_now now c = (case cc_deadline c of None \<Rightarrow> 2 ^ 63 - 1 | Some d \<Rightarrow> time_add d (- now))"

definition AddMetadata :: "string \<Rightarrow> string \<Rightarrow> ClientContext \<Rightarrow> cpp_exception + ClientContext" where
  "AddMetadata k v c = (case ValidateAndAdd (cc_send_metadata c) k v of
     Inl e \<Rightarrow> Inl e | Inr m \<Rightarrow> Inr (c\<lparr>cc_send_metadata := m\<rparr>))"

text \<open>
  What the call states read off a context that may be null: the receive limit, and the duration
  \<open>ArmTimer\<close> arms the deadline timer with.
\<close>

definition recv_limit :: "ClientContext option \<Rightarrow> nat" where
  "recv_limit ctx = (case ctx of Some c \<Rightarrow> cc_max_recv_size c | None \<Rightarrow> 4 * 1024 * 1024)"

definition arm_timer :: "int \<Rightarrow> ClientContext option \<Rightarrow> int option \<Rightarrow> int option" where
  "arm_timer now ctx tmr =
     (case ctx of
        None \<Rightarrow> tmr
      | Some c \<Rightarrow> if cc_deadline c = None then tmr
                  else let remaining = deadline_from_now now c in Some (if remaining > 0 then remaining else 0))"

section \<open>A completion that fires once\<close>

locale single_fire =
  fixes step :: "'s \<Rightarrow> 's \<Rightarrow> bool"
    and fired :: "'s \<Rightarrow> bool"
    and results :: "'s \<Rightarrow> 'r list"
  assumes fired_stays: "step s s' \<Longrightarrow> fired s \<Longrightarrow> fired s' \<and> results s' = results s"
    and fires: "step s s' \<Longrightarrow> \<not> fired s \<Longrightarrow>
          (if fired s' then \<exists>r. results s' = results s @ [r] else results s' = results s)"
begin

lemma settled: "step\<^sup>*\<^sup>* s s' \<Longrightarrow> fired s \<Longrightarrow> fired s' \<and> results s' = results s"
  by (induction rule: rtranclp_induct) (auto dest: fired_stays)

lemma fires_once:
  "step\<^sup>*\<^sup>* s s' \<Longrightarrow> \<not> fired s \<Longrightarrow> results s = [] \<Longrightarrow> length (results s') = (if fired s' then 1 else 0)"
proof (induction rule: rtranclp_induct)
  case (step y z)
  then show ?case
    using fired_stays [of y z] fires [of y z] by (cases "fired y") (auto split: if_splits)
qed simp

end

section \<open>The client's reader\<close>

record RawClientReaderImpl =
  cr_msg_queue :: StreamMessageQueue
  cr_final_status :: Status
  cr_status_ready :: bool

definition new_RawClientReaderImpl :: RawClientReaderImpl where
  "new_RawClientReaderImpl = \<lparr>cr_msg_queue = new_StreamMessageQueue, cr_final_status = status_ok,
     cr_status_ready = False\<rparr>"

definition cr_SetFinalStatus :: "Status \<Rightarrow> RawClientReaderImpl \<Rightarrow> RawClientReaderImpl" where
  "cr_SetFinalStatus s r = r\<lparr>cr_final_status := s, cr_status_ready := True\<rparr>"

text \<open>\<open>RawClientReader::Read\<close> and \<open>Finish\<close>: \<open>None\<close> while the coroutine is suspended or polls again.\<close>

definition RawClientReader_Read ::
  "RawClientReaderImpl \<Rightarrow> (Status \<times> bytes option) option \<times> RawClientReaderImpl" where
  "RawClientReader_Read r =
     (case Pop (cr_msg_queue r) of
        (None, q) \<Rightarrow> (None, r\<lparr>cr_msg_queue := q\<rparr>)
      | (Some result, q) \<Rightarrow>
          (if \<not> pr_ok result then (Some (pr_status result, None), r\<lparr>cr_msg_queue := q\<rparr>)
           else if pr_eos result then (Some (status_ok, None), r\<lparr>cr_msg_queue := q\<rparr>)
           else (Some (status_ok, pr_data result), r\<lparr>cr_msg_queue := q\<rparr>)))"

definition RawClientReader_Finish :: "RawClientReaderImpl \<Rightarrow> Status option" where
  "RawClientReader_Finish r = (if cr_status_ready r then Some (cr_final_status r) else None)"

section \<open>The client's writer\<close>

datatype writer_post = PushFrame bytes | SetWritesDone

record RawClientWriterImpl =
  cw_req :: bool
  cw_pending :: "bytes list"
  cw_offset :: nat
  cw_writes_done :: bool
  cw_response_bytes :: bytes
  cw_has_response :: bool
  cw_final_status :: Status
  cw_status_ready :: bool
  cw_posted :: "writer_post list"
  cw_deferred :: bool

definition new_RawClientWriterImpl :: RawClientWriterImpl where
  "new_RawClientWriterImpl = \<lparr>cw_req = False, cw_pending = [], cw_offset = 0, cw_writes_done = False,
     cw_response_bytes = [], cw_has_response = False, cw_final_status = status_ok, cw_status_ready = False,
     cw_posted = [], cw_deferred = False\<rparr>"

definition cw_SetFinalStatus :: "Status \<Rightarrow> RawClientWriterImpl \<Rightarrow> RawClientWriterImpl" where
  "cw_SetFinalStatus s w = w\<lparr>cw_final_status := s, cw_status_ready := True\<rparr>"

definition Enqueue :: "bytes \<Rightarrow> RawClientWriterImpl \<Rightarrow> Status \<times> RawClientWriterImpl" where
  "Enqueue proto_bytes w =
     (case EncodeFrame 0 proto_bytes of
        None \<Rightarrow> (mk_status RESOURCE_EXHAUSTED ''message too large'', w)
      | Some frame \<Rightarrow> (status_ok, w\<lparr>cw_posted := cw_posted w @ [PushFrame frame]\<rparr>))"

definition MarkWritesDone :: "RawClientWriterImpl \<Rightarrow> RawClientWriterImpl" where
  "MarkWritesDone w = w\<lparr>cw_posted := cw_posted w @ [SetWritesDone]\<rparr>"

definition req_resume :: "RawClientWriterImpl \<Rightarrow> RawClientWriterImpl" where
  "req_resume w = (if cw_req w then w\<lparr>cw_deferred := False\<rparr> else w)"

text \<open>The strand runs the next posted task.\<close>

definition cw_RunPosted :: "RawClientWriterImpl \<Rightarrow> RawClientWriterImpl" where
  "cw_RunPosted w =
     (case cw_posted w of
        [] \<Rightarrow> w
      | PushFrame frame # posted \<Rightarrow> req_resume (w\<lparr>cw_posted := posted, cw_pending := cw_pending w @ [frame]\<rparr>)
      | SetWritesDone # posted \<Rightarrow> req_resume (w\<lparr>cw_posted := posted, cw_writes_done := True\<rparr>))"

definition ClientWriterGenerator :: "RawClientWriterImpl \<Rightarrow> nat \<Rightarrow> gen_result \<times> RawClientWriterImpl" where
  "ClientWriterGenerator w len =
     (case cw_pending w of
        [] \<Rightarrow> if cw_writes_done w then (GEnd, w) else (GDeferred, w)
      | front # frames \<Rightarrow>
          let remaining = length front - cw_offset w;
              n = min remaining len;
              w1 = w\<lparr>cw_offset := cw_offset w + n\<rparr>;
              w2 = (if cw_offset w1 = length front then w1\<lparr>cw_pending := frames, cw_offset := 0\<rparr> else w1)
          in (GData (take n (drop (cw_offset w) front)), w2))"

definition RawClientWriter_Finish :: "RawClientWriterImpl \<Rightarrow> Status option" where
  "RawClientWriter_Finish w = (if cw_status_ready w then Some (cw_final_status w) else None)"

text \<open>nghttp2 calls the generator, and remembers that it was deferred.\<close>

definition cw_Pull :: "nat \<Rightarrow> RawClientWriterImpl \<Rightarrow> gen_result \<times> RawClientWriterImpl" where
  "cw_Pull len w =
     (case ClientWriterGenerator w len of
        (GDeferred, w') \<Rightarrow> (GDeferred, w'\<lparr>cw_deferred := True\<rparr>)
      | (r, w') \<Rightarrow> (r, w'))"

abbreviation cw_rest :: "RawClientWriterImpl \<Rightarrow> bytes" where
  "cw_rest w \<equiv> frames_rest (cw_offset w) (cw_pending w)"

abbreviation cw_inv :: "RawClientWriterImpl \<Rightarrow> bool" where
  "cw_inv w \<equiv> frames_ok (cw_offset w) (cw_pending w)"

interpretation client_writer: body_generator ClientWriterGenerator cw_rest
  "\<lambda>w. if cw_writes_done w then GEnd else GDeferred" cw_inv
proof
  fix w :: RawClientWriterImpl and n
  assume ok: "cw_inv w" and ne: "cw_rest w \<noteq> []"
  then obtain f fs where p: "cw_pending w = f # fs" by (cases "cw_pending w") (auto simp: frames_rest_def)
  have "cw_offset w < length f" using ok by (simp add: frames_ok_def p)
  then show "\<exists>bs s'. ClientWriterGenerator w n = (GData bs, s') \<and> cw_inv s' \<and> cw_rest w = bs @ cw_rest s'
      \<and> (if cw_writes_done s' then GEnd else GDeferred) = (if cw_writes_done w then GEnd else GDeferred)
      \<and> length bs \<le> n \<and> (0 < n \<longrightarrow> bs \<noteq> [])"
    using frames_pull [OF ok [unfolded p], of "min (length f - cw_offset w) n"]
    by (auto simp: ClientWriterGenerator_def p Let_def split: if_splits)
qed (auto simp: frames_rest_Nil ClientWriterGenerator_def)

section \<open>Interleavings of writes, the strand and the generator\<close>

datatype cw_event = CwWrite bytes | CwWritesDone | CwRun | CwPull nat

fun cw_step :: "cw_event \<Rightarrow> bytes \<times> RawClientWriterImpl \<Rightarrow> bytes \<times> RawClientWriterImpl" where
  "cw_step (CwWrite m) (out, w) = (out, snd (Enqueue m w))"
| "cw_step CwWritesDone (out, w) = (out, MarkWritesDone w)"
| "cw_step CwRun (out, w) = (out, cw_RunPosted w)"
| "cw_step (CwPull len) (out, w) =
     (case cw_Pull len w of (GData bs, w') \<Rightarrow> (out @ bs, w') | (_, w') \<Rightarrow> (out, w'))"

text \<open>A writer whose request was submitted, and the bytes its generator has given nghttp2.\<close>

definition cw_run :: "cw_event list \<Rightarrow> bytes \<times> RawClientWriterImpl" where
  "cw_run es = fold cw_step es ([], new_RawClientWriterImpl\<lparr>cw_req := True\<rparr>)"

text \<open>The messages accepted by \<open>Write\<close>, and those among them before the first \<open>WritesDone\<close>.\<close>

fun written :: "cw_event list \<Rightarrow> bytes list" where
  "written [] = []"
| "written (CwWrite m # es) = (if length m < 2 ^ 32 then m # written es else written es)"
| "written (_ # es) = written es"

definition before_done :: "cw_event list \<Rightarrow> bytes list" where
  "before_done es = written (takeWhile (\<lambda>e. e \<noteq> CwWritesDone) es)"

fun posted_bytes :: "writer_post list \<Rightarrow> bytes" where
  "posted_bytes [] = []"
| "posted_bytes (PushFrame f # ps) = f @ posted_bytes ps"
| "posted_bytes (SetWritesDone # ps) = posted_bytes ps"

lemma posted_bytes_append [simp]: "posted_bytes (ps @ qs) = posted_bytes ps @ posted_bytes qs"
  by (induction ps rule: posted_bytes.induct) simp_all

lemma written_append [simp]: "written (es @ fs) = written es @ written fs"
  by (induction es rule: written.induct) simp_all

lemma before_done_all: "CwWritesDone \<notin> set es \<Longrightarrow> before_done es = written es"
  unfolding before_done_def by (metis (mono_tags, lifting) takeWhile_eq_all_conv)

lemma before_done_snoc:
  "before_done (es @ [e]) = (if CwWritesDone \<in> set es then before_done es else before_done es @ written [e])"
proof (cases "CwWritesDone \<in> set es")
  case False
  then have "takeWhile (\<lambda>e. e \<noteq> CwWritesDone) (es @ [e]) = es @ takeWhile (\<lambda>e. e \<noteq> CwWritesDone) [e]"
    by (subst takeWhile_append2) auto
  then show ?thesis
    using False before_done_all [OF False] by (cases e) (simp_all add: before_done_def)
qed (simp add: before_done_def)

definition cw_good :: "cw_event list \<Rightarrow> bytes \<times> RawClientWriterImpl \<Rightarrow> bool" where
  "cw_good es = (\<lambda>(out, w). cw_inv w \<and> cw_req w
     \<and> (\<forall>f. PushFrame f \<in> set (cw_posted w) \<longrightarrow> f \<noteq> [])
     \<and> out @ cw_rest w @ posted_bytes (cw_posted w) = framed (written es)
     \<and> (cw_deferred w \<longrightarrow> cw_pending w = [] \<and> \<not> cw_writes_done w)
     \<and> (if CwWritesDone \<in> set es
        then if cw_writes_done w then \<exists>later. out @ cw_rest w = framed (before_done es) @ later
             else SetWritesDone \<in> set (cw_posted w)
               \<and> out @ cw_rest w @ posted_bytes (takeWhile (\<lambda>p. p \<noteq> SetWritesDone) (cw_posted w))
                 = framed (before_done es)
        else SetWritesDone \<notin> set (cw_posted w) \<and> \<not> cw_writes_done w))"

lemma cw_good_write:
  assumes "cw_good es (out, w)"
  shows "cw_good (es @ [CwWrite m]) (cw_step (CwWrite m) (out, w))"
proof (cases "length m < 2 ^ 32")
  case True
  obtain fr where fr: "EncodeFrame 0 m = Some fr" "length fr = 5 + length m"
    using EncodeFrame_frame [OF True, of 0] by metis
  then have m: "framed [m] = fr" by (simp add: framed_def)
  have "fr \<noteq> []" using fr(2) by auto
  then show ?thesis
    using assms True by (auto simp: cw_good_def Enqueue_def fr(1) framed_append m before_done_snoc takeWhile_append)
next
  case False
  then have "EncodeFrame 0 m = None" by (cases "EncodeFrame 0 m") (auto simp: EncodeFrame_Some)
  then show ?thesis
    using assms False by (auto simp: cw_good_def Enqueue_def before_done_snoc)
qed

lemma cw_good_done: "cw_good es (out, w) \<Longrightarrow> cw_good (es @ [CwWritesDone]) (cw_step CwWritesDone (out, w))"
  by (auto simp: cw_good_def MarkWritesDone_def before_done_snoc before_done_all takeWhile_append)

lemma cw_good_run: "cw_good es (out, w) \<Longrightarrow> cw_good (es @ [CwRun]) (cw_step CwRun (out, w))"
proof (cases "cw_posted w")
  case (Cons p ps)
  assume good: "cw_good es (out, w)"
  show ?thesis
  proof (cases p)
    case (PushFrame f)
    then have "f \<noteq> []" "cw_inv w" using good Cons by (auto simp: cw_good_def)
    then show ?thesis
      using good Cons PushFrame
      by (auto simp: cw_good_def cw_RunPosted_def req_resume_def before_done_snoc frames_rest_append
          intro!: frames_ok_append) (metis append_assoc)
  next
    case SetWritesDone
    then show ?thesis
      using good Cons
      by (auto simp: cw_good_def cw_RunPosted_def req_resume_def before_done_snoc split: if_splits)
  qed
qed (auto simp: cw_good_def cw_RunPosted_def before_done_snoc)

lemma cw_good_pull: "cw_good es (out, w) \<Longrightarrow> cw_good (es @ [CwPull n]) (cw_step (CwPull n) (out, w))"
proof (cases "cw_pending w = []")
  case True
  assume "cw_good es (out, w)"
  with True show ?thesis
    by (auto simp: cw_good_def cw_Pull_def ClientWriterGenerator_def before_done_snoc)
next
  case False
  assume good: "cw_good es (out, w)"
  then have "cw_inv w" "cw_rest w \<noteq> []" using False by (auto simp: cw_good_def frames_rest_Nil)
  then obtain bs w' where w': "ClientWriterGenerator w n = (GData bs, w')" "cw_inv w'" "cw_rest w = bs @ cw_rest w'"
    using client_writer.pull_data [of w n] by blast
  moreover have "cw_posted w' = cw_posted w" "cw_req w' = cw_req w" "cw_writes_done w' = cw_writes_done w"
    "cw_deferred w' = cw_deferred w"
    using w'(1) False by (auto simp: ClientWriterGenerator_def Let_def split: list.splits if_splits)
  ultimately show ?thesis
    using good False by (auto simp: cw_good_def cw_Pull_def before_done_snoc)
qed

lemma cw_run_good: "cw_good es (cw_run es)"
proof (induction es rule: rev_induct)
  case (snoc e es)
  obtain out w where r: "cw_run es = (out, w)" by fastforce
  have "cw_run (es @ [e]) = cw_step e (out, w)" using r by (simp add: cw_run_def)
  then show ?case
    using snoc.IH cw_good_write cw_good_done cw_good_run cw_good_pull by (cases e) (simp_all only: r)
qed (simp add: cw_good_def cw_run_def new_RawClientWriterImpl_def frames_ok_def frames_rest_def framed_def)

section \<open>Properties\<close>

text \<open>
  C19: What a streaming client writes is what it sends, in every interleaving of \<open>Write\<close>,
  \<open>WritesDone\<close>, the strand running the tasks they post, and nghttp2 pulling the generator with
  buffers of any sizes. The bytes given to nghttp2, then those queued, then those still posted
  are the frames of the accepted messages in order; when the generator ends the request stream,
  every message written before \<open>WritesDone\<close> has been sent; and no wake-up is lost, that is,
  a generator that is deferred and not resumed has nothing to send.
\<close>

theorem client_writer_interleaved:
  assumes "cw_run es = (out, w)"
  shows "out @ cw_rest w @ posted_bytes (cw_posted w) = framed (written es)
    \<and> (fst (cw_Pull n w) = GEnd \<longrightarrow> (\<exists>later. out = framed (before_done es) @ later))
    \<and> (cw_deferred w \<longrightarrow> cw_rest w = [] \<and> \<not> cw_writes_done w)"
proof -
  have good: "cw_good es (out, w)" using cw_run_good [of es] assms by simp
  have "cw_pending w = [] \<and> cw_writes_done w" if "fst (cw_Pull n w) = GEnd"
    using that by (auto simp: cw_Pull_def ClientWriterGenerator_def Let_def split: list.splits if_splits)
  then show ?thesis
    using good by (auto simp: cw_good_def frames_rest_def split: if_splits)
qed

theorem client_writer_interleaved_witness:
  "fst (cw_run [CwWrite ''a'', CwWritesDone, CwRun, CwPull 4, CwRun, CwPull 4]) = framed [''a'']"
proof -
  let ?es = "[CwWrite ''a'', CwWritesDone, CwRun, CwPull 4, CwRun, CwPull 4]"
  have run: "cw_rest (snd (cw_run ?es)) = [] \<and> cw_posted (snd (cw_run ?es)) = []"
    by (simp add: cw_run_def new_RawClientWriterImpl_def Enqueue_def EncodeFrame_def MarkWritesDone_def
        cw_RunPosted_def req_resume_def cw_Pull_def ClientWriterGenerator_def Let_def be32_bytes_def frames_rest_def)
  then show ?thesis
    using client_writer_interleaved [of ?es "fst (cw_run ?es)" "snd (cw_run ?es)" 1] by simp
qed

end
