(* ===== verification/UnaryClient.thy ===== *)
theory UnaryClient
  imports ClientBase
begin

text \<open>
  \<open>src/client/call_state.{h,cc}\<close>: one outbound unary call.

  The callbacks run on the channel's strand, so each is one atomic function on the state.
  \<open>Complete\<close> posts the completion callback with its argument; the results posted are recorded in
  \<open>uc_completions\<close>. \<open>uc_attached\<close> says that \<open>Attach\<close> has registered the data and trailer
  callbacks. \<open>OnData\<close> and \<open>OnTrailers\<close> are \<open>None\<close> when they do not return. What \<open>result_\<close> and
  the decoder hold after they are moved from is not modelled: the call is completed then, and
  every callback that would read them returns first.
\<close>

record ClientCallState =
  uc_ctx :: "ClientContext option"
  uc_timer :: "int option"
  uc_decoder :: FrameDecoder
  uc_result :: UnaryResultRaw
  uc_response_encoding :: "Encoding option"
  uc_completed :: bool
  uc_attached :: bool
  uc_trailers_done :: bool
  uc_completions :: "UnaryResultRaw list"

definition new_ClientCallState :: "ClientContext option \<Rightarrow> ClientCallState" where
  "new_ClientCallState ctx = \<lparr>uc_ctx = ctx, uc_timer = None, uc_decoder = new_FrameDecoder (recv_limit ctx),
     uc_result = raw_result status_ok, uc_response_encoding = None, uc_completed = False, uc_attached = False,
     uc_trailers_done = False, uc_completions = []\<rparr>"

definition uc_ArmTimer :: "int \<Rightarrow> ClientCallState \<Rightarrow> ClientCallState" where
  "uc_ArmTimer now s = s\<lparr>uc_timer := arm_timer now (uc_ctx s) (uc_timer s)\<rparr>"

definition uc_Complete :: "UnaryResultRaw \<Rightarrow> ClientCallState \<Rightarrow> ClientCallState" where
  "uc_Complete result s =
     (if uc_completed s then s
      else s\<lparr>uc_completed := True, uc_timer := None, uc_completions := uc_completions s @ [result]\<rparr>)"

definition uc_OnTimer :: "bool \<Rightarrow> ClientCallState \<Rightarrow> ClientCallState" where
  "uc_OnTimer aborted s =
     (if aborted then s else uc_Complete (raw_result (mk_status DEADLINE_EXCEEDED ''deadline exceeded'')) s)"

definition uc_Fail :: "Status \<Rightarrow> ClientCallState \<Rightarrow> ClientCallState" where
  "uc_Fail status s = uc_Complete (raw_result status) s"

definition uc_Cancel :: "ClientCallState \<Rightarrow> ClientCallState" where
  "uc_Cancel s = uc_Complete (raw_result (mk_status CANCELLED ''call cancelled'')) s"

text \<open>The status of a stream that closes without trailers.\<close>

definition close_status :: "u32 \<Rightarrow> Status" where
  "close_status error_code =
     (if error_code = 0 then mk_status UNKNOWN ''missing grpc-status''
      else mk_status (Http2ErrorCodeToStatusCode error_code)
             (''RST_STREAM error_code='' @ int_to_string (uint error_code)))"

definition uc_OnStreamClose :: "u32 \<Rightarrow> ClientCallState \<Rightarrow> ClientCallState" where
  "uc_OnStreamClose error_code s =
     (if uc_completed s then s
      else if \<not> uc_trailers_done s then uc_Complete (raw_result (close_status error_code)) s
      else s)"

definition is_grpc_head :: "header_map \<Rightarrow> bool" where
  "is_grpc_head hdrs = (case mm_find hdrs ''content-type'' of None \<Rightarrow> False
     | Some hv \<Rightarrow> str_contains ''application/grpc'' (hv_value hv))"

definition uc_Attach :: "'z Zlib \<Rightarrow> int \<Rightarrow> header_map \<Rightarrow> ClientCallState \<Rightarrow> ClientCallState" where
  "uc_Attach zl http_status hdrs s =
     (let imd = snd (Nghttp2HeadersToMetadata hdrs (rr_initial_metadata (uc_result s)) kMaxMetadataSize);
          s1 = s\<lparr>uc_result := (uc_result s)\<lparr>rr_initial_metadata := imd\<rparr>\<rparr>;
          http_failed = (raw_result (FromHttpStatus http_status))\<lparr>rr_initial_metadata := imd\<rparr>;
          enc_it = mm_find hdrs ''grpc-encoding'';
          unsupported = (case enc_it of None \<Rightarrow> None
            | Some hv \<Rightarrow> if hv_value hv \<noteq> ''identity'' \<and> ParseEncoding zl (hv_value hv) = None
                         then Some (hv_value hv) else None)
      in if \<not> is_grpc_head hdrs then uc_Complete http_failed s1
         else if http_status \<noteq> 200 then uc_Complete http_failed s1
         else case unsupported of
           Some v \<Rightarrow> uc_Complete (raw_result (mk_status UNIMPLEMENTED (''unsupported grpc-encoding: '' @ v))) s1
         | None \<Rightarrow>
             let s2 = (case enc_it of None \<Rightarrow> s1
                   | Some hv \<Rightarrow> if hv_value hv \<noteq> ''identity''
                                then s1\<lparr>uc_response_encoding := ParseEncoding zl (hv_value hv)\<rparr> else s1)
             in if mm_find hdrs ''grpc-status'' \<noteq> None then
                  let r = (uc_result s2)\<lparr>rr_status := ExtractTrailerStatus hdrs,
                        rr_trailing_metadata := snd (Nghttp2HeadersToMetadata hdrs
                          (rr_trailing_metadata (uc_result s2)) kMaxMetadataSize)\<rparr>
                  in uc_Complete r (s2\<lparr>uc_result := r\<rparr>)
                else s2\<lparr>uc_attached := True\<rparr>)"

definition frame_error :: "FrameDecoder \<Rightarrow> UnaryResultRaw" where
  "frame_error d = raw_result (mk_status (if fd_limit_exceeded d then RESOURCE_EXHAUSTED else INTERNAL)
     (''frame error: '' @ fd_error_message d))"

definition uc_OnData :: "bytes \<Rightarrow> ClientCallState \<Rightarrow> ClientCallState option" where
  "uc_OnData copy s =
     (if uc_completed s then Some s
      else if copy = [] then
        let d = MarkEos (uc_decoder s); s1 = s\<lparr>uc_decoder := d\<rparr>
        in Some (if fd_error d then uc_Complete (frame_error d) s1 else s1)
      else
        case Feed (uc_decoder s) copy of
          None \<Rightarrow> None
        | Some d \<Rightarrow>
            let s1 = s\<lparr>uc_decoder := d\<rparr>
            in Some (if fd_error d then uc_Complete (frame_error d) s1 else s1))"

definition uc_OnTrailers :: "'z Zlib \<Rightarrow> header_map \<Rightarrow> ClientCallState \<Rightarrow> ClientCallState option" where
  "uc_OnTrailers zl trailers s =
     (if uc_completed s then Some s
      else
        let r1 = (uc_result s)\<lparr>rr_status := ExtractTrailerStatus trailers,
                   rr_trailing_metadata := snd (Nghttp2HeadersToMetadata trailers
                     (rr_trailing_metadata (uc_result s)) kMaxMetadataSize)\<rparr>;
            s1 = s\<lparr>uc_trailers_done := True, uc_result := r1\<rparr>
        in if \<not> is_ok (rr_status r1) then Some (uc_Complete r1 s1)
           else
             let raw_payload = (if fd_done (uc_decoder s1) then fd_payload (uc_decoder s1) else []);
                 deliver = (\<lambda>bs s2. let r2 = r1\<lparr>rr_response_bytes := bs, rr_has_response := fd_done (uc_decoder s2)\<rparr>
                                   in uc_Complete r2 (s2\<lparr>uc_result := r2\<rparr>))
             in case uc_response_encoding s1 of
                  Some enc \<Rightarrow>
                    if enc \<noteq> kIdentity \<and> fd_compress_flag (uc_decoder s1) \<noteq> 0 then
                      (case Decompress zl enc raw_payload (recv_limit (uc_ctx s1)) of
                         None \<Rightarrow> None
                       | Some None \<Rightarrow>
                           Some (uc_Complete (raw_result (mk_status INTERNAL ''response decompression failed'')) s1)
                       | Some (Some decompressed) \<Rightarrow> Some (deliver decompressed s1))
                    else
                      (case TakePayload (uc_decoder s1) of
                         (bs, d) \<Rightarrow> Some (deliver bs (s1\<lparr>uc_decoder := d\<rparr>)))
                | None \<Rightarrow>
                    (case TakePayload (uc_decoder s1) of
                       (bs, d) \<Rightarrow> Some (deliver bs (s1\<lparr>uc_decoder := d\<rparr>))))"

section \<open>Steps\<close>

inductive uc_step :: "'z Zlib \<Rightarrow> ClientCallState \<Rightarrow> ClientCallState \<Rightarrow> bool" for zl where
  uc_attach: "uc_step zl s (uc_Attach zl http_status hdrs s)"
| uc_data: "uc_attached s \<Longrightarrow> uc_OnData copy s = Some s' \<Longrightarrow> uc_step zl s s'"
| uc_trailers: "uc_attached s \<Longrightarrow> uc_OnTrailers zl trailers s = Some s' \<Longrightarrow> uc_step zl s s'"
| uc_arm: "uc_step zl s (uc_ArmTimer now s)"
| uc_timer: "uc_step zl s (uc_OnTimer aborted s)"
| uc_cancel: "uc_step zl s (uc_Cancel s)"
| uc_fail: "uc_step zl s (uc_Fail status s)"
| uc_close: "uc_step zl s (uc_OnStreamClose error_code s)"

lemma uc_Complete_sel [simp]:
  "uc_completed (uc_Complete r s)"
  "uc_completions (uc_Complete r s) = (if uc_completed s then uc_completions s else uc_completions s @ [r])"
  "uc_trailers_done (uc_Complete r s) = uc_trailers_done s"
  by (simp_all add: uc_Complete_def)

text \<open>What every callback does to the gate; after trailers the call is completed.\<close>

definition uc_gate :: "ClientCallState \<Rightarrow> ClientCallState \<Rightarrow> bool" where
  "uc_gate s s' \<longleftrightarrow>
     (if uc_completed s then uc_completed s' \<and> uc_completions s' = uc_completions s
      else if uc_completed s' then \<exists>r. uc_completions s' = uc_completions s @ [r]
      else uc_completions s' = uc_completions s)
     \<and> (uc_trailers_done s' \<longrightarrow> uc_trailers_done s \<or> uc_completed s')"

lemma uc_gate_Attach: "uc_gate s (uc_Attach zl http_status hdrs s)"
  by (simp add: uc_gate_def uc_Attach_def Let_def split: option.split)

lemma uc_gate_OnData: "uc_OnData copy s = Some s' \<Longrightarrow> uc_gate s s'"
  by (auto simp: uc_gate_def uc_OnData_def Let_def split: if_splits option.splits)

lemma uc_gate_OnTrailers: "uc_OnTrailers zl t s = Some s' \<Longrightarrow> uc_gate s s'"
  by (auto simp: uc_gate_def uc_OnTrailers_def TakePayload_def Let_def split: if_splits option.splits)

lemma uc_step_gate: "uc_step zl s s' \<Longrightarrow> uc_gate s s'"
  by (induction rule: uc_step.induct)
    (auto simp: uc_gate_Attach uc_gate_OnData uc_gate_OnTrailers,
     auto simp: uc_gate_def uc_ArmTimer_def uc_OnTimer_def uc_Cancel_def uc_Fail_def uc_OnStreamClose_def)

interpretation unary_client: single_fire "uc_step zl" uc_completed uc_completions for zl
  by unfold_locales (auto dest!: uc_step_gate simp: uc_gate_def split: if_splits)

lemma uc_trailers_completed:
  "(uc_step zl)\<^sup>*\<^sup>* s s' \<Longrightarrow> (uc_trailers_done s \<longrightarrow> uc_completed s) \<Longrightarrow> uc_trailers_done s' \<longrightarrow> uc_completed s'"
  by (induction rule: rtranclp_induct) (auto dest!: uc_step_gate simp: uc_gate_def split: if_splits)

section \<open>The response\<close>

interpretation uc_data: decoder_user "\<lambda>s copy. uc_OnData copy s" uc_decoder
  "\<lambda>d. uc_decoder_update (\<lambda>_. d)" uc_completed "\<lambda>d. uc_Complete (frame_error d)"
  by unfold_locales (simp_all add: uc_OnData_def Let_def)

text \<open>
  What a client makes of a response body and the status in the trailers. \<open>Answer\<close> is a result
  with that status and, when there is one, the message.
\<close>

datatype response_outcome = Answer Status "bytes option" | Broken StatusCode | NoReturn

definition response_spec :: "'z Zlib \<Rightarrow> Encoding option \<Rightarrow> nat \<Rightarrow> bytes \<Rightarrow> Status \<Rightarrow> response_outcome" where
  "response_spec zl enc m body st =
     (case decode_spec m body of
        FrameError limit \<Rightarrow> Broken (if limit then RESOURCE_EXHAUSTED else INTERNAL)
      | NoMessage \<Rightarrow> Answer st None
      | Message flag payload \<Rightarrow>
          if \<not> is_ok st then Answer st None
          else if enc = Some kGzip \<and> flag \<noteq> 0 then
            (case Decompress zl kGzip payload m of
               None \<Rightarrow> NoReturn | Some None \<Rightarrow> Broken INTERNAL | Some (Some bs) \<Rightarrow> Answer st (Some bs))
          else Answer st (Some payload))"

text \<open>The body in chunks, possibly the empty chunk that signals its end, and the trailers.\<close>

definition uc_exchange :: "'z Zlib \<Rightarrow> ClientCallState \<Rightarrow> bytes list \<Rightarrow> bool \<Rightarrow> header_map \<Rightarrow> ClientCallState option" where
  "uc_exchange zl s chunks eos trailers =
     Option.bind (feeds (\<lambda>s copy. uc_OnData copy s) s (chunks @ (if eos then [[]] else []))) (uc_OnTrailers zl trailers)"

definition uc_answer :: "header_map \<Rightarrow> ClientCallState \<Rightarrow> response_outcome \<Rightarrow> ClientCallState option \<Rightarrow> bool" where
  "uc_answer trailers s r res \<longleftrightarrow>
     (case r of
        NoReturn \<Rightarrow> res = None
      | Broken c \<Rightarrow> \<exists>s' r. res = Some s' \<and> uc_completions s' = uc_completions s @ [r]
          \<and> status_code (rr_status r) = c \<and> \<not> rr_has_response r
      | Answer st bs \<Rightarrow> \<exists>s' r. res = Some s' \<and> uc_completions s' = uc_completions s @ [r]
          \<and> rr_status r = st \<and> rr_has_response r = (bs \<noteq> None) \<and> (bs = None \<or> bs = Some (rr_response_bytes r))
          \<and> rr_initial_metadata r = rr_initial_metadata (uc_result s)
          \<and> rr_trailing_metadata r = snd (Nghttp2HeadersToMetadata trailers [] kMaxMetadataSize))"

lemma uc_OnTrailers_done:
  assumes "\<not> uc_completed s" "fd_done (uc_decoder s)" "rr_trailing_metadata (uc_result s) = []" "\<not> rr_has_response (uc_result s)"
  shows "uc_answer t s
     (let st = ExtractTrailerStatus t; d = uc_decoder s
      in if \<not> is_ok st then Answer st None
         else if uc_response_encoding s = Some kGzip \<and> fd_compress_flag d \<noteq> 0 then
           (case Decompress zl kGzip (fd_payload d) (recv_limit (uc_ctx s)) of
              None \<Rightarrow> NoReturn | Some None \<Rightarrow> Broken INTERNAL | Some (Some bs) \<Rightarrow> Answer st (Some bs))
         else Answer st (Some (fd_payload d)))
     (uc_OnTrailers zl t s)"
proof (cases "uc_response_encoding s")
  case (Some enc)
  then show ?thesis
    using assms by (cases enc) (simp_all add: uc_answer_def uc_OnTrailers_def TakePayload_def Let_def split: option.split)
qed (use assms in \<open>simp add: uc_answer_def uc_OnTrailers_def TakePayload_def Let_def\<close>)

lemma uc_OnTrailers_none:
  assumes "\<not> uc_completed s" "uc_decoder s = new_FrameDecoder m" "rr_trailing_metadata (uc_result s) = []"
    "\<not> rr_has_response (uc_result s)"
  shows "uc_answer t s (Answer (ExtractTrailerStatus t) None) (uc_OnTrailers zl t s)"
  using assms
  by (simp add: uc_answer_def uc_OnTrailers_def TakePayload_def new_FrameDecoder_def Let_def split: option.split)

lemma uc_answer_cong:
  "uc_answer t (s\<lparr>uc_decoder := d\<rparr>) r res = uc_answer t s r res"
  by (cases r) (simp_all add: uc_answer_def)

lemma uc_broken:
  assumes "\<not> uc_completed s"
  shows "uc_answer t s (Broken (if fd_limit_exceeded d then RESOURCE_EXHAUSTED else INTERNAL))
    (Option.bind (feeds (\<lambda>s copy. uc_OnData copy s) (uc_Complete (frame_error d) (s\<lparr>uc_decoder := e\<rparr>)) cs) (uc_OnTrailers zl t))"
  using assms
  by (simp add: uc_data.closed_stays uc_answer_def uc_OnTrailers_def frame_error_def)

lemma decode_spec_NoMessage: "decode_spec m body = NoMessage \<longleftrightarrow> body = []"
  by (simp add: decode_spec_def Let_def)

lemma uc_OnData_end:
  "\<not> uc_completed s \<Longrightarrow> uc_OnData [] s = Some (if fd_error (MarkEos (uc_decoder s))
     then uc_Complete (frame_error (MarkEos (uc_decoder s))) (s\<lparr>uc_decoder := MarkEos (uc_decoder s)\<rparr>)
     else s\<lparr>uc_decoder := MarkEos (uc_decoder s)\<rparr>)"
  by (simp add: uc_OnData_def Let_def)

lemma uc_exchange_end:
  assumes "\<not> uc_completed s" "rr_trailing_metadata (uc_result s) = []" "\<not> rr_has_response (uc_result s)"
    and "\<not> fd_error d" "outcome (MarkEos d) = decode_spec (recv_limit (uc_ctx s)) body"
    and "body = [] \<Longrightarrow> d = new_FrameDecoder m" "eos \<or> (\<exists>flag p. decode_spec (recv_limit (uc_ctx s)) body = Message flag p)"
  shows "uc_answer t s (response_spec zl (uc_response_encoding s) (recv_limit (uc_ctx s)) body (ExtractTrailerStatus t))
    (uc_exchange zl (s\<lparr>uc_decoder := d\<rparr>) [] eos t)"
proof (cases "fd_state (MarkEos d)")
  case kDone
  then have "fd_done d" by (rule contrapos_pp) (simp add: MarkEos_def SetError_def)
  then have d: "MarkEos d = d" "fd_done d" by (simp_all add: MarkEos_def)
  then have "uc_exchange zl (s\<lparr>uc_decoder := d\<rparr>) [] eos t = uc_OnTrailers zl t (s\<lparr>uc_decoder := d\<rparr>)"
    using assms(1) by (simp add: uc_exchange_def uc_OnData_end)
  moreover have "decode_spec (recv_limit (uc_ctx s)) body = Message (fd_compress_flag d) (fd_payload d)"
    using assms(5) d by (simp add: outcome_def)
  ultimately show ?thesis
    using uc_OnTrailers_done [of "s\<lparr>uc_decoder := d\<rparr>" t zl] assms(1-3) d(2)
    by (simp add: response_spec_def uc_answer_cong Let_def cong: if_cong option.case_cong)
next
  case kError
  then have "decode_spec (recv_limit (uc_ctx s)) body = FrameError (fd_limit_exceeded (MarkEos d))"
    using assms(5) by (simp add: outcome_def)
  then show ?thesis
    using uc_broken [OF assms(1), of t "MarkEos d" "MarkEos d" "[]" zl] assms(1,7) kError
    by (simp add: response_spec_def uc_exchange_def uc_OnData_end)
next
  case kAwaitingHeader
  then have body: "decode_spec (recv_limit (uc_ctx s)) body = NoMessage"
    using assms(5) by (simp add: outcome_def)
  then have d: "d = new_FrameDecoder m" "MarkEos d = d"
    using assms(6) by (auto simp: decode_spec_NoMessage MarkEos_def new_FrameDecoder_def)
  then have "uc_exchange zl (s\<lparr>uc_decoder := d\<rparr>) [] eos t = uc_OnTrailers zl t (s\<lparr>uc_decoder := d\<rparr>)"
    using assms(1,4) by (simp add: uc_exchange_def uc_OnData_end)
  then show ?thesis
    using uc_OnTrailers_none [of "s\<lparr>uc_decoder := d\<rparr>" m t zl] assms(1-3) body d(1)
    by (simp add: response_spec_def uc_answer_cong)
next
  case kAwaitingPayload
  then show ?thesis by (auto simp: MarkEos_def SetError_def split: if_splits)
qed

lemma uc_exchange_answer:
  assumes "\<not> uc_completed s" "rr_trailing_metadata (uc_result s) = []" "\<not> rr_has_response (uc_result s)"
    and "uc_decoder s = new_FrameDecoder (recv_limit (uc_ctx s))" "list_all (\<lambda>c. c \<noteq> []) chunks"
    and "eos \<or> (\<exists>flag p. decode_spec (recv_limit (uc_ctx s)) (concat chunks) = Message flag p)"
  shows "uc_answer t s
    (response_spec zl (uc_response_encoding s) (recv_limit (uc_ctx s)) (concat chunks) (ExtractTrailerStatus t))
    (uc_exchange zl s chunks eos t)"
proof -
  have ok: "decoder_ok (uc_decoder s)" "\<not> fd_error (uc_decoder s)"
    by (simp_all add: assms(4)) (simp add: new_FrameDecoder_def)
  obtain d where d: "feeds Feed (uc_decoder s) chunks = Some d"
    using frame_decoder.feeds_returns [OF ok(1)] by blast
  have spec: "outcome (MarkEos d) = decode_spec (recv_limit (uc_ctx s)) (concat chunks)"
    using feeds_outcome [of "recv_limit (uc_ctx s)" chunks] d by (simp add: assms(4))
  note run = uc_data.follows_decoder [OF assms(1) ok assms(5) d]
  show ?thesis
  proof (cases "fd_error d")
    case True
    then have "decode_spec (recv_limit (uc_ctx s)) (concat chunks) = FrameError (fd_limit_exceeded d)"
      using spec by (simp add: outcome_def MarkEos_def)
    then show ?thesis
      using uc_broken [OF assms(1), of t d d "if eos then [[]] else []" zl] run True
      by (simp add: response_spec_def uc_exchange_def feeds_append)
  next
    case False
    have "concat chunks = [] \<Longrightarrow> chunks = []" using assms(5) by (cases chunks) auto
    then have "concat chunks = [] \<Longrightarrow> d = new_FrameDecoder (recv_limit (uc_ctx s))"
      using d assms(4) by simp
    then show ?thesis
      using uc_exchange_end [OF assms(1-3) False spec _ assms(6), of _ t zl] run False
      by (simp add: uc_exchange_def feeds_append)
  qed
qed

lemma uc_Attach_open:
  assumes "\<not> uc_completed (uc_Attach zl 200 h (new_ClientCallState ctx))"
  shows "uc_decoder (uc_Attach zl 200 h (new_ClientCallState ctx)) = new_FrameDecoder (recv_limit ctx)"
    and "uc_ctx (uc_Attach zl 200 h (new_ClientCallState ctx)) = ctx"
    and "uc_completions (uc_Attach zl 200 h (new_ClientCallState ctx)) = []"
    and "rr_trailing_metadata (uc_result (uc_Attach zl 200 h (new_ClientCallState ctx))) = []"
    and "\<not> rr_has_response (uc_result (uc_Attach zl 200 h (new_ClientCallState ctx)))"
    and "rr_initial_metadata (uc_result (uc_Attach zl 200 h (new_ClientCallState ctx)))
      = snd (Nghttp2HeadersToMetadata h [] kMaxMetadataSize)"
    and "uc_response_encoding (uc_Attach zl 200 h (new_ClientCallState ctx)) =
      (case mm_find h ''grpc-encoding'' of None \<Rightarrow> None
       | Some hv \<Rightarrow> if hv_value hv = ''identity'' then None else ParseEncoding zl (hv_value hv))"
  using assms
  by (auto simp: uc_Attach_def new_ClientCallState_def Let_def split: if_splits option.splits)

section \<open>Properties\<close>

text \<open>
  C17: A unary call completes exactly once. In every interleaving of the response head, DATA
  chunks, trailers, the deadline timer, cancellation, failure by the channel and the close of the
  stream, the completion callback is posted at most once, and exactly once when \<open>completed_\<close> is
  set; and the close of the stream completes every call that is not yet completed, with UNKNOWN
  or the mapped RST_STREAM code, so no call is left pending.
\<close>

theorem unary_client_completes_once:
  assumes "(uc_step zl)\<^sup>*\<^sup>* (new_ClientCallState ctx) s"
  shows "length (uc_completions s) = (if uc_completed s then 1 else 0)
    \<and> uc_completions (uc_OnStreamClose error_code s) =
        (if uc_completed s then uc_completions s else [raw_result (close_status error_code)])
    \<and> uc_completed (uc_OnStreamClose error_code s)"
proof -
  have "length (uc_completions s) = (if uc_completed s then 1 else 0)"
    using unary_client.fires_once [OF assms] by (simp add: new_ClientCallState_def)
  moreover have "uc_trailers_done s \<longrightarrow> uc_completed s"
    using uc_trailers_completed [OF assms] by (simp add: new_ClientCallState_def)
  ultimately show ?thesis by (auto simp: uc_OnStreamClose_def)
qed

theorem unary_client_completes_once_witness:
  "length (uc_completions (uc_Cancel (new_ClientCallState None))) = 1"
  using unary_client_completes_once [of copy_zlib None "uc_Cancel (new_ClientCallState None)" 0]
    uc_step.uc_cancel [of copy_zlib "new_ClientCallState None"]
  by (simp add: r_into_rtranclp) (simp add: uc_Cancel_def)

text \<open>
  C18: What a unary call makes of a response. After a head that opens it, whatever the chunks of
  the body, the call completes with the status of the trailers, the metadata of head and
  trailers, and, for an OK status, exactly the message of the one-shot specification
  (decompressed when the head names gzip and the flag is set); a framing violation or a failed
  decompression completes it with RESOURCE_EXHAUSTED or INTERNAL and no message; it does not
  return only where \<open>Decompress\<close> does not. The empty chunk that marks the end of the body may
  come after the trailers if the message is complete. (A set flag without a negotiated encoding is not
  rejected, although \<open>docs/protocol.md\<close> and \<open>compression.h\<close> say so: the bytes are the message as they are.)
\<close>

theorem unary_client_response:
  assumes "s = uc_Attach zl 200 head (new_ClientCallState ctx)" "\<not> uc_completed s"
    and "list_all (\<lambda>c. c \<noteq> []) chunks"
    and "eos \<or> (\<exists>flag p. decode_spec (recv_limit ctx) (concat chunks) = Message flag p)"
  shows "case response_spec zl (uc_response_encoding s) (recv_limit ctx) (concat chunks) (ExtractTrailerStatus trailers) of
      NoReturn \<Rightarrow> uc_exchange zl s chunks eos trailers = None
    | Broken c \<Rightarrow> \<exists>s' r. uc_exchange zl s chunks eos trailers = Some s' \<and> uc_completions s' = [r]
        \<and> status_code (rr_status r) = c \<and> \<not> rr_has_response r
    | Answer st bs \<Rightarrow> \<exists>s' r. uc_exchange zl s chunks eos trailers = Some s' \<and> uc_completions s' = [r]
        \<and> rr_status r = st \<and> rr_has_response r = (bs \<noteq> None) \<and> (bs = None \<or> bs = Some (rr_response_bytes r))
        \<and> rr_initial_metadata r = snd (Nghttp2HeadersToMetadata head [] kMaxMetadataSize)
        \<and> rr_trailing_metadata r = snd (Nghttp2HeadersToMetadata trailers [] kMaxMetadataSize)"
  using uc_exchange_answer [of s chunks eos trailers zl] uc_Attach_open [of zl head ctx] assms
  by (simp add: uc_answer_def split: response_outcome.splits)

theorem unary_client_response_witness:
  "\<exists>s' r. uc_exchange copy_zlib (uc_Attach copy_zlib 200 [(''content-type'', plain_value ''application/grpc'')] (new_ClientCallState None))
       [[CHR 0x00, CHR 0x00, CHR 0x00], [CHR 0x00, CHR 0x01, CHR ''x'']] False (BuildTrailers status_ok [] []) = Some s'
     \<and> uc_completions s' = [r] \<and> rr_response_bytes r = ''x''"
proof -
  let ?h = "[(''content-type'', plain_value ''application/grpc'')]"
  let ?cs = "[[CHR 0x00, CHR 0x00, CHR 0x00], [CHR 0x00, CHR 0x01, CHR ''x'']]"
  let ?t = "BuildTrailers status_ok [] []"
  have "\<not> uc_completed (uc_Attach copy_zlib 200 ?h (new_ClientCallState None))"
    by (simp add: uc_Attach_def new_ClientCallState_def is_grpc_head_def mm_find_def Let_def)
  moreover from this have "uc_response_encoding (uc_Attach copy_zlib 200 ?h (new_ClientCallState None)) = None"
    by (subst uc_Attach_open(7)) (simp_all add: mm_find_def)
  moreover have "is_ok (ExtractTrailerStatus ?t)"
    by (simp add: Extract_BuildTrailers)
  moreover have "decode_spec (recv_limit None) (concat ?cs) = Message 0 ''x''"
    by (simp add: decode_spec_def be32_def char_u8_def char_u32_def recv_limit_def)
  ultimately show ?thesis
    using unary_client_response [OF refl, of copy_zlib ?h None ?cs False ?t]
    by (auto simp: response_spec_def)
qed

end
