(* ===== verification/ServerStreamingClient.thy ===== *)
theory ServerStreamingClient
  imports UnaryClient
begin

text \<open>
  \<open>src/client/server_streaming_call_state.{h,cc}\<close>: the client side of a server-streaming call.

  Callbacks run on the channel's strand, except for the tasks the call posts to the
  \<open>io_context\<close> itself: those are kept in \<open>xs_posted\<close>, and the \<open>io_context\<close> may run any of them next.
  There is one constructor of \<open>stream_post\<close> for each lambda the streaming call states post.
\<close>

datatype stream_post = FailPost Status | ClosePost u32 bool | TrailersOnlyPost Status

record ServerStreamingClientCallState =
  xs_ctx :: "ClientContext option"
  xs_timer :: "int option"
  xs_reader :: RawClientReaderImpl
  xs_lpm :: ClientLpm
  xs_attached :: bool
  xs_closed :: bool
  xs_trailers_done :: bool
  xs_posted :: "stream_post list"

definition new_ServerStreamingClientCallState :: "ClientContext option \<Rightarrow> ServerStreamingClientCallState" where
  "new_ServerStreamingClientCallState ctx = \<lparr>xs_ctx = ctx, xs_timer = None, xs_reader = new_RawClientReaderImpl,
     xs_lpm = new_ClientLpm, xs_attached = False, xs_closed = False, xs_trailers_done = False, xs_posted = []\<rparr>"

definition xs_ArmTimer :: "int \<Rightarrow> ServerStreamingClientCallState \<Rightarrow> ServerStreamingClientCallState" where
  "xs_ArmTimer now s = s\<lparr>xs_timer := arm_timer now (xs_ctx s) (xs_timer s)\<rparr>"

definition xs_Fail :: "Status \<Rightarrow> ServerStreamingClientCallState \<Rightarrow> ServerStreamingClientCallState" where
  "xs_Fail st s =
     (if xs_closed s then s
      else s\<lparr>xs_closed := True, xs_timer := None, xs_posted := xs_posted s @ [FailPost st]\<rparr>)"

definition xs_Cancel :: "ServerStreamingClientCallState \<Rightarrow> ServerStreamingClientCallState" where
  "xs_Cancel s = xs_Fail (mk_status CANCELLED ''call cancelled'') s"

definition xs_OnTimer :: "bool \<Rightarrow> ServerStreamingClientCallState \<Rightarrow> ServerStreamingClientCallState" where
  "xs_OnTimer aborted s =
     (if aborted then s else xs_Fail (mk_status DEADLINE_EXCEEDED ''deadline exceeded'') s)"

definition xs_OnStreamClose :: "u32 \<Rightarrow> ServerStreamingClientCallState \<Rightarrow> ServerStreamingClientCallState" where
  "xs_OnStreamClose error_code s =
     (if xs_closed s then s
      else s\<lparr>xs_closed := True, xs_timer := None, xs_posted := xs_posted s @ [ClosePost error_code (xs_trailers_done s)]\<rparr>)"

text \<open>The reader after an error, and after the status of the call: \<open>SetError\<close> or \<open>SetEos\<close>, then \<open>SetFinalStatus\<close>.\<close>

definition reader_error :: "Status \<Rightarrow> RawClientReaderImpl \<Rightarrow> RawClientReaderImpl" where
  "reader_error st r = cr_SetFinalStatus st (r\<lparr>cr_msg_queue := q_SetError st (cr_msg_queue r)\<rparr>)"

definition reader_status :: "Status \<Rightarrow> RawClientReaderImpl \<Rightarrow> RawClientReaderImpl" where
  "reader_status st r =
     (if \<not> is_ok st then reader_error st r
      else cr_SetFinalStatus st (r\<lparr>cr_msg_queue := SetEos (cr_msg_queue r)\<rparr>))"

definition xs_MaybeDeliverStatus :: "Status \<Rightarrow> ServerStreamingClientCallState \<Rightarrow> ServerStreamingClientCallState" where
  "xs_MaybeDeliverStatus st s = s\<lparr>xs_trailers_done := True, xs_reader := reader_status st (xs_reader s)\<rparr>"

fun xs_run_post :: "stream_post \<Rightarrow> ServerStreamingClientCallState \<Rightarrow> ServerStreamingClientCallState" where
  "xs_run_post (FailPost st) s = s\<lparr>xs_reader := reader_error st (xs_reader s)\<rparr>"
| "xs_run_post (ClosePost error_code trailers_done) s =
     (if \<not> trailers_done then s\<lparr>xs_reader := reader_error (close_status error_code) (xs_reader s)\<rparr> else s)"
| "xs_run_post (TrailersOnlyPost st) s =
     (if xs_closed s then s else xs_MaybeDeliverStatus st (s\<lparr>xs_closed := True, xs_timer := None\<rparr>))"

text \<open>The \<open>io_context\<close> runs the posted task number \<open>i\<close>.\<close>

definition drop_nth :: "nat \<Rightarrow> 'a list \<Rightarrow> 'a list" where
  "drop_nth i xs = take i xs @ drop (Suc i) xs"

definition xs_RunPosted :: "nat \<Rightarrow> ServerStreamingClientCallState \<Rightarrow> ServerStreamingClientCallState" where
  "xs_RunPosted i s =
     (if i < length (xs_posted s)
      then xs_run_post (xs_posted s ! i) (s\<lparr>xs_posted := drop_nth i (xs_posted s)\<rparr>) else s)"

definition xs_Attach :: "int \<Rightarrow> header_map \<Rightarrow> ServerStreamingClientCallState \<Rightarrow> ServerStreamingClientCallState" where
  "xs_Attach http_status hdrs s =
     (if \<not> is_grpc_head hdrs then xs_Fail (FromHttpStatus http_status) s
      else if http_status \<noteq> 200 then xs_Fail (FromHttpStatus http_status) s
      else if mm_find hdrs ''grpc-status'' \<noteq> None
      then s\<lparr>xs_posted := xs_posted s @ [TrailersOnlyPost (ExtractTrailerStatus hdrs)]\<rparr>
      else s\<lparr>xs_attached := True\<rparr>)"

definition xs_OnData :: "bytes \<Rightarrow> ServerStreamingClientCallState \<Rightarrow> ServerStreamingClientCallState option" where
  "xs_OnData copy s =
     (if copy = [] then Some s
      else if xs_closed s then Some s
      else
        case client_lpm_loop (recv_limit (xs_ctx s)) (xs_lpm s) copy of
          None \<Rightarrow> None
        | Some (p, msgs, st) \<Rightarrow>
            let s1 = s\<lparr>xs_lpm := p, xs_reader := (xs_reader s)\<lparr>cr_msg_queue := fold Push msgs (cr_msg_queue (xs_reader s))\<rparr>\<rparr>
            in Some (if is_ok st then s1 else xs_Fail st s1))"

definition xs_OnTrailers :: "header_map \<Rightarrow> ServerStreamingClientCallState \<Rightarrow> ServerStreamingClientCallState" where
  "xs_OnTrailers trailers s =
     (if xs_closed s then s else xs_MaybeDeliverStatus (ExtractTrailerStatus trailers) s)"

text \<open>The application reads.\<close>

definition xs_Read :: "ServerStreamingClientCallState \<Rightarrow> (Status \<times> bytes option) option \<times> ServerStreamingClientCallState" where
  "xs_Read s = (case RawClientReader_Read (xs_reader s) of (r, rd) \<Rightarrow> (r, s\<lparr>xs_reader := rd\<rparr>))"

inductive xs_step :: "ServerStreamingClientCallState \<Rightarrow> ServerStreamingClientCallState \<Rightarrow> bool" where
  xs_attach: "xs_step s (xs_Attach http_status hdrs s)"
| xs_data: "xs_attached s \<Longrightarrow> xs_OnData copy s = Some s' \<Longrightarrow> xs_step s s'"
| xs_trailers: "xs_attached s \<Longrightarrow> xs_step s (xs_OnTrailers trailers s)"
| xs_arm: "xs_step s (xs_ArmTimer now s)"
| xs_timer: "xs_step s (xs_OnTimer aborted s)"
| xs_cancel: "xs_step s (xs_Cancel s)"
| xs_fail: "xs_step s (xs_Fail st s)"
| xs_close: "xs_step s (xs_OnStreamClose error_code s)"
| xs_post: "xs_step s (xs_RunPosted i s)"
| xs_read: "xs_step s (snd (xs_Read s))"

section \<open>That the status arrives\<close>

text \<open>
  A posted task that will deliver a status to an open reader. The invariant of the three streaming
  calls: once the call is closed, its status is there or such a task is posted.
\<close>

fun delivers :: "stream_post \<Rightarrow> bool" where
  "delivers (FailPost st) = True"
| "delivers (ClosePost error_code trailers_done) = (\<not> trailers_done)"
| "delivers (TrailersOnlyPost st) = False"

definition delivery_change ::
  "bool \<times> bool \<times> bool \<times> stream_post list \<Rightarrow> bool \<times> bool \<times> bool \<times> stream_post list \<Rightarrow> bool" where
  "delivery_change = (\<lambda>(closed, trailers_done, ready, posted) (closed', trailers_done', ready', posted').
     (ready \<longrightarrow> ready')
     \<and> (trailers_done' \<longrightarrow> trailers_done \<or> ready')
     \<and> ((trailers_done \<longrightarrow> ready) \<longrightarrow> \<not> closed \<longrightarrow> closed' \<longrightarrow> ready' \<or> list_ex delivers posted')
     \<and> (list_ex delivers posted \<longrightarrow> ready' \<or> list_ex delivers posted'))"

locale status_delivery =
  fixes step :: "'s \<Rightarrow> 's \<Rightarrow> bool"
    and closed trailers_done ready :: "'s \<Rightarrow> bool"
    and posted :: "'s \<Rightarrow> stream_post list"
  assumes step_change: "step s s' \<Longrightarrow>
    delivery_change (closed s, trailers_done s, ready s, posted s) (closed s', trailers_done s', ready s', posted s')"
begin

lemma settled:
  "step\<^sup>*\<^sup>* s s' \<Longrightarrow> \<not> closed s \<Longrightarrow> \<not> trailers_done s \<Longrightarrow>
     (trailers_done s' \<longrightarrow> ready s') \<and> (closed s' \<longrightarrow> ready s' \<or> list_ex delivers (posted s'))"
proof (induction rule: rtranclp_induct)
  case (step y z)
  then show ?case
    using step_change [OF step.hyps(2)] by (auto simp: delivery_change_def)
qed simp

lemma closed_and_idle:
  "step\<^sup>*\<^sup>* s s' \<Longrightarrow> \<not> closed s \<Longrightarrow> \<not> trailers_done s \<Longrightarrow> closed s' \<Longrightarrow> posted s' = [] \<Longrightarrow> ready s'"
  using settled by fastforce

end

lemma list_ex_drop_nth:
  "i < length ps \<Longrightarrow> list_ex P ps \<longleftrightarrow> P (ps ! i) \<or> list_ex P (drop_nth i ps)"
  by (subst id_take_nth_drop [of i ps]) (auto simp: drop_nth_def)

lemma reader_ready [simp]:
  "cr_status_ready (cr_SetFinalStatus st r)" "cr_status_ready (reader_error st r)" "cr_status_ready (reader_status st r)"
  "cr_final_status (reader_error st r) = st" "cr_final_status (reader_status st r) = st"
  "q_error (cr_msg_queue (reader_error st r)) = Some st"
  "q_buffer (cr_msg_queue (reader_error st r)) = q_buffer (cr_msg_queue r)"
  "q_buffer (cr_msg_queue (reader_status st r)) = q_buffer (cr_msg_queue r)"
  by (simp_all add: reader_error_def reader_status_def cr_SetFinalStatus_def)

lemma Read_sel [simp]:
  "cr_status_ready (snd (RawClientReader_Read r)) = cr_status_ready r"
  "cr_final_status (snd (RawClientReader_Read r)) = cr_final_status r"
  by (simp_all add: RawClientReader_Read_def split: prod.split option.split)

lemma xs_Read_sel [simp]:
  "xs_closed (snd (xs_Read s)) = xs_closed s" "xs_trailers_done (snd (xs_Read s)) = xs_trailers_done s"
  "xs_posted (snd (xs_Read s)) = xs_posted s"
  "cr_status_ready (xs_reader (snd (xs_Read s))) = cr_status_ready (xs_reader s)"
  by (simp_all add: xs_Read_def case_prod_unfold)

lemmas xs_defs = xs_Attach_def xs_OnTrailers_def xs_ArmTimer_def xs_OnTimer_def xs_Cancel_def xs_Fail_def
  xs_OnStreamClose_def xs_MaybeDeliverStatus_def

lemma xs_OnData_keeps:
  "xs_OnData copy s = Some s' \<Longrightarrow> cr_status_ready (xs_reader s') = cr_status_ready (xs_reader s)
     \<and> xs_trailers_done s' = xs_trailers_done s
     \<and> (xs_closed s' = xs_closed s \<and> xs_posted s' = xs_posted s
        \<or> \<not> xs_closed s \<and> xs_closed s' \<and> (\<exists>st. xs_posted s' = xs_posted s @ [FailPost st]))"
  by (auto simp: xs_OnData_def xs_Fail_def Let_def split: if_splits option.splits)

interpretation xs_delivery: status_delivery xs_step xs_closed xs_trailers_done "\<lambda>s. cr_status_ready (xs_reader s)" xs_posted
proof
  fix s s' assume "xs_step s s'"
  then show "delivery_change (xs_closed s, xs_trailers_done s, cr_status_ready (xs_reader s), xs_posted s)
      (xs_closed s', xs_trailers_done s', cr_status_ready (xs_reader s'), xs_posted s')"
  proof (induction rule: xs_step.induct)
    case (xs_post s i)
    then show ?case
      by (cases "i < length (xs_posted s)"; cases "xs_posted s ! i")
        (auto simp: delivery_change_def xs_RunPosted_def list_ex_drop_nth xs_defs)
  qed (auto simp: delivery_change_def xs_defs dest: xs_OnData_keeps)
qed

section \<open>The response stream\<close>

interpretation xs_data: stream_user "\<lambda>s copy. xs_OnData copy s" "client_lpm_loop m" xs_lpm
  "\<lambda>p ms s. s\<lparr>xs_lpm := p, xs_reader := (xs_reader s)\<lparr>cr_msg_queue := fold Push ms (cr_msg_queue (xs_reader s))\<rparr>\<rparr>"
  xs_closed xs_Fail "\<lambda>s. recv_limit (xs_ctx s) = m" for m
  by unfold_locales (simp_all add: xs_OnData_def xs_Fail_def Let_def)

text \<open>What the client's parser makes of a body, as the result of \<open>stream_user.follows_parser\<close> needs it.\<close>

lemma client_stream_run:
  obtains p where "feeds (stream_feed (client_lpm_loop m)) (new_ClientLpm, [], status_ok) chunks
    = Some (p, fst (lpm_spec (\<lambda>_. True) m (concat chunks)),
        case snd (lpm_spec (\<lambda>_. True) m (concat chunks)) of Rest _ \<Rightarrow> status_ok | BadFlag \<Rightarrow> mk_status INTERNAL []
        | TooLong \<Rightarrow> mk_status RESOURCE_EXHAUSTED ''received message too large'')"
  using cl_stream [of m chunks] by (auto simp: stream_view_def case_prod_unfold)

lemma lpm_spec_no_bad_flag: "snd (lpm_spec (\<lambda>_. True) m bs) \<noteq> BadFlag"
proof (induction "\<lambda>_ :: u8. True" m bs rule: lpm_spec.induct)
  case (1 m bs)
  then show ?case by (subst lpm_spec.simps) (auto simp: case_prod_unfold Let_def)
qed

text \<open>Reading until there is no further message: the messages and, unless the reader is suspended, the status.\<close>

fun read_all :: "nat \<Rightarrow> RawClientReaderImpl \<Rightarrow> bytes list \<times> Status option" where
  "read_all 0 r = ([], None)"
| "read_all (Suc n) r =
     (case RawClientReader_Read r of
        (None, r') \<Rightarrow> ([], None)
      | (Some (st, None), r') \<Rightarrow> ([], Some st)
      | (Some (st, Some m), r') \<Rightarrow> (case read_all n r' of (ms, e) \<Rightarrow> (m # ms, e)))"

lemma read_all_queue:
  "length (q_buffer (cr_msg_queue r)) < n \<Longrightarrow> read_all n r = (q_buffer (cr_msg_queue r),
     case q_error (cr_msg_queue r) of Some e \<Rightarrow> Some (if is_ok e then status_ok else e)
     | None \<Rightarrow> if q_eos (cr_msg_queue r) then Some status_ok else None)"
proof (induction n arbitrary: r)
  case (Suc n)
  show ?case
  proof (cases "q_buffer (cr_msg_queue r)")
    case Nil
    then show ?thesis
      by (simp add: RawClientReader_Read_def Pop_def pr_ok_def pr_eos_def split: option.split)
  next
    case (Cons m ms)
    then show ?thesis
      using Suc.IH [of "r\<lparr>cr_msg_queue := (cr_msg_queue r)\<lparr>q_buffer := ms, q_wake := NoWait\<rparr>\<rparr>"] Suc.prems
      by (simp add: RawClientReader_Read_def Pop_def pr_ok_def pr_eos_def)
  qed
qed simp

lemma xs_receives:
  assumes "s = xs_Attach 200 head (new_ServerStreamingClientCallState ctx)" "xs_attached s"
    and "list_all (\<lambda>c. c \<noteq> []) chunks" "lpm_spec (\<lambda>_. True) (recv_limit ctx) (concat chunks) = (msgs, e)"
    and "length msgs < n" "status = ExtractTrailerStatus trailers"
  shows "\<exists>s'. feeds (\<lambda>s copy. xs_OnData copy s) s chunks = Some s' \<and>
    (case e of
       Rest _ \<Rightarrow> read_all n (xs_reader (xs_OnTrailers trailers s')) = (msgs, Some (if is_ok status then status_ok else status))
         \<and> RawClientReader_Finish (xs_reader (xs_OnTrailers trailers s')) = Some status
     | _ \<Rightarrow> xs_OnTrailers trailers s' = s'
         \<and> read_all n (xs_reader (xs_RunPosted 0 s')) = (msgs, Some (mk_status RESOURCE_EXHAUSTED ''received message too large''))
         \<and> RawClientReader_Finish (xs_reader (xs_RunPosted 0 s')) = Some (mk_status RESOURCE_EXHAUSTED ''received message too large''))"
proof -
  have s: "\<not> xs_closed s" "xs_lpm s = new_ClientLpm" "xs_posted s = []" "xs_reader s = new_RawClientReaderImpl" "xs_ctx s = ctx"
    using assms(1,2) by (auto simp: xs_defs new_ServerStreamingClientCallState_def split: if_splits)
  obtain p where p: "feeds (stream_feed (client_lpm_loop (recv_limit ctx))) (xs_lpm s, [], status_ok) chunks
    = Some (p, msgs, case e of Rest _ \<Rightarrow> status_ok | BadFlag \<Rightarrow> mk_status INTERNAL []
        | TooLong \<Rightarrow> mk_status RESOURCE_EXHAUSTED ''received message too large'')"
    using client_stream_run [of "recv_limit ctx" chunks] assms(4) s(2) by auto
  have "e \<noteq> BadFlag" using lpm_spec_no_bad_flag [of "recv_limit ctx" "concat chunks"] assms(4) by simp
  then show ?thesis
    using xs_data.follows_parser [OF _ s(1) assms(3) p] s assms(5,6)
    by (cases e) (auto simp: read_all_queue xs_OnTrailers_def xs_MaybeDeliverStatus_def xs_Fail_def xs_RunPosted_def
        reader_status_def reader_error_def cr_SetFinalStatus_def RawClientReader_Finish_def
        new_RawClientReaderImpl_def new_StreamMessageQueue_def)
qed

section \<open>Properties\<close>

text \<open>
  What a server-streaming client receives. After a head that opens the stream, whatever the
  chunks of the body: the application reads exactly the messages of \<open>lpm_spec\<close> in order. When the
  body ends with whole or unfinished frames, the trailers then end the reads with OK or with
  their error, and \<open>Finish\<close> returns their status; an oversized message closes the call with
  RESOURCE_EXHAUSTED behind the messages before it, and later trailers change nothing.
\<close>

theorem server_streaming_client_messages:
  assumes "s = xs_Attach 200 head (new_ServerStreamingClientCallState ctx)" "xs_attached s"
    and "list_all (\<lambda>c. c \<noteq> []) chunks" "lpm_spec (\<lambda>_. True) (recv_limit ctx) (concat chunks) = (msgs, e)"
    and "length msgs < n" "status = ExtractTrailerStatus trailers"
  shows "\<exists>s'. feeds (\<lambda>s copy. xs_OnData copy s) s chunks = Some s' \<and>
    (case e of
       Rest _ \<Rightarrow> read_all n (xs_reader (xs_OnTrailers trailers s')) = (msgs, Some (if is_ok status then status_ok else status))
         \<and> RawClientReader_Finish (xs_reader (xs_OnTrailers trailers s')) = Some status
     | _ \<Rightarrow> xs_OnTrailers trailers s' = s'
         \<and> read_all n (xs_reader (xs_RunPosted 0 s')) = (msgs, Some (mk_status RESOURCE_EXHAUSTED ''received message too large''))
         \<and> RawClientReader_Finish (xs_reader (xs_RunPosted 0 s')) = Some (mk_status RESOURCE_EXHAUSTED ''received message too large''))"
  by (rule xs_receives [OF assms])

theorem server_streaming_client_messages_witness:
  "\<exists>s'. feeds (\<lambda>s copy. xs_OnData copy s)
      (xs_Attach 200 [(''content-type'', plain_value ''application/grpc'')] (new_ServerStreamingClientCallState None))
      [framed [''a'', ''b'']] = Some s'
    \<and> read_all 3 (xs_reader (xs_OnTrailers (BuildTrailers status_ok [] []) s')) = ([''a'', ''b''], Some status_ok)"
proof -
  let ?h = "[(''content-type'', plain_value ''application/grpc'')]"
  have "xs_attached (xs_Attach 200 ?h (new_ServerStreamingClientCallState None))"
    by (simp add: xs_Attach_def is_grpc_head_def mm_find_def)
  moreover have "lpm_spec (\<lambda>_. True) (recv_limit None) (framed [''a'', ''b''] @ []) = ([''a'', ''b''], Rest [])"
    by (subst lpm_spec_framed) (simp_all add: lpm_spec_short recv_limit_def)
  moreover have "framed [''a'', ''b''] \<noteq> []" by (simp add: framed_def EncodeFrame_def Let_def)
  ultimately show ?thesis
    using server_streaming_client_messages [OF refl, of ?h None "[framed [''a'', ''b'']]" "[''a'', ''b'']" "Rest []" 3
        status_ok "BuildTrailers status_ok [] []"]
    by (auto simp: Extract_BuildTrailers)
qed

text \<open>
  The final status of a stream is not final. Trailers deliver a status, but leave \<open>closed_\<close>
  unset and the deadline timer armed until the stream closes; a deadline, cancellation, GOAWAY or
  shutdown in between posts an error whose task replaces the status: \<open>Finish\<close> returned the
  server's status before and returns the error afterwards, and reads that ended cleanly now
  report the error.
\<close>

theorem server_streaming_status_overwritten:
  assumes "\<not> xs_closed s" "xs_posted s = []" "s1 = xs_OnTrailers trailers s" "s2 = xs_RunPosted 0 (xs_Fail st s1)"
  shows "RawClientReader_Finish (xs_reader s1) = Some (ExtractTrailerStatus trailers)
    \<and> RawClientReader_Finish (xs_reader s2) = Some st
    \<and> q_error (cr_msg_queue (xs_reader s2)) = Some st \<and> xs_timer s1 = xs_timer s"
  using assms by (simp add: xs_defs xs_RunPosted_def RawClientReader_Finish_def)

theorem server_streaming_status_overwritten_witness:
  "RawClientReader_Finish (xs_reader (xs_RunPosted 0 (xs_Fail (mk_status DEADLINE_EXCEEDED ''deadline exceeded'')
      (xs_OnTrailers (BuildTrailers status_ok [] []) (new_ServerStreamingClientCallState None)))))
    = Some (mk_status DEADLINE_EXCEEDED ''deadline exceeded'')"
  using server_streaming_status_overwritten [of "new_ServerStreamingClientCallState None" _ "BuildTrailers status_ok [] []" _
      "mk_status DEADLINE_EXCEEDED ''deadline exceeded''", OF _ _ refl refl]
  by (simp add: new_ServerStreamingClientCallState_def)

end
