(* ===== verification/ClientStreamingClient.thy ===== *)
theory ClientStreamingClient
  imports ServerStreamingClient
begin

text \<open>
  \<open>src/client/client_streaming_call_state.{h,cc}\<close>: the client side of a client-streaming call. The
  request goes through the writer of theory \<open>ClientBase\<close>; the response message and the final status
  are kept in the writer's implementation.
\<close>

record ClientStreamingClientCallState =
  xc_ctx :: "ClientContext option"
  xc_timer :: "int option"
  xc_writer :: RawClientWriterImpl
  xc_lpm :: ClientLpm
  xc_attached :: bool
  xc_closed :: bool
  xc_trailers_done :: bool
  xc_posted :: "stream_post list"

definition new_ClientStreamingClientCallState :: "ClientContext option \<Rightarrow> ClientStreamingClientCallState" where
  "new_ClientStreamingClientCallState ctx = \<lparr>xc_ctx = ctx, xc_timer = None, xc_writer = new_RawClientWriterImpl,
     xc_lpm = new_ClientLpm, xc_attached = False, xc_closed = False, xc_trailers_done = False, xc_posted = []\<rparr>"

definition xc_ArmTimer :: "int \<Rightarrow> ClientStreamingClientCallState \<Rightarrow> ClientStreamingClientCallState" where
  "xc_ArmTimer now s = s\<lparr>xc_timer := arm_timer now (xc_ctx s) (xc_timer s)\<rparr>"

definition xc_Fail :: "Status \<Rightarrow> ClientStreamingClientCallState \<Rightarrow> ClientStreamingClientCallState" where
  "xc_Fail st s =
     (if xc_closed s then s
      else s\<lparr>xc_closed := True, xc_timer := None, xc_posted := xc_posted s @ [FailPost st]\<rparr>)"

definition xc_Cancel :: "ClientStreamingClientCallState \<Rightarrow> ClientStreamingClientCallState" where
  "xc_Cancel s = xc_Fail (mk_status CANCELLED ''call cancelled'') s"

definition xc_OnTimer :: "bool \<Rightarrow> ClientStreamingClientCallState \<Rightarrow> ClientStreamingClientCallState" where
  "xc_OnTimer aborted s =
     (if aborted then s else xc_Fail (mk_status DEADLINE_EXCEEDED ''deadline exceeded'') s)"

definition xc_OnStreamClose :: "u32 \<Rightarrow> ClientStreamingClientCallState \<Rightarrow> ClientStreamingClientCallState" where
  "xc_OnStreamClose error_code s =
     (let s1 = s\<lparr>xc_writer := (xc_writer s)\<lparr>cw_req := False\<rparr>\<rparr>
      in if xc_closed s1 then s1
         else s1\<lparr>xc_closed := True, xc_timer := None,
                 xc_posted := xc_posted s1 @ [ClosePost error_code (xc_trailers_done s1)]\<rparr>)"

definition xc_MaybeDeliverStatus :: "Status \<Rightarrow> ClientStreamingClientCallState \<Rightarrow> ClientStreamingClientCallState" where
  "xc_MaybeDeliverStatus st s = s\<lparr>xc_trailers_done := True, xc_writer := cw_SetFinalStatus st (xc_writer s)\<rparr>"

fun xc_run_post :: "stream_post \<Rightarrow> ClientStreamingClientCallState \<Rightarrow> ClientStreamingClientCallState" where
  "xc_run_post (FailPost st) s = s\<lparr>xc_writer := cw_SetFinalStatus st (xc_writer s)\<rparr>"
| "xc_run_post (ClosePost error_code trailers_done) s =
     (if \<not> trailers_done then s\<lparr>xc_writer := cw_SetFinalStatus (close_status error_code) (xc_writer s)\<rparr> else s)"
| "xc_run_post (TrailersOnlyPost st) s =
     (if xc_closed s then s else xc_MaybeDeliverStatus st (s\<lparr>xc_closed := True, xc_timer := None\<rparr>))"

definition xc_RunPosted :: "nat \<Rightarrow> ClientStreamingClientCallState \<Rightarrow> ClientStreamingClientCallState" where
  "xc_RunPosted i s =
     (if i < length (xc_posted s)
      then xc_run_post (xc_posted s ! i) (s\<lparr>xc_posted := drop_nth i (xc_posted s)\<rparr>) else s)"

definition xc_Attach :: "int \<Rightarrow> header_map \<Rightarrow> ClientStreamingClientCallState \<Rightarrow> ClientStreamingClientCallState" where
  "xc_Attach http_status hdrs s =
     (if \<not> is_grpc_head hdrs then xc_Fail (FromHttpStatus http_status) s
      else if http_status \<noteq> 200 then xc_Fail (FromHttpStatus http_status) s
      else if mm_find hdrs ''grpc-status'' \<noteq> None
      then s\<lparr>xc_posted := xc_posted s @ [TrailersOnlyPost (ExtractTrailerStatus hdrs)]\<rparr>
      else s\<lparr>xc_attached := True\<rparr>)"

text \<open>A complete message becomes the response.\<close>

definition set_response :: "bytes \<Rightarrow> RawClientWriterImpl \<Rightarrow> RawClientWriterImpl" where
  "set_response m w = w\<lparr>cw_response_bytes := m, cw_has_response := True\<rparr>"

definition xc_OnData :: "bytes \<Rightarrow> ClientStreamingClientCallState \<Rightarrow> ClientStreamingClientCallState option" where
  "xc_OnData copy s =
     (if copy = [] then Some s
      else if xc_closed s then Some s
      else
        case client_lpm_loop (recv_limit (xc_ctx s)) (xc_lpm s) copy of
          None \<Rightarrow> None
        | Some (p, msgs, st) \<Rightarrow>
            let s1 = s\<lparr>xc_lpm := p, xc_writer := fold set_response msgs (xc_writer s)\<rparr>
            in Some (if is_ok st then s1 else xc_Fail st s1))"

definition xc_OnTrailers :: "header_map \<Rightarrow> ClientStreamingClientCallState \<Rightarrow> ClientStreamingClientCallState" where
  "xc_OnTrailers trailers s =
     (if xc_closed s then s else xc_MaybeDeliverStatus (ExtractTrailerStatus trailers) s)"

text \<open>The application writes, the strand runs a task of the writer, nghttp2 pulls the generator.\<close>

definition xc_Write :: "bytes \<Rightarrow> ClientStreamingClientCallState \<Rightarrow> Status \<times> ClientStreamingClientCallState" where
  "xc_Write m s = (case Enqueue m (xc_writer s) of (st, w) \<Rightarrow> (st, s\<lparr>xc_writer := w\<rparr>))"

inductive xc_step :: "ClientStreamingClientCallState \<Rightarrow> ClientStreamingClientCallState \<Rightarrow> bool" where
  xc_attach: "xc_step s (xc_Attach http_status hdrs s)"
| xc_data: "xc_attached s \<Longrightarrow> xc_OnData copy s = Some s' \<Longrightarrow> xc_step s s'"
| xc_trailers: "xc_attached s \<Longrightarrow> xc_step s (xc_OnTrailers trailers s)"
| xc_arm: "xc_step s (xc_ArmTimer now s)"
| xc_timer: "xc_step s (xc_OnTimer aborted s)"
| xc_cancel: "xc_step s (xc_Cancel s)"
| xc_fail: "xc_step s (xc_Fail st s)"
| xc_close: "xc_step s (xc_OnStreamClose error_code s)"
| xc_post: "xc_step s (xc_RunPosted i s)"
| xc_write: "xc_step s (snd (xc_Write m s))"
| xc_writes_done: "xc_step s (s\<lparr>xc_writer := MarkWritesDone (xc_writer s)\<rparr>)"
| xc_strand: "xc_step s (s\<lparr>xc_writer := cw_RunPosted (xc_writer s)\<rparr>)"
| xc_pull: "xc_step s (s\<lparr>xc_writer := snd (cw_Pull len (xc_writer s))\<rparr>)"

section \<open>That the status arrives\<close>

text \<open>What the writer's own operations do to the response and the status: nothing.\<close>

lemma writer_status [simp]:
  "cw_status_ready (cw_SetFinalStatus st w)"
  "cw_final_status (cw_SetFinalStatus st w) = st"
  "cw_status_ready (MarkWritesDone w) = cw_status_ready w"
  "cw_status_ready (cw_RunPosted w) = cw_status_ready w"
  "cw_status_ready (snd (Enqueue m w)) = cw_status_ready w"
  "cw_status_ready (snd (cw_Pull len w)) = cw_status_ready w"
  by (simp_all add: cw_SetFinalStatus_def MarkWritesDone_def cw_RunPosted_def req_resume_def Enqueue_def cw_Pull_def
      ClientWriterGenerator_def Let_def split: list.split writer_post.split option.split)

lemma fold_set_response [simp]:
  "fold set_response ms w = (if ms = [] then w else set_response (last ms) w)"
  by (induction ms arbitrary: w) (auto simp: set_response_def)

lemma set_response_sel [simp]:
  "cw_status_ready (set_response m w) = cw_status_ready w" "cw_response_bytes (set_response m w) = m"
  "cw_has_response (set_response m w)" "cw_final_status (set_response m w) = cw_final_status w"
  by (simp_all add: set_response_def)

lemma xc_Write_sel [simp]:
  "xc_closed (snd (xc_Write m s)) = xc_closed s" "xc_trailers_done (snd (xc_Write m s)) = xc_trailers_done s"
  "xc_posted (snd (xc_Write m s)) = xc_posted s"
  "cw_status_ready (xc_writer (snd (xc_Write m s))) = cw_status_ready (xc_writer s)"
  by (simp_all add: xc_Write_def case_prod_unfold)

lemmas xc_defs = xc_Attach_def xc_OnTrailers_def xc_ArmTimer_def xc_OnTimer_def xc_Cancel_def xc_Fail_def
  xc_OnStreamClose_def xc_MaybeDeliverStatus_def Let_def

lemma xc_OnData_keeps:
  "xc_OnData copy s = Some s' \<Longrightarrow> cw_status_ready (xc_writer s') = cw_status_ready (xc_writer s)
     \<and> xc_trailers_done s' = xc_trailers_done s
     \<and> (xc_closed s' = xc_closed s \<and> xc_posted s' = xc_posted s
        \<or> \<not> xc_closed s \<and> xc_closed s' \<and> (\<exists>st. xc_posted s' = xc_posted s @ [FailPost st]))"
  by (auto simp: xc_OnData_def xc_Fail_def Let_def split: if_splits option.splits)

interpretation xc_delivery: status_delivery xc_step xc_closed xc_trailers_done "\<lambda>s. cw_status_ready (xc_writer s)" xc_posted
proof
  fix s s' assume "xc_step s s'"
  then show "delivery_change (xc_closed s, xc_trailers_done s, cw_status_ready (xc_writer s), xc_posted s)
      (xc_closed s', xc_trailers_done s', cw_status_ready (xc_writer s'), xc_posted s')"
  proof (induction rule: xc_step.induct)
    case (xc_post s i)
    then show ?case
      by (cases "i < length (xc_posted s)"; cases "xc_posted s ! i")
        (auto simp: delivery_change_def xc_RunPosted_def list_ex_drop_nth xc_defs)
  qed (auto simp: delivery_change_def xc_defs dest: xc_OnData_keeps)
qed

section \<open>The response\<close>

interpretation xc_data: stream_user "\<lambda>s copy. xc_OnData copy s" "client_lpm_loop m" xc_lpm
  "\<lambda>p ms s. s\<lparr>xc_lpm := p, xc_writer := fold set_response ms (xc_writer s)\<rparr>"
  xc_closed xc_Fail "\<lambda>s. recv_limit (xc_ctx s) = m" for m
  by unfold_locales (auto simp: xc_OnData_def xc_Fail_def set_response_def Let_def split: option.splits)

lemma xc_receives:
  assumes "\<not> xc_closed s" "xc_lpm s = new_ClientLpm" "list_all (\<lambda>c. c \<noteq> []) chunks"
    and "lpm_spec (\<lambda>_. True) (recv_limit (xc_ctx s)) (concat chunks) = (msgs, Rest r)"
  shows "\<exists>s'. Option.bind (feeds (\<lambda>s copy. xc_OnData copy s) s chunks) (\<lambda>s'. Some (xc_OnTrailers trailers s')) = Some s'
    \<and> xc_writer s' = cw_SetFinalStatus (ExtractTrailerStatus trailers) (fold set_response msgs (xc_writer s))"
proof -
  obtain p where p: "feeds (stream_feed (client_lpm_loop (recv_limit (xc_ctx s)))) (xc_lpm s, [], status_ok) chunks
    = Some (p, msgs, status_ok)"
    using client_stream_run [of "recv_limit (xc_ctx s)" chunks] assms(2,4) by auto
  then show ?thesis
    using xc_data.follows_parser [OF refl assms(1,3) p] assms(1)
    by (simp add: xc_OnTrailers_def xc_MaybeDeliverStatus_def del: fold_set_response)
qed

section \<open>Properties\<close>

text \<open>
  What a client-streaming client receives, whatever the chunks of the response body: the
  status of the trailers from \<open>Finish\<close>, and as the response the last complete message of the
  body. So a response with exactly one message is delivered unchanged and one without a message
  is reported as such, but a server that answers with several messages is not noticed: all but
  the last are dropped.
\<close>

theorem client_streaming_client_response:
  assumes "s = xc_Attach 200 head (new_ClientStreamingClientCallState ctx)" "xc_attached s"
    and "list_all (\<lambda>c. c \<noteq> []) chunks" "lpm_spec (\<lambda>_. True) (recv_limit ctx) (concat chunks) = (msgs, Rest r)"
  shows "\<exists>s'. Option.bind (feeds (\<lambda>s copy. xc_OnData copy s) s chunks) (\<lambda>s'. Some (xc_OnTrailers trailers s')) = Some s'
    \<and> RawClientWriter_Finish (xc_writer s') = Some (ExtractTrailerStatus trailers)
    \<and> cw_has_response (xc_writer s') = (msgs \<noteq> []) \<and> (msgs = [] \<or> cw_response_bytes (xc_writer s') = last msgs)"
proof -
  have s: "\<not> xc_closed s" "xc_lpm s = new_ClientLpm" "xc_writer s = new_RawClientWriterImpl" "xc_ctx s = ctx"
    using assms(1,2) by (auto simp: xc_defs new_ClientStreamingClientCallState_def split: if_splits)
  obtain s' where "Option.bind (feeds (\<lambda>s copy. xc_OnData copy s) s chunks) (\<lambda>s'. Some (xc_OnTrailers trailers s')) = Some s'"
    "xc_writer s' = cw_SetFinalStatus (ExtractTrailerStatus trailers) (fold set_response msgs (xc_writer s))"
    using xc_receives [of s chunks msgs r trailers] s assms(3,4) by auto
  then show ?thesis
    using s(3) by (intro exI [of _ s']) (simp add: cw_SetFinalStatus_def RawClientWriter_Finish_def new_RawClientWriterImpl_def)
qed

theorem client_streaming_client_response_witness:
  "\<exists>s'. Option.bind (feeds (\<lambda>s copy. xc_OnData copy s)
      (xc_Attach 200 [(''content-type'', plain_value ''application/grpc'')] (new_ClientStreamingClientCallState None))
      [framed [''a'', ''b'']]) (\<lambda>s'. Some (xc_OnTrailers (BuildTrailers status_ok [] []) s')) = Some s'
    \<and> cw_response_bytes (xc_writer s') = ''b''"
proof -
  let ?h = "[(''content-type'', plain_value ''application/grpc'')]"
  have "xc_attached (xc_Attach 200 ?h (new_ClientStreamingClientCallState None))"
    by (simp add: xc_Attach_def is_grpc_head_def mm_find_def)
  moreover have "lpm_spec (\<lambda>_. True) (recv_limit None) (framed [''a'', ''b''] @ []) = ([''a'', ''b''], Rest [])"
    by (subst lpm_spec_framed) (simp_all add: lpm_spec_short recv_limit_def)
  moreover have "framed [''a'', ''b''] \<noteq> []" by (simp add: framed_def EncodeFrame_def Let_def)
  ultimately show ?thesis
    using client_streaming_client_response [OF refl, of ?h None "[framed [''a'', ''b'']]" "[''a'', ''b'']" "[]"
        "BuildTrailers status_ok [] []"]
    by auto
qed

end
