(* ===== verification/BidiClient.thy ===== *)
theory BidiClient
  imports ClientStreamingClient
begin

text \<open>
  \<open>src/client/bidi_streaming_call_state.{h,cc}\<close>: the client side of a bidirectional call, with a
  reader and a writer; every status is set in both.
\<close>

record BidiStreamingClientCallState =
  xb_ctx :: "ClientContext option"
  xb_timer :: "int option"
  xb_reader :: RawClientReaderImpl
  xb_writer :: RawClientWriterImpl
  xb_lpm :: ClientLpm
  xb_attached :: bool
  xb_closed :: bool
  xb_trailers_done :: bool
  xb_posted :: "stream_post list"

definition new_BidiStreamingClientCallState :: "ClientContext option \<Rightarrow> BidiStreamingClientCallState" where
  "new_BidiStreamingClientCallState ctx = \<lparr>xb_ctx = ctx, xb_timer = None, xb_reader = new_RawClientReaderImpl,
     xb_writer = new_RawClientWriterImpl, xb_lpm = new_ClientLpm, xb_attached = False, xb_closed = False,
     xb_trailers_done = False, xb_posted = []\<rparr>"

definition xb_ArmTimer :: "int \<Rightarrow> BidiStreamingClientCallState \<Rightarrow> BidiStreamingClientCallState" where
  "xb_ArmTimer now s = s\<lparr>xb_timer := arm_timer now (xb_ctx s) (xb_timer s)\<rparr>"

definition xb_Fail :: "Status \<Rightarrow> BidiStreamingClientCallState \<Rightarrow> BidiStreamingClientCallState" where
  "xb_Fail st s =
     (if xb_closed s then s
      else s\<lparr>xb_closed := True, xb_timer := None, xb_posted := xb_posted s @ [FailPost st]\<rparr>)"

definition xb_Cancel :: "BidiStreamingClientCallState \<Rightarrow> BidiStreamingClientCallState" where
  "xb_Cancel s = xb_Fail (mk_status CANCELLED ''call cancelled'') s"

definition xb_OnTimer :: "bool \<Rightarrow> BidiStreamingClientCallState \<Rightarrow> BidiStreamingClientCallState" where
  "xb_OnTimer aborted s =
     (if aborted then s else xb_Fail (mk_status DEADLINE_EXCEEDED ''deadline exceeded'') s)"

definition xb_OnStreamClose :: "u32 \<Rightarrow> BidiStreamingClientCallState \<Rightarrow> BidiStreamingClientCallState" where
  "xb_OnStreamClose error_code s =
     (let s1 = s\<lparr>xb_writer := (xb_writer s)\<lparr>cw_req := False\<rparr>\<rparr>
      in if xb_closed s1 then s1
         else s1\<lparr>xb_closed := True, xb_timer := None,
                 xb_posted := xb_posted s1 @ [ClosePost error_code (xb_trailers_done s1)]\<rparr>)"

definition xb_MaybeDeliverStatus :: "Status \<Rightarrow> BidiStreamingClientCallState \<Rightarrow> BidiStreamingClientCallState" where
  "xb_MaybeDeliverStatus st s = s\<lparr>xb_trailers_done := True, xb_reader := reader_status st (xb_reader s),
     xb_writer := cw_SetFinalStatus st (xb_writer s)\<rparr>"

definition both_error :: "Status \<Rightarrow> BidiStreamingClientCallState \<Rightarrow> BidiStreamingClientCallState" where
  "both_error st s = s\<lparr>xb_reader := reader_error st (xb_reader s), xb_writer := cw_SetFinalStatus st (xb_writer s)\<rparr>"

fun xb_run_post :: "stream_post \<Rightarrow> BidiStreamingClientCallState \<Rightarrow> BidiStreamingClientCallState" where
  "xb_run_post (FailPost st) s = both_error st s"
| "xb_run_post (ClosePost error_code trailers_done) s =
     (if \<not> trailers_done then both_error (close_status error_code) s else s)"
| "xb_run_post (TrailersOnlyPost st) s =
     (if xb_closed s then s else xb_MaybeDeliverStatus st (s\<lparr>xb_closed := True, xb_timer := None\<rparr>))"

definition xb_RunPosted :: "nat \<Rightarrow> BidiStreamingClientCallState \<Rightarrow> BidiStreamingClientCallState" where
  "xb_RunPosted i s =
     (if i < length (xb_posted s)
      then xb_run_post (xb_posted s ! i) (s\<lparr>xb_posted := drop_nth i (xb_posted s)\<rparr>) else s)"

definition xb_Attach :: "int \<Rightarrow> header_map \<Rightarrow> BidiStreamingClientCallState \<Rightarrow> BidiStreamingClientCallState" where
  "xb_Attach http_status hdrs s =
     (if \<not> is_grpc_head hdrs then xb_Fail (FromHttpStatus http_status) s
      else if http_status \<noteq> 200 then xb_Fail (FromHttpStatus http_status) s
      else if mm_find hdrs ''grpc-status'' \<noteq> None
      then s\<lparr>xb_posted := xb_posted s @ [TrailersOnlyPost (ExtractTrailerStatus hdrs)]\<rparr>
      else s\<lparr>xb_attached := True\<rparr>)"

definition xb_OnData :: "bytes \<Rightarrow> BidiStreamingClientCallState \<Rightarrow> BidiStreamingClientCallState option" where
  "xb_OnData copy s =
     (if copy = [] then Some s
      else if xb_closed s then Some s
      else
        case client_lpm_loop (recv_limit (xb_ctx s)) (xb_lpm s) copy of
          None \<Rightarrow> None
        | Some (p, msgs, st) \<Rightarrow>
            let s1 = s\<lparr>xb_lpm := p, xb_reader := (xb_reader s)\<lparr>cr_msg_queue := fold Push msgs (cr_msg_queue (xb_reader s))\<rparr>\<rparr>
            in Some (if is_ok st then s1 else xb_Fail st s1))"

definition xb_OnTrailers :: "header_map \<Rightarrow> BidiStreamingClientCallState \<Rightarrow> BidiStreamingClientCallState" where
  "xb_OnTrailers trailers s =
     (if xb_closed s then s else xb_MaybeDeliverStatus (ExtractTrailerStatus trailers) s)"

text \<open>The application writes and reads.\<close>

definition xb_Write :: "bytes \<Rightarrow> BidiStreamingClientCallState \<Rightarrow> Status \<times> BidiStreamingClientCallState" where
  "xb_Write m s = (case Enqueue m (xb_writer s) of (st, w) \<Rightarrow> (st, s\<lparr>xb_writer := w\<rparr>))"

definition xb_Read :: "BidiStreamingClientCallState \<Rightarrow> (Status \<times> bytes option) option \<times> BidiStreamingClientCallState" where
  "xb_Read s = (case RawClientReader_Read (xb_reader s) of (r, rd) \<Rightarrow> (r, s\<lparr>xb_reader := rd\<rparr>))"

inductive xb_step :: "BidiStreamingClientCallState \<Rightarrow> BidiStreamingClientCallState \<Rightarrow> bool" where
  xb_attach: "xb_step s (xb_Attach http_status hdrs s)"
| xb_data: "xb_attached s \<Longrightarrow> xb_OnData copy s = Some s' \<Longrightarrow> xb_step s s'"
| xb_trailers: "xb_attached s \<Longrightarrow> xb_step s (xb_OnTrailers trailers s)"
| xb_arm: "xb_step s (xb_ArmTimer now s)"
| xb_timer: "xb_step s (xb_OnTimer aborted s)"
| xb_cancel: "xb_step s (xb_Cancel s)"
| xb_fail: "xb_step s (xb_Fail st s)"
| xb_close: "xb_step s (xb_OnStreamClose error_code s)"
| xb_post: "xb_step s (xb_RunPosted i s)"
| xb_write: "xb_step s (snd (xb_Write m s))"
| xb_writes_done: "xb_step s (s\<lparr>xb_writer := MarkWritesDone (xb_writer s)\<rparr>)"
| xb_strand: "xb_step s (s\<lparr>xb_writer := cw_RunPosted (xb_writer s)\<rparr>)"
| xb_pull: "xb_step s (s\<lparr>xb_writer := snd (cw_Pull len (xb_writer s))\<rparr>)"
| xb_read: "xb_step s (snd (xb_Read s))"

section \<open>Invariants\<close>

lemma xb_handles_sel [simp]:
  "xb_closed (snd (xb_Write m s)) = xb_closed s" "xb_closed (snd (xb_Read s)) = xb_closed s"
  "xb_trailers_done (snd (xb_Write m s)) = xb_trailers_done s" "xb_trailers_done (snd (xb_Read s)) = xb_trailers_done s"
  "xb_posted (snd (xb_Write m s)) = xb_posted s" "xb_posted (snd (xb_Read s)) = xb_posted s"
  "xb_reader (snd (xb_Write m s)) = xb_reader s" "xb_writer (snd (xb_Read s)) = xb_writer s"
  "xb_writer (snd (xb_Write m s)) = snd (Enqueue m (xb_writer s))"
  "xb_reader (snd (xb_Read s)) = snd (RawClientReader_Read (xb_reader s))"
  by (simp_all add: xb_Write_def xb_Read_def case_prod_unfold)

lemmas xb_defs = xb_Attach_def xb_OnTrailers_def xb_ArmTimer_def xb_OnTimer_def xb_Cancel_def xb_Fail_def
  xb_OnStreamClose_def xb_MaybeDeliverStatus_def both_error_def Let_def

lemma xb_OnData_keeps:
  "xb_OnData copy s = Some s' \<Longrightarrow> cr_status_ready (xb_reader s') = cr_status_ready (xb_reader s)
     \<and> cr_final_status (xb_reader s') = cr_final_status (xb_reader s) \<and> xb_writer s' = xb_writer s
     \<and> xb_trailers_done s' = xb_trailers_done s
     \<and> (xb_closed s' = xb_closed s \<and> xb_posted s' = xb_posted s
        \<or> \<not> xb_closed s \<and> xb_closed s' \<and> (\<exists>st. xb_posted s' = xb_posted s @ [FailPost st]))"
  by (auto simp: xb_OnData_def xb_Fail_def Let_def split: if_splits option.splits)

interpretation xb_delivery: status_delivery xb_step xb_closed xb_trailers_done "\<lambda>s. cr_status_ready (xb_reader s)" xb_posted
proof
  fix s s' assume "xb_step s s'"
  then show "delivery_change (xb_closed s, xb_trailers_done s, cr_status_ready (xb_reader s), xb_posted s)
      (xb_closed s', xb_trailers_done s', cr_status_ready (xb_reader s'), xb_posted s')"
  proof (induction rule: xb_step.induct)
    case (xb_post s i)
    then show ?case
      by (cases "i < length (xb_posted s)"; cases "xb_posted s ! i")
        (auto simp: delivery_change_def xb_RunPosted_def list_ex_drop_nth xb_defs)
  qed (auto simp: delivery_change_def xb_defs dest: xb_OnData_keeps)
qed

interpretation xb_data: stream_user "\<lambda>s copy. xb_OnData copy s" "client_lpm_loop m" xb_lpm
  "\<lambda>p ms s. s\<lparr>xb_lpm := p, xb_reader := (xb_reader s)\<lparr>cr_msg_queue := fold Push ms (cr_msg_queue (xb_reader s))\<rparr>\<rparr>"
  xb_closed xb_Fail "\<lambda>s. recv_limit (xb_ctx s) = m" for m
  by unfold_locales (simp_all add: xb_OnData_def xb_Fail_def Let_def)

lemma xb_receives:
  assumes "\<not> xb_closed s" "xb_lpm s = new_ClientLpm" "list_all (\<lambda>c. c \<noteq> []) chunks"
    and "lpm_spec (\<lambda>_. True) (recv_limit (xb_ctx s)) (concat chunks) = (msgs, Rest r)"
  shows "\<exists>s'. feeds (\<lambda>s copy. xb_OnData copy s) s chunks = Some s'
    \<and> xb_reader (xb_OnTrailers t s') = reader_status (ExtractTrailerStatus t)
        ((xb_reader s)\<lparr>cr_msg_queue := fold Push msgs (cr_msg_queue (xb_reader s))\<rparr>)
    \<and> xb_writer (xb_OnTrailers t s') = cw_SetFinalStatus (ExtractTrailerStatus t) (xb_writer s)"
proof -
  obtain p where p: "feeds (stream_feed (client_lpm_loop (recv_limit (xb_ctx s)))) (xb_lpm s, [], status_ok) chunks
    = Some (p, msgs, status_ok)"
    using client_stream_run [of "recv_limit (xb_ctx s)" chunks] assms(2,4) by auto
  then show ?thesis
    using xb_data.follows_parser [OF refl assms(1,3) p] assms(1) by (simp add: xb_OnTrailers_def xb_MaybeDeliverStatus_def)
qed

text \<open>The writer's own operations do not touch the status.\<close>

lemma writer_final_status [simp]:
  "cw_final_status (MarkWritesDone w) = cw_final_status w" "cw_final_status (cw_RunPosted w) = cw_final_status w"
  "cw_final_status (snd (Enqueue m w)) = cw_final_status w" "cw_final_status (snd (cw_Pull len w)) = cw_final_status w"
  by (simp_all add: MarkWritesDone_def cw_RunPosted_def req_resume_def Enqueue_def cw_Pull_def ClientWriterGenerator_def
      Let_def split: list.split writer_post.split option.split)

definition xb_agree :: "BidiStreamingClientCallState \<Rightarrow> bool" where
  "xb_agree s \<longleftrightarrow> cr_status_ready (xb_reader s) = cw_status_ready (xb_writer s)
     \<and> (cr_status_ready (xb_reader s) \<longrightarrow> cr_final_status (xb_reader s) = cw_final_status (xb_writer s))"

lemma xb_agree_step: "xb_step s s' \<Longrightarrow> xb_agree s \<Longrightarrow> xb_agree s'"
proof (induction rule: xb_step.induct)
  case (xb_post s i)
  then show ?case
    by (cases "xb_posted s ! i") (auto simp: xb_agree_def xb_RunPosted_def xb_defs)
qed (auto simp: xb_agree_def xb_defs dest!: xb_OnData_keeps)

section \<open>Properties\<close>

text \<open>
  C21: The two handles of a bidirectional call never disagree: in every interleaving of the
  call's callbacks, posted tasks, writes, reads and pulls, \<open>Finish\<close> of the reader and \<open>Finish\<close> of
  the writer are both pending or return the same status.
\<close>

theorem bidi_client_handles_agree:
  assumes "xb_step\<^sup>*\<^sup>* (new_BidiStreamingClientCallState ctx) s"
  shows "RawClientReader_Finish (xb_reader s) = RawClientWriter_Finish (xb_writer s)"
proof -
  have "xb_agree (new_BidiStreamingClientCallState ctx)"
    by (simp add: xb_agree_def new_BidiStreamingClientCallState_def
        new_RawClientReaderImpl_def new_RawClientWriterImpl_def)
  with assms have "xb_agree s" by (induction rule: rtranclp_induct) (auto dest: xb_agree_step)
  then show ?thesis by (simp add: xb_agree_def RawClientReader_Finish_def RawClientWriter_Finish_def)
qed

theorem bidi_client_handles_agree_witness:
  "RawClientReader_Finish (xb_reader (xb_Cancel (new_BidiStreamingClientCallState None)))
     = RawClientWriter_Finish (xb_writer (xb_Cancel (new_BidiStreamingClientCallState None)))"
  by (rule bidi_client_handles_agree [of None]) (metis r_into_rtranclp xb_step.xb_cancel)

text \<open>
  C20: \<open>Finish\<close> of a streaming call does not poll forever. In the three kinds of streaming call,
  whatever the interleaving, the close of the stream (or a failure, deadline or cancellation)
  closes the call, and once a closed call has no posted task left, \<open>Finish\<close> returns a status.
\<close>

theorem streaming_client_status_arrives:
  "(xs_step\<^sup>*\<^sup>* (new_ServerStreamingClientCallState ctx) s \<longrightarrow>
      xs_closed (xs_OnStreamClose error_code s)
      \<and> (xs_closed s \<and> xs_posted s = [] \<longrightarrow> RawClientReader_Finish (xs_reader s) \<noteq> None))
   \<and> (xc_step\<^sup>*\<^sup>* (new_ClientStreamingClientCallState ctx) t \<longrightarrow>
      xc_closed (xc_OnStreamClose error_code t)
      \<and> (xc_closed t \<and> xc_posted t = [] \<longrightarrow> RawClientWriter_Finish (xc_writer t) \<noteq> None))
   \<and> (xb_step\<^sup>*\<^sup>* (new_BidiStreamingClientCallState ctx) u \<longrightarrow>
      xb_closed (xb_OnStreamClose error_code u)
      \<and> (xb_closed u \<and> xb_posted u = [] \<longrightarrow> RawClientReader_Finish (xb_reader u) \<noteq> None))"
  using xs_delivery.closed_and_idle [of "new_ServerStreamingClientCallState ctx" s]
    xc_delivery.closed_and_idle [of "new_ClientStreamingClientCallState ctx" t]
    xb_delivery.closed_and_idle [of "new_BidiStreamingClientCallState ctx" u]
  by (simp add: new_ServerStreamingClientCallState_def new_ClientStreamingClientCallState_def
      new_BidiStreamingClientCallState_def RawClientReader_Finish_def RawClientWriter_Finish_def
      xs_OnStreamClose_def xc_OnStreamClose_def xb_OnStreamClose_def Let_def)

theorem streaming_client_status_arrives_witness:
  "RawClientReader_Finish (xs_reader (xs_RunPosted 0 (xs_Cancel (new_ServerStreamingClientCallState None)))) \<noteq> None"
proof -
  have "xs_step\<^sup>*\<^sup>* (new_ServerStreamingClientCallState None) (xs_RunPosted 0 (xs_Cancel (new_ServerStreamingClientCallState None)))"
    by (rule rtranclp.rtrancl_into_rtrancl [OF r_into_rtranclp [where r = xs_step, OF xs_step.xs_cancel] xs_step.xs_post])
  then show ?thesis
    using streaming_client_status_arrives [of None "xs_RunPosted 0 (xs_Cancel (new_ServerStreamingClientCallState None))" 0]
    by (simp add: xs_Cancel_def xs_Fail_def xs_RunPosted_def new_ServerStreamingClientCallState_def drop_nth_def)
qed

end
