(* ===== verification/Channel.thy ===== *)
theory Channel
  imports ChannelTls BidiClient Timeout
begin

text \<open>
  \<open>ChannelImpl\<close> and the completion objects of unary calls (\<open>src/client/channel_impl.{h,cc}\<close>).

  Everything runs on the channel's strand, so each operation and each session callback is one
  atomic function on the state. Calls are numbered; \<open>ch_calls\<close> and \<open>ch_streams\<close> hold their call
  states, \<open>ch_completions\<close> the \<open>UnaryCallCompletion\<close> and \<open>UnaryCallControl\<close> of a unary call, and
  \<open>ch_handles\<close> the streaming calls whose handle has been given to the caller. A pending streaming
  lambda is the record of what it captures. \<open>ch_requests\<close> records the requests submitted to the
  session, \<open>ch_resets\<close> the calls of \<open>request::cancel\<close>, \<open>ch_waiter_results\<close> the calls of connect
  callbacks. The environment \<open>ChannelEnv\<close> has Asio's error numbers, OpenSSL's answers and, for
  every call number, what \<open>session::submit\<close> answers: an error code or a stream id.
\<close>

datatype ConnState = kIdle | kConnecting | kReady | kFailed | kShutdown

section \<open>Completion of unary calls\<close>

record UnaryCallCompletion =
  un_completed :: bool
  un_results :: "UnaryResultRaw list"
  un_cancelled :: bool
  un_cancel_stream :: bool

definition new_UnaryCallCompletion :: UnaryCallCompletion where
  "new_UnaryCallCompletion = \<lparr>un_completed = False, un_results = [], un_cancelled = False, un_cancel_stream = False\<rparr>"

definition un_Complete :: "UnaryResultRaw \<Rightarrow> UnaryCallCompletion \<Rightarrow> UnaryCallCompletion" where
  "un_Complete result c =
     (if un_completed c then c
      else c\<lparr>un_completed := True, un_cancel_stream := False, un_results := un_results c @ [result]\<rparr>)"

section \<open>Streaming calls\<close>

datatype stream_kind = ServerStreaming | ClientStreaming | BidiStreaming

datatype StreamCall =
    SsCall ServerStreamingClientCallState
  | CsCall ClientStreamingClientCallState
  | BdCall BidiStreamingClientCallState

definition new_stream :: "stream_kind \<Rightarrow> ClientContext option \<Rightarrow> StreamCall" where
  "new_stream kind ctx = (case kind of
     ServerStreaming \<Rightarrow> SsCall (new_ServerStreamingClientCallState ctx)
   | ClientStreaming \<Rightarrow> CsCall (new_ClientStreamingClientCallState ctx)
   | BidiStreaming \<Rightarrow> BdCall (new_BidiStreamingClientCallState ctx))"

fun stream_Fail :: "Status \<Rightarrow> StreamCall \<Rightarrow> StreamCall" where
  "stream_Fail st (SsCall s) = SsCall (xs_Fail st s)"
| "stream_Fail st (CsCall s) = CsCall (xc_Fail st s)"
| "stream_Fail st (BdCall s) = BdCall (xb_Fail st s)"

fun stream_Cancel :: "StreamCall \<Rightarrow> StreamCall" where
  "stream_Cancel (SsCall s) = SsCall (xs_Cancel s)"
| "stream_Cancel (CsCall s) = CsCall (xc_Cancel s)"
| "stream_Cancel (BdCall s) = BdCall (xb_Cancel s)"

fun stream_ArmTimer :: "int \<Rightarrow> StreamCall \<Rightarrow> StreamCall" where
  "stream_ArmTimer now (SsCall s) = SsCall (xs_ArmTimer now s)"
| "stream_ArmTimer now (CsCall s) = CsCall (xc_ArmTimer now s)"
| "stream_ArmTimer now (BdCall s) = BdCall (xb_ArmTimer now s)"

fun stream_OnStreamClose :: "u32 \<Rightarrow> StreamCall \<Rightarrow> StreamCall" where
  "stream_OnStreamClose ec (SsCall s) = SsCall (xs_OnStreamClose ec s)"
| "stream_OnStreamClose ec (CsCall s) = CsCall (xc_OnStreamClose ec s)"
| "stream_OnStreamClose ec (BdCall s) = BdCall (xb_OnStreamClose ec s)"

fun stream_closed :: "StreamCall \<Rightarrow> bool" where
  "stream_closed (SsCall s) = xs_closed s"
| "stream_closed (CsCall s) = xc_closed s"
| "stream_closed (BdCall s) = xb_closed s"

text \<open>\<open>writer_impl->req_ = req\<close> in the two submits with a generator.\<close>

fun stream_set_req :: "StreamCall \<Rightarrow> StreamCall" where
  "stream_set_req (SsCall s) = SsCall s"
| "stream_set_req (CsCall s) = CsCall (s\<lparr>xc_writer := (xc_writer s)\<lparr>cw_req := True\<rparr>\<rparr>)"
| "stream_set_req (BdCall s) = BdCall (s\<lparr>xb_writer := (xb_writer s)\<lparr>cw_req := True\<rparr>\<rparr>)"

section \<open>State\<close>

record PendingCall =
  pc_id :: nat
  pc_path :: string
  pc_ctx :: "ClientContext option"
  pc_request_bytes :: bytes

record GenericCall =
  gc_id :: nat
  gc_kind :: stream_kind
  gc_path :: string
  gc_ctx :: "ClientContext option"
  gc_request_bytes :: bytes

record ChannelEnv =
  ce_asio :: AsioErrs
  ce_tls :: TlsEnv
  ce_submit :: "nat \<Rightarrow> (int \<times> string) + int"

record ChannelImpl =
  ch_host :: string
  ch_port :: nat
  ch_opts :: ChannelOptions
  ch_state :: ConnState
  ch_pending_calls :: "PendingCall list"
  ch_pending_generic_calls :: "GenericCall list"
  ch_session :: bool
  ch_connecting_session :: bool
  ch_connect_waiters :: "nat list"
  ch_terminal_status :: "Status option"
  ch_active_calls :: "(int \<times> nat) list"
  ch_active_streaming_calls :: "(int \<times> nat) list"
  ch_next :: nat
  ch_calls :: "nat \<rightharpoonup> ClientCallState"
  ch_completions :: "nat \<rightharpoonup> UnaryCallCompletion"
  ch_streams :: "nat \<rightharpoonup> StreamCall"
  ch_handles :: "nat list"
  ch_waiter_results :: "(nat \<times> Status) list"
  ch_requests :: "(nat \<times> string \<times> bytes option \<times> header_map) list"
  ch_resets :: "nat list"

definition new_ChannelImpl :: "string \<Rightarrow> nat \<Rightarrow> ChannelOptions \<Rightarrow> ChannelImpl" where
  "new_ChannelImpl host port opts = \<lparr>ch_host = host, ch_port = port, ch_opts = opts, ch_state = kIdle,
     ch_pending_calls = [], ch_pending_generic_calls = [], ch_session = False, ch_connecting_session = False,
     ch_connect_waiters = [], ch_terminal_status = None, ch_active_calls = [], ch_active_streaming_calls = [],
     ch_next = 0, ch_calls = Map.empty, ch_completions = Map.empty, ch_streams = Map.empty, ch_handles = [],
     ch_waiter_results = [], ch_requests = [], ch_resets = []\<rparr>"

definition RequestUri :: "string \<Rightarrow> ChannelImpl \<Rightarrow> string" where
  "RequestUri path ch =
     (let tls = co_use_tls (ch_opts ch) \<and> \<not> co_use_h2c (ch_opts ch)
      in (if tls then ''https://'' else ''http://'') @ ch_host ch @ '':'' @ int_to_string (int (ch_port ch)) @ path)"

definition ShutdownStatus :: "ChannelImpl \<Rightarrow> Status" where
  "ShutdownStatus ch = (case ch_terminal_status ch of Some st \<Rightarrow> st | None \<Rightarrow> mk_status CANCELLED ''channel shut down'')"

text \<open>\<open>std::map::emplace\<close> and \<open>erase\<close> on the active calls.\<close>

definition map_emplace :: "int \<Rightarrow> nat \<Rightarrow> (int \<times> nat) list \<Rightarrow> (int \<times> nat) list" where
  "map_emplace k v m = (if k \<in> fst ` set m then m else (k, v) # m)"

definition map_erase :: "int \<Rightarrow> (int \<times> nat) list \<Rightarrow> (int \<times> nat) list" where
  "map_erase k m = filter (\<lambda>(k', v). k' \<noteq> k) m"

text \<open>Applying an operation to call \<open>i\<close>.\<close>

definition upd_call :: "(ClientCallState \<Rightarrow> ClientCallState) \<Rightarrow> nat \<Rightarrow> ChannelImpl \<Rightarrow> ChannelImpl" where
  "upd_call f i ch = ch\<lparr>ch_calls := (ch_calls ch)(i := map_option f (ch_calls ch i))\<rparr>"

definition upd_stream :: "(StreamCall \<Rightarrow> StreamCall) \<Rightarrow> nat \<Rightarrow> ChannelImpl \<Rightarrow> ChannelImpl" where
  "upd_stream f i ch = ch\<lparr>ch_streams := (ch_streams ch)(i := map_option f (ch_streams ch i))\<rparr>"

definition complete_unary :: "nat \<Rightarrow> UnaryResultRaw \<Rightarrow> ChannelImpl \<Rightarrow> ChannelImpl" where
  "complete_unary i result ch =
     ch\<lparr>ch_completions := (ch_completions ch)(i := map_option (un_Complete result) (ch_completions ch i))\<rparr>"

text \<open>\<open>UnaryCallControl::Cancel\<close> once \<open>cancelled_\<close> is set: reset the stream and cancel its call state.\<close>

definition cancel_stream :: "nat \<Rightarrow> ChannelImpl \<Rightarrow> ChannelImpl" where
  "cancel_stream i ch =
     (case ch_completions ch i of
        None \<Rightarrow> ch
      | Some c \<Rightarrow> if un_cancel_stream c then upd_call uc_Cancel i (ch\<lparr>ch_resets := ch_resets ch @ [i]\<rparr>) else ch)"

definition control_Cancel :: "nat \<Rightarrow> ChannelImpl \<Rightarrow> ChannelImpl" where
  "control_Cancel i ch =
     cancel_stream i (ch\<lparr>ch_completions := (ch_completions ch)(i := map_option (un_cancelled_update (\<lambda>_. True)) (ch_completions ch i))\<rparr>)"

definition SetCancelStream :: "nat \<Rightarrow> ChannelImpl \<Rightarrow> ChannelImpl" where
  "SetCancelStream i ch =
     (let ch1 = ch\<lparr>ch_completions := (ch_completions ch)(i := map_option (un_cancel_stream_update (\<lambda>_. True)) (ch_completions ch i))\<rparr>
      in case ch_completions ch1 i of
           None \<Rightarrow> ch1
         | Some c \<Rightarrow> if un_cancelled c then control_Cancel i ch1 else ch1)"

text \<open>\<open>UnaryCallCompletion::Cancel\<close>, reached from \<open>ClientContext::Cancel\<close> or the coroutine's slot.\<close>

definition CancelCall :: "nat \<Rightarrow> ChannelImpl \<Rightarrow> ChannelImpl" where
  "CancelCall i ch = complete_unary i (raw_result (mk_status CANCELLED ''call cancelled'')) (control_Cancel i ch)"

section \<open>Submitting\<close>

text \<open>
  The request headers, built by the same statements in \<open>SubmitCall\<close> and \<open>BuildStreamingGrpcHeaders\<close>;
  \<open>Inl\<close> is a deadline that has passed.
\<close>

definition BuildStreamingGrpcHeaders :: "int \<Rightarrow> ChannelOptions \<Rightarrow> ClientContext option \<Rightarrow> Status + header_map" where
  "BuildStreamingGrpcHeaders now opts ctx =
     (let h1 = mm_emplace ''user-agent'' (plain_value (co_user_agent opts))
                 (mm_emplace ''te'' (plain_value ''trailers'')
                   (mm_emplace ''content-type'' (plain_value ''application/grpc+proto'') []))
      in case ctx of
           None \<Rightarrow> Inr h1
         | Some c \<Rightarrow>
             let d = deadline_from_now now c
             in if cc_deadline c \<noteq> None \<and> d \<le> 0 then Inl (mk_status DEADLINE_EXCEEDED ''deadline already passed'')
                else
                  let h2 = (if cc_deadline c \<noteq> None \<and> FormatTimeout d \<noteq> []
                            then mm_emplace ''grpc-timeout'' (plain_value (FormatTimeout d)) h1 else h1);
                      h3 = (if cc_compression_algorithm c \<noteq> ''identity''
                            then mm_emplace ''grpc-encoding'' (plain_value (cc_compression_algorithm c)) h2 else h2)
                  in Inr (MetadataToNghttp2Headers (cc_send_metadata c) h3))"

definition submit_error :: "ChannelEnv \<Rightarrow> int \<times> string \<Rightarrow> Status" where
  "submit_error env ec = mk_status (AsioErrorToStatusCode (ce_asio env) (fst ec) False) (''stream submit failed: '' @ snd ec)"

text \<open>\<open>SubmitCall\<close> on a channel that is neither shut down, idle nor connecting.\<close>

definition submit_unary_now :: "ChannelEnv \<Rightarrow> int \<Rightarrow> PendingCall \<Rightarrow> ChannelImpl \<Rightarrow> ChannelImpl" where
  "submit_unary_now env now p ch =
     (let i = pc_id p; fail = (\<lambda>st. complete_unary i (raw_result st) ch)
      in if ch_state ch = kFailed then fail (mk_status UNAVAILABLE ''channel failed'')
         else case BuildStreamingGrpcHeaders now (ch_opts ch) (pc_ctx p) of
           Inl st \<Rightarrow> fail st
         | Inr hdrs \<Rightarrow>
         case EncodeFrame 0 (pc_request_bytes p) of
           None \<Rightarrow> fail (mk_status RESOURCE_EXHAUSTED ''request too large'')
         | Some frame \<Rightarrow>
             let call = new_ClientCallState (pc_ctx p)
             in case ce_submit env i of
                  Inl ec \<Rightarrow> ch\<lparr>ch_calls := (ch_calls ch)(i \<mapsto> uc_Fail (submit_error env ec) call)\<rparr>
                | Inr stream_id \<Rightarrow>
                    let ch1 = ch\<lparr>ch_calls := (ch_calls ch)(i \<mapsto> call),
                                 ch_requests := ch_requests ch @ [(i, RequestUri (pc_path p) ch, Some frame, hdrs)],
                                 ch_active_calls := map_emplace stream_id i (ch_active_calls ch)\<rparr>
                    in upd_call (uc_ArmTimer now) i (SetCancelStream i ch1))"

text \<open>The two checks of \<open>SubmitCall\<close> that come first.\<close>

definition submit_unary_guard :: "PendingCall \<Rightarrow> ChannelImpl \<Rightarrow> Status option" where
  "submit_unary_guard p ch =
     (if (case ch_completions ch (pc_id p) of None \<Rightarrow> False | Some c \<Rightarrow> un_cancelled c)
      then Some (mk_status CANCELLED ''call cancelled'')
      else if ch_state ch = kShutdown then Some (ShutdownStatus ch) else None)"

definition fail_stream :: "GenericCall \<Rightarrow> Status \<Rightarrow> ChannelImpl \<Rightarrow> ChannelImpl" where
  "fail_stream g st ch =
     ch\<lparr>ch_streams := (ch_streams ch)(gc_id g \<mapsto> stream_Fail st (new_stream (gc_kind g) (gc_ctx g))),
        ch_handles := ch_handles ch @ [gc_id g]\<rparr>"

text \<open>The three streaming submits on a channel that is neither idle nor connecting.\<close>

definition submit_stream_now :: "ChannelEnv \<Rightarrow> int \<Rightarrow> GenericCall \<Rightarrow> ChannelImpl \<Rightarrow> ChannelImpl" where
  "submit_stream_now env now g ch =
     (let i = gc_id g
      in if ch_state ch = kShutdown then fail_stream g (ShutdownStatus ch) ch
         else if ch_state ch = kFailed then fail_stream g (mk_status UNAVAILABLE ''channel failed'') ch
         else case BuildStreamingGrpcHeaders now (ch_opts ch) (gc_ctx g) of
           Inl st \<Rightarrow> fail_stream g st ch
         | Inr hdrs \<Rightarrow>
         let body = (if gc_kind g = ServerStreaming then EncodeFrame 0 (gc_request_bytes g) else None)
         in if gc_kind g = ServerStreaming \<and> body = None
            then fail_stream g (mk_status RESOURCE_EXHAUSTED ''request too large'') ch
            else case ce_submit env i of
              Inl ec \<Rightarrow> fail_stream g (submit_error env ec) ch
            | Inr stream_id \<Rightarrow>
                ch\<lparr>ch_streams := (ch_streams ch)(i \<mapsto>
                      stream_ArmTimer now (stream_set_req (new_stream (gc_kind g) (gc_ctx g)))),
                   ch_requests := ch_requests ch @ [(i, RequestUri (gc_path g) ch, body, hdrs)],
                   ch_active_streaming_calls := map_emplace stream_id i (ch_active_streaming_calls ch),
                   ch_handles := ch_handles ch @ [i]\<rparr>)"

text \<open>
  A queued call or lambda runs its submit again. That happens only when the state has left
  \<open>kIdle\<close> and \<open>kConnecting\<close> (see \<open>channel_queue\<close> below), where it would be queued again.
\<close>

definition resubmit_unary :: "ChannelEnv \<Rightarrow> int \<Rightarrow> PendingCall \<Rightarrow> ChannelImpl \<Rightarrow> ChannelImpl" where
  "resubmit_unary env now p ch =
     (case submit_unary_guard p ch of
        Some st \<Rightarrow> complete_unary (pc_id p) (raw_result st) ch
      | None \<Rightarrow> if ch_state ch = kIdle \<or> ch_state ch = kConnecting
                then ch\<lparr>ch_pending_calls := ch_pending_calls ch @ [p]\<rparr>
                else submit_unary_now env now p ch)"

definition resubmit_stream :: "ChannelEnv \<Rightarrow> int \<Rightarrow> GenericCall \<Rightarrow> ChannelImpl \<Rightarrow> ChannelImpl" where
  "resubmit_stream env now g ch =
     (if ch_state ch = kIdle \<or> ch_state ch = kConnecting
      then ch\<lparr>ch_pending_generic_calls := ch_pending_generic_calls ch @ [g]\<rparr>
      else submit_stream_now env now g ch)"

definition FailAll :: "ChannelEnv \<Rightarrow> int \<Rightarrow> Status \<Rightarrow> ChannelImpl \<Rightarrow> ChannelImpl" where
  "FailAll env now status ch =
     (let pending = ch_pending_calls ch;
          ch1 = fold (\<lambda>p. complete_unary (pc_id p) (raw_result status)) pending (ch\<lparr>ch_pending_calls := []\<rparr>);
          generic_pending = ch_pending_generic_calls ch1
      in fold (resubmit_stream env now) generic_pending (ch1\<lparr>ch_pending_generic_calls := []\<rparr>))"

definition run_waiters :: "Status \<Rightarrow> ChannelImpl \<Rightarrow> ChannelImpl" where
  "run_waiters st ch = ch\<lparr>ch_connect_waiters := [],
     ch_waiter_results := ch_waiter_results ch @ map (\<lambda>w. (w, st)) (ch_connect_waiters ch)\<rparr>"

definition DrainWithStatus :: "ChannelEnv \<Rightarrow> int \<Rightarrow> Status \<Rightarrow> ChannelImpl \<Rightarrow> ChannelImpl" where
  "DrainWithStatus env now st ch = FailAll env now st (run_waiters st ch)"

definition DoConnect :: "ChannelEnv \<Rightarrow> int \<Rightarrow> ChannelImpl \<Rightarrow> ChannelImpl" where
  "DoConnect env now ch =
     (if co_use_tls (ch_opts ch) \<and> \<not> co_use_h2c (ch_opts ch) then
        let st = fst (BuildTlsContext (ce_tls env) (ch_opts ch))
        in if \<not> is_ok st
           then DrainWithStatus env now st (ch\<lparr>ch_state := kShutdown, ch_terminal_status := Some st\<rparr>)
           else ch\<lparr>ch_connecting_session := True\<rparr>
      else ch\<lparr>ch_connecting_session := True\<rparr>)"

definition connect_if_idle :: "ChannelEnv \<Rightarrow> int \<Rightarrow> ChannelImpl \<Rightarrow> ChannelImpl" where
  "connect_if_idle env now ch =
     (if ch_state ch = kIdle then DoConnect env now (ch\<lparr>ch_state := kConnecting\<rparr>) else ch)"

definition SubmitCall :: "ChannelEnv \<Rightarrow> int \<Rightarrow> PendingCall \<Rightarrow> ChannelImpl \<Rightarrow> ChannelImpl" where
  "SubmitCall env now p ch =
     (case submit_unary_guard p ch of
        Some st \<Rightarrow> complete_unary (pc_id p) (raw_result st) ch
      | None \<Rightarrow>
          if ch_state ch = kIdle \<or> ch_state ch = kConnecting
          then connect_if_idle env now (ch\<lparr>ch_pending_calls := ch_pending_calls ch @ [p]\<rparr>)
          else submit_unary_now env now p ch)"

definition submit_stream :: "ChannelEnv \<Rightarrow> int \<Rightarrow> GenericCall \<Rightarrow> ChannelImpl \<Rightarrow> ChannelImpl" where
  "submit_stream env now g ch =
     (if ch_state ch = kIdle \<or> ch_state ch = kConnecting
      then connect_if_idle env now (ch\<lparr>ch_pending_generic_calls := ch_pending_generic_calls ch @ [g]\<rparr>)
      else submit_stream_now env now g ch)"

text \<open>The public entry points; each takes the next call number.\<close>

definition UnaryCallRaw :: "ChannelEnv \<Rightarrow> int \<Rightarrow> string \<Rightarrow> ClientContext \<Rightarrow> bytes \<Rightarrow> ChannelImpl \<Rightarrow> ChannelImpl" where
  "UnaryCallRaw env now path ctx req_bytes ch =
     (let i = ch_next ch
      in SubmitCall env now \<lparr>pc_id = i, pc_path = path, pc_ctx = Some ctx, pc_request_bytes = req_bytes\<rparr>
           (ch\<lparr>ch_next := i + 1, ch_completions := (ch_completions ch)(i \<mapsto> new_UnaryCallCompletion)\<rparr>))"

definition SubmitServerStreamingCall :: "ChannelEnv \<Rightarrow> int \<Rightarrow> string \<Rightarrow> ClientContext option \<Rightarrow> bytes \<Rightarrow> ChannelImpl \<Rightarrow> ChannelImpl" where
  "SubmitServerStreamingCall env now path ctx request_bytes ch =
     submit_stream env now \<lparr>gc_id = ch_next ch, gc_kind = ServerStreaming, gc_path = path, gc_ctx = ctx,
       gc_request_bytes = request_bytes\<rparr> (ch\<lparr>ch_next := ch_next ch + 1\<rparr>)"

definition SubmitClientStreamingCall :: "ChannelEnv \<Rightarrow> int \<Rightarrow> string \<Rightarrow> ClientContext option \<Rightarrow> ChannelImpl \<Rightarrow> ChannelImpl" where
  "SubmitClientStreamingCall env now path ctx ch =
     submit_stream env now \<lparr>gc_id = ch_next ch, gc_kind = ClientStreaming, gc_path = path, gc_ctx = ctx,
       gc_request_bytes = []\<rparr> (ch\<lparr>ch_next := ch_next ch + 1\<rparr>)"

definition SubmitBidiStreamingCall :: "ChannelEnv \<Rightarrow> int \<Rightarrow> string \<Rightarrow> ClientContext option \<Rightarrow> ChannelImpl \<Rightarrow> ChannelImpl" where
  "SubmitBidiStreamingCall env now path ctx ch =
     submit_stream env now \<lparr>gc_id = ch_next ch, gc_kind = BidiStreaming, gc_path = path, gc_ctx = ctx,
       gc_request_bytes = []\<rparr> (ch\<lparr>ch_next := ch_next ch + 1\<rparr>)"

section \<open>Connection\<close>

definition Connect :: "ChannelEnv \<Rightarrow> int \<Rightarrow> nat \<Rightarrow> ChannelImpl \<Rightarrow> ChannelImpl" where
  "Connect env now w ch =
     (let answer = (\<lambda>st. ch\<lparr>ch_waiter_results := ch_waiter_results ch @ [(w, st)]\<rparr>)
      in if ch_state ch = kShutdown then answer (ShutdownStatus ch)
         else if ch_state ch = kReady then answer status_ok
         else if ch_state ch = kFailed then answer (mk_status UNAVAILABLE ''channel failed'')
         else connect_if_idle env now (ch\<lparr>ch_connect_waiters := ch_connect_waiters ch @ [w]\<rparr>))"

text \<open>An error code is its value and message; \<open>None\<close> is success.\<close>

definition DrainQueue :: "ChannelEnv \<Rightarrow> int \<Rightarrow> (int \<times> string) option \<Rightarrow> ChannelImpl \<Rightarrow> ChannelImpl" where
  "DrainQueue env now ec ch =
     (case ec of
        Some e \<Rightarrow>
          let st = mk_status (AsioErrorToStatusCode (ce_asio env) (fst e) True) (''connection failed: '' @ snd e)
          in FailAll env now st (run_waiters st ch)
      | None \<Rightarrow>
          let ch1 = run_waiters status_ok ch;
              pending = ch_pending_calls ch1;
              ch2 = fold (resubmit_unary env now) pending (ch1\<lparr>ch_pending_calls := []\<rparr>);
              generic_pending = ch_pending_generic_calls ch2
          in fold (resubmit_stream env now) generic_pending (ch2\<lparr>ch_pending_generic_calls := []\<rparr>))"

definition OnConnected :: "ChannelEnv \<Rightarrow> int \<Rightarrow> (int \<times> string) option \<Rightarrow> ChannelImpl \<Rightarrow> ChannelImpl" where
  "OnConnected env now ec ch =
     DrainQueue env now ec (ch\<lparr>ch_connecting_session := False, ch_state := (if ec \<noteq> None then kFailed else kReady)\<rparr>)"

definition OnSessionConnect :: "ChannelEnv \<Rightarrow> int \<Rightarrow> ChannelImpl \<Rightarrow> ChannelImpl" where
  "OnSessionConnect env now ch =
     (if ch_state ch = kShutdown then ch\<lparr>ch_connecting_session := False\<rparr>
      else OnConnected env now None (ch\<lparr>ch_connecting_session := False, ch_session := True\<rparr>))"

definition OnSessionError :: "ChannelEnv \<Rightarrow> int \<Rightarrow> int \<times> string \<Rightarrow> ChannelImpl \<Rightarrow> ChannelImpl" where
  "OnSessionError env now ec ch =
     (if ch_state ch = kShutdown then ch
      else if ch_state ch \<noteq> kReady then OnConnected env now (Some ec) ch
      else FailAll env now (mk_status (AsioErrorToStatusCode (ce_asio env) (fst ec) True) (''connection error: '' @ snd ec)) ch)"

definition OnGoaway :: "ChannelEnv \<Rightarrow> int \<Rightarrow> int \<Rightarrow> ChannelImpl \<Rightarrow> ChannelImpl" where
  "OnGoaway env now last_stream_id ch =
     (let st = mk_status UNAVAILABLE (''server sent GOAWAY (last_stream_id='' @ int_to_string last_stream_id @ '')'');
          refused = filter (\<lambda>(k, i). k > last_stream_id);
          kept = filter (\<lambda>(k, i). \<not> k > last_stream_id);
          ch1 = ch\<lparr>ch_state := kFailed\<rparr>;
          ch2 = (fold (\<lambda>(k, i). upd_call (uc_Fail st) i) (refused (ch_active_calls ch1)) ch1)
                  \<lparr>ch_active_calls := kept (ch_active_calls ch1)\<rparr>;
          ch3 = (fold (\<lambda>(k, i). upd_stream (stream_Fail st) i) (refused (ch_active_streaming_calls ch2)) ch2)
                  \<lparr>ch_active_streaming_calls := kept (ch_active_streaming_calls ch2)\<rparr>
      in FailAll env now st ch3)"

definition OnSessionGoaway :: "ChannelEnv \<Rightarrow> int \<Rightarrow> int \<Rightarrow> ChannelImpl \<Rightarrow> ChannelImpl" where
  "OnSessionGoaway env now last_stream_id ch =
     (if ch_state ch = kShutdown then ch else OnGoaway env now last_stream_id ch)"

definition DoShutdown :: "ChannelEnv \<Rightarrow> int \<Rightarrow> ChannelImpl \<Rightarrow> ChannelImpl" where
  "DoShutdown env now ch =
     (if ch_state ch = kShutdown then ch
      else
        let cancelled = mk_status CANCELLED ''channel shut down'';
            ch1 = ch\<lparr>ch_state := kShutdown, ch_connecting_session := False, ch_session := False\<rparr>;
            ch2 = run_waiters cancelled ch1;
            ch3 = (fold (\<lambda>(k, i). upd_call (uc_Fail cancelled) i) (ch_active_calls ch2) ch2)\<lparr>ch_active_calls := []\<rparr>;
            ch4 = (fold (\<lambda>(k, i). upd_stream (stream_Fail cancelled) i) (ch_active_streaming_calls ch3) ch3)
                    \<lparr>ch_active_streaming_calls := []\<rparr>
        in FailAll env now cancelled ch4)"

section \<open>Events of a submitted call\<close>

definition RemoveActiveCall :: "int \<Rightarrow> ChannelImpl \<Rightarrow> ChannelImpl" where
  "RemoveActiveCall stream_id ch = ch\<lparr>ch_active_calls := map_erase stream_id (ch_active_calls ch)\<rparr>"

definition OnRequestClose :: "int \<Rightarrow> nat \<Rightarrow> u32 \<Rightarrow> ChannelImpl \<Rightarrow> ChannelImpl" where
  "OnRequestClose stream_id i error_code ch = upd_call (uc_OnStreamClose error_code) i (RemoveActiveCall stream_id ch)"

definition OnStreamingClose :: "int \<Rightarrow> nat \<Rightarrow> u32 \<Rightarrow> ChannelImpl \<Rightarrow> ChannelImpl" where
  "OnStreamingClose stream_id i error_code ch =
     upd_stream (stream_OnStreamClose error_code) i
       (ch\<lparr>ch_active_streaming_calls := map_erase stream_id (ch_active_streaming_calls ch)\<rparr>)"

text \<open>\<open>ClientContext::Cancel\<close> of a streaming call, which does nothing once the stream is no longer active.\<close>

definition CancelStreaming :: "int \<Rightarrow> nat \<Rightarrow> ChannelImpl \<Rightarrow> ChannelImpl" where
  "CancelStreaming stream_id i ch =
     (if stream_id \<notin> fst ` set (ch_active_streaming_calls ch) then ch
      else upd_stream stream_Cancel i (ch\<lparr>ch_resets := ch_resets ch @ [i]\<rparr>))"

text \<open>The callback a call state has posted runs.\<close>

definition DeliverCompletion :: "nat \<Rightarrow> ChannelImpl \<Rightarrow> ChannelImpl" where
  "DeliverCompletion i ch =
     (case ch_calls ch i of
        Some s \<Rightarrow> (case uc_completions s of r # _ \<Rightarrow> complete_unary i r ch | [] \<Rightarrow> ch)
      | None \<Rightarrow> ch)"

end
