(* ===== verification/ChannelCalls.thy ===== *)
theory ChannelCalls
  imports Channel
begin

text \<open>
  No call of a channel is lost: the step relation of the channel and the invariants behind the
  properties of \<open>ChannelImpl\<close>.

  The table of unary calls and the table of streaming calls obey one contract, the locale
  \<open>call_table\<close>, interpreted on both. The invariants carry the calls that have been taken from the
  queues and are being submitted again as an extra argument, so that the loops of \<open>DrainQueue\<close> and
  \<open>FailAll\<close> are inductions over it.
\<close>

section \<open>Tables of calls\<close>

text \<open>
  Every call in the table is closed or reachable through its stream, so that the session's close,
  a GOAWAY or the shutdown of the channel still ends it.
\<close>

definition tracked ::
  "('c \<Rightarrow> bool) \<Rightarrow> ('c \<Rightarrow> bool) \<Rightarrow> (nat \<Rightarrow> int option) \<Rightarrow> (nat \<rightharpoonup> 'c) \<Rightarrow> (int \<times> nat) list \<Rightarrow> bool" where
  "tracked closed good sid calls active \<longleftrightarrow>
     (\<forall>(k, i) \<in> set active. sid i = Some k \<and> calls i \<noteq> None)
     \<and> (\<forall>i c. calls i = Some c \<longrightarrow> good c \<and> (closed c \<or> i \<in> snd ` set active))"

text \<open>Stream ids are never reused within a session, and a channel has one session.\<close>

definition ids_distinct :: "(nat \<Rightarrow> int option) \<Rightarrow> bool" where
  "ids_distinct sid \<longleftrightarrow> (\<forall>i j k. sid i = Some k \<longrightarrow> sid j = Some k \<longrightarrow> i = j)"

definition fail_each :: "('c \<Rightarrow> 'c) \<Rightarrow> (int \<times> nat) list \<Rightarrow> (nat \<rightharpoonup> 'c) \<Rightarrow> (nat \<rightharpoonup> 'c)" where
  "fail_each f = fold (\<lambda>(k, i) m. m(i := map_option f (m i)))"

lemma tracked_empty [simp]: "tracked closed good sid Map.empty []"
  by (simp add: tracked_def)

lemma tracked_update:
  "tracked closed good sid calls active \<Longrightarrow> (\<And>c. calls i = Some c \<Longrightarrow> good c \<Longrightarrow> good (f c) \<and> (closed c \<longrightarrow> closed (f c)))
     \<Longrightarrow> tracked closed good sid (calls(i := map_option f (calls i))) active"
  by (auto simp: tracked_def)

lemma tracked_insert_closed:
  "tracked closed good sid calls active \<Longrightarrow> calls i = None \<Longrightarrow> good c \<Longrightarrow> closed c
     \<Longrightarrow> tracked closed good sid (calls(i \<mapsto> c)) active"
  by (auto simp: tracked_def)

lemma tracked_insert_active:
  assumes "tracked closed good sid calls active" "ids_distinct sid" "calls i = None" "good c" "sid i = Some k"
  shows "tracked closed good sid (calls(i \<mapsto> c)) (map_emplace k i active)"
proof -
  have "k \<notin> fst ` set active"
  proof
    assume "k \<in> fst ` set active"
    then obtain j where "(k, j) \<in> set active" by auto
    then have "sid j = Some k" "calls j \<noteq> None" using assms(1) by (auto simp: tracked_def)
    then show False using assms(2,3,5) by (metis ids_distinct_def)
  qed
  then show ?thesis
    using assms by (auto simp: tracked_def map_emplace_def image_iff)
qed

lemma tracked_close:
  assumes "tracked closed good sid calls active" "ids_distinct sid" "sid i = Some k"
    "\<And>c. calls i = Some c \<Longrightarrow> good c \<Longrightarrow> good (f c) \<and> closed (f c)"
  shows "tracked closed good sid (calls(i := map_option f (calls i))) (map_erase k active)"
proof -
  have *: "(k, j) \<in> set active \<Longrightarrow> j = i" for j
    using assms(1-3) by (auto simp: tracked_def ids_distinct_def)
  have "good c' \<and> (closed c' \<or> j \<in> snd ` set (map_erase k active))"
    if "(calls(i := map_option f (calls i))) j = Some c'" for j c'
  proof (cases "j = i")
    case True
    then show ?thesis using that assms(1,4) by (auto simp: tracked_def)
  next
    case False
    then have "good c' \<and> (closed c' \<or> j \<in> snd ` set active)" using that assms(1) by (auto simp: tracked_def)
    then show ?thesis using * False by (force simp: map_erase_def)
  qed
  moreover have "\<forall>(l, j) \<in> set (map_erase k active). sid j = Some l \<and> (calls(i := map_option f (calls i))) j \<noteq> None"
    using assms(1) by (auto simp: tracked_def map_erase_def)
  ultimately show ?thesis by (simp add: tracked_def)
qed

locale call_table =
  fixes closed good :: "'c \<Rightarrow> bool"
    and fail :: "Status \<Rightarrow> 'c \<Rightarrow> 'c"
  assumes fail_closes: "closed (fail st c)"
    and fail_good: "good c \<Longrightarrow> good (fail st c)"
    and fail_closed: "closed c \<Longrightarrow> fail st c = c"
begin

lemma fail_each_apply:
  "fail_each (fail st) xs m i = (if i \<in> snd ` set xs then map_option (fail st) (m i) else m i)"
proof (induction xs arbitrary: m)
  case (Cons x xs)
  then show ?case
    by (cases x; cases "m i")
      (auto simp: fail_each_def fail_closed fail_closes)
qed (simp add: fail_each_def)

lemma tracked_fail_each:
  assumes "tracked closed good sid calls active"
  shows "tracked closed good sid (fail_each (fail st) (filter P active) calls) (filter (\<lambda>x. \<not> P x) active)"
proof -
  have 1: "sid i = Some k \<and> fail_each (fail st) (filter P active) calls i \<noteq> None"
    if "(k, i) \<in> set active" for k i
    using that assms by (auto simp: tracked_def fail_each_apply)
  have 2: "good c' \<and> (closed c' \<or> i \<in> snd ` set (filter (\<lambda>x. \<not> P x) active))"
    if h: "fail_each (fail st) (filter P active) calls i = Some c'" for i c'
  proof (cases "i \<in> snd ` set (filter P active)")
    case True
    then obtain c where "calls i = Some c" "c' = fail st c" using h by (auto simp: fail_each_apply)
    then show ?thesis using assms by (auto simp: tracked_def fail_closes fail_good)
  next
    case False
    then have "calls i = Some c'" using that by (auto simp: fail_each_apply split: if_splits)
    then have "good c' \<and> (closed c' \<or> i \<in> snd ` set active)" using assms by (simp add: tracked_def)
    moreover have "snd ` set active \<subseteq> snd ` set (filter P active) \<union> snd ` set (filter (\<lambda>x. \<not> P x) active)"
      by auto
    ultimately show ?thesis using False by blast
  qed
  show ?thesis using 1 2 by (auto simp: tracked_def)
qed

end

text \<open>The gate of a unary call as a state invariant.\<close>

definition uc_good :: "ClientCallState \<Rightarrow> bool" where
  "uc_good s \<longleftrightarrow> length (uc_completions s) = of_bool (uc_completed s) \<and> (uc_trailers_done s \<longrightarrow> uc_completed s)"

lemma uc_good_gate: "uc_gate s s' \<Longrightarrow> uc_good s \<Longrightarrow> uc_good s' \<and> (uc_completed s \<longrightarrow> uc_completed s')"
  by (auto simp: uc_gate_def uc_good_def split: if_splits)

lemma uc_good_step: "uc_step zl s s' \<Longrightarrow> uc_good s \<Longrightarrow> uc_good s' \<and> (uc_completed s \<longrightarrow> uc_completed s')"
  by (rule uc_good_gate [OF uc_step_gate])

lemma uc_good_ops [simp]:
  "uc_good (new_ClientCallState ctx)"
  "uc_good (uc_ArmTimer now s) = uc_good s" "uc_completed (uc_ArmTimer now s) = uc_completed s"
  by (simp_all add: uc_good_def new_ClientCallState_def uc_ArmTimer_def)

lemma uc_Complete_good: "uc_good s \<Longrightarrow> uc_good (uc_Complete r s)"
  by (auto simp: uc_good_def)

lemma uc_close_good: "uc_good s \<Longrightarrow> uc_good (uc_OnStreamClose ec s) \<and> uc_completed (uc_OnStreamClose ec s)"
  by (auto simp: uc_OnStreamClose_def uc_Complete_good uc_good_def)

interpretation unary_table: call_table uc_completed uc_good uc_Fail
  by unfold_locales (simp_all add: uc_Fail_def uc_Complete_good, simp add: uc_Complete_def)

lemma stream_ops_closed [simp]:
  "stream_closed (stream_Fail st s)" "stream_closed (stream_Cancel s)" "stream_closed (stream_OnStreamClose ec s)"
  by (cases s; simp add: xs_defs xc_defs xb_defs)+

lemma stream_Fail_closed: "stream_closed s \<Longrightarrow> stream_Fail st s = s"
  by (cases s) (simp_all add: xs_Fail_def xc_Fail_def xb_Fail_def)

interpretation stream_table: call_table stream_closed "\<lambda>_. True" stream_Fail
  by unfold_locales (simp_all add: stream_Fail_closed)

section \<open>Steps\<close>

inductive stream_step :: "StreamCall \<Rightarrow> StreamCall \<Rightarrow> bool" where
  ss_event: "xs_step s s' \<Longrightarrow> stream_step (SsCall s) (SsCall s')"
| cs_event: "xc_step s s' \<Longrightarrow> stream_step (CsCall s) (CsCall s')"
| bd_event: "xb_step s s' \<Longrightarrow> stream_step (BdCall s) (BdCall s')"

text \<open>
  Calls of the channel's user, callbacks of the session, which exists once the channel has left
  \<open>kIdle\<close>, and events of the single calls. A session may report errors and a connection in any
  order and number; it reports a GOAWAY only after it has reported the connection or its failure.
\<close>

definition submitted_id :: "ChannelEnv \<Rightarrow> nat \<Rightarrow> int option" where
  "submitted_id env i = (case ce_submit env i of Inl ec \<Rightarrow> None | Inr k \<Rightarrow> Some k)"

inductive ch_step :: "'z Zlib \<Rightarrow> ChannelEnv \<Rightarrow> ChannelImpl \<Rightarrow> ChannelImpl \<Rightarrow> bool" for zl env where
  ch_connect: "ch_step zl env ch (Connect env now w ch)"
| ch_unary: "ch_step zl env ch (UnaryCallRaw env now path ctx req ch)"
| ch_server_streaming: "ch_step zl env ch (SubmitServerStreamingCall env now path sctx req ch)"
| ch_client_streaming: "ch_step zl env ch (SubmitClientStreamingCall env now path sctx ch)"
| ch_bidi: "ch_step zl env ch (SubmitBidiStreamingCall env now path sctx ch)"
| ch_cancel: "ch_step zl env ch (CancelCall i ch)"
| ch_cancel_streaming: "submitted_id env i = Some k \<Longrightarrow> ch_step zl env ch (CancelStreaming k i ch)"
| ch_on_connect: "ch_state ch \<noteq> kIdle \<Longrightarrow> ch_step zl env ch (OnSessionConnect env now ch)"
| ch_on_error: "ch_state ch \<noteq> kIdle \<Longrightarrow> ch_step zl env ch (OnSessionError env now ec ch)"
| ch_on_goaway: "ch_state ch \<noteq> kIdle \<Longrightarrow> ch_state ch \<noteq> kConnecting \<Longrightarrow> ch_step zl env ch (OnSessionGoaway env now last_id ch)"
| ch_shutdown: "ch_step zl env ch (DoShutdown env now ch)"
| ch_close: "submitted_id env i = Some k \<Longrightarrow> ch_step zl env ch (OnRequestClose k i error_code ch)"
| ch_streaming_close: "submitted_id env i = Some k \<Longrightarrow> ch_step zl env ch (OnStreamingClose k i error_code ch)"
| ch_call: "ch_calls ch i = Some s \<Longrightarrow> uc_step zl s s' \<Longrightarrow> ch_step zl env ch (upd_call (\<lambda>_. s') i ch)"
| ch_stream: "ch_streams ch i = Some t \<Longrightarrow> stream_step t t' \<Longrightarrow> ch_step zl env ch (upd_stream (\<lambda>_. t') i ch)"
| ch_deliver: "ch_step zl env ch (DeliverCompletion i ch)"

lemma xs_step_closed: "xs_step s s' \<Longrightarrow> xs_closed s \<Longrightarrow> xs_closed s'"
proof (induction rule: xs_step.induct)
  case (xs_post s i)
  then show ?case by (cases "xs_posted s ! i") (simp_all add: xs_RunPosted_def xs_defs)
qed (auto simp: xs_defs dest: xs_OnData_keeps)

lemma xc_step_closed: "xc_step s s' \<Longrightarrow> xc_closed s \<Longrightarrow> xc_closed s'"
proof (induction rule: xc_step.induct)
  case (xc_post s i)
  then show ?case by (cases "xc_posted s ! i") (simp_all add: xc_RunPosted_def xc_defs)
qed (auto simp: xc_defs dest: xc_OnData_keeps)

lemma xb_step_closed: "xb_step s s' \<Longrightarrow> xb_closed s \<Longrightarrow> xb_closed s'"
proof (induction rule: xb_step.induct)
  case (xb_post s i)
  then show ?case by (cases "xb_posted s ! i") (simp_all add: xb_RunPosted_def xb_defs)
qed (auto simp: xb_defs dest: xb_OnData_keeps)

lemma stream_step_closed: "stream_step t t' \<Longrightarrow> stream_closed t \<Longrightarrow> stream_closed t'"
  by (induction rule: stream_step.induct) (simp_all add: xs_step_closed xc_step_closed xb_step_closed)

section \<open>Frames\<close>

text \<open>What the parts of the operations leave alone.\<close>

definition unary_part :: "ChannelImpl \<Rightarrow> _" where
  "unary_part ch = (ch_calls ch, ch_completions ch, ch_active_calls ch, ch_pending_calls ch)"

definition stream_part :: "ChannelImpl \<Rightarrow> _" where
  "stream_part ch = (ch_streams ch, ch_handles ch, ch_active_streaming_calls ch, ch_pending_generic_calls ch, dom (ch_completions ch))"

definition conn_part :: "ChannelImpl \<Rightarrow> _" where
  "conn_part ch = (ch_state ch, ch_connect_waiters ch, ch_next ch, ch_opts ch, ch_terminal_status ch, ch_waiter_results ch)"

lemma dom_upd_map [simp]: "dom (m(i := map_option f (m i))) = dom m"
  by auto

named_theorems ch_parts

lemma parts_upd [ch_parts]:
  "stream_part (upd_call f i ch) = stream_part ch" "conn_part (upd_call f i ch) = conn_part ch"
  "unary_part (upd_stream g i ch) = unary_part ch" "conn_part (upd_stream g i ch) = conn_part ch"
  "stream_part (complete_unary i r ch) = stream_part ch" "conn_part (complete_unary i r ch) = conn_part ch"
  by (simp_all add: unary_part_def stream_part_def conn_part_def upd_call_def upd_stream_def complete_unary_def del: dom_fun_upd)

lemma parts_cancel [ch_parts]:
  "stream_part (cancel_stream i ch) = stream_part ch" "conn_part (cancel_stream i ch) = conn_part ch"
  by (simp_all add: stream_part_def conn_part_def upd_call_def cancel_stream_def split: option.split)

lemma parts_control [ch_parts]:
  "stream_part (control_Cancel i ch) = stream_part ch" "conn_part (control_Cancel i ch) = conn_part ch"
  unfolding control_Cancel_def by (simp_all add: ch_parts, simp_all add: stream_part_def conn_part_def del: dom_fun_upd)

lemma parts_SetCancelStream [ch_parts]:
  "stream_part (SetCancelStream i ch) = stream_part ch" "conn_part (SetCancelStream i ch) = conn_part ch"
  unfolding SetCancelStream_def Let_def
  by (simp_all add: ch_parts split: option.split) (auto simp: stream_part_def conn_part_def)

lemma parts_submit_unary [ch_parts]:
  "stream_part (submit_unary_now env now p ch) = stream_part ch" "conn_part (submit_unary_now env now p ch) = conn_part ch"
  by (simp_all add: submit_unary_now_def Let_def ch_parts split: option.split sum.split,
      simp_all add: stream_part_def conn_part_def)

lemma parts_submit_stream [ch_parts]:
  "unary_part (submit_stream_now env now g ch) = unary_part ch" "conn_part (submit_stream_now env now g ch) = conn_part ch"
  by (simp_all add: submit_stream_now_def fail_stream_def Let_def unary_part_def conn_part_def split: option.split sum.split)

section \<open>Invariants\<close>

text \<open>
  Unary calls: \<open>us\<close> are the calls taken from the queue that are still to be submitted. A call is
  answered, queued, or has a call state, which is completed or tracked.
\<close>

definition un_good :: "UnaryCallCompletion \<Rightarrow> bool" where
  "un_good c \<longleftrightarrow> length (un_results c) = of_bool (un_completed c)"

abbreviation unary_ids :: "PendingCall list \<Rightarrow> ChannelImpl \<Rightarrow> nat list" where
  "unary_ids us ch \<equiv> map pc_id (ch_pending_calls ch) @ map pc_id us"

abbreviation stream_ids :: "GenericCall list \<Rightarrow> ChannelImpl \<Rightarrow> nat list" where
  "stream_ids gs ch \<equiv> map gc_id (ch_pending_generic_calls ch) @ map gc_id gs"

definition unary_inv :: "ChannelEnv \<Rightarrow> PendingCall list \<Rightarrow> ChannelImpl \<Rightarrow> bool" where
  "unary_inv env us ch \<longleftrightarrow>
     tracked uc_completed uc_good (submitted_id env) (ch_calls ch) (ch_active_calls ch)
     \<and> distinct (unary_ids us ch)
     \<and> (\<forall>i. i \<in> set (unary_ids us ch) \<longrightarrow> i \<in> dom (ch_completions ch) \<and> ch_calls ch i = None)
     \<and> dom (ch_calls ch) \<subseteq> dom (ch_completions ch)
     \<and> dom (ch_completions ch) \<subseteq> {..<ch_next ch}
     \<and> (\<forall>i c. ch_completions ch i = Some c \<longrightarrow>
          un_good c \<and> (un_completed c \<or> i \<in> set (unary_ids us ch) \<or> i \<in> dom (ch_calls ch)))"

definition stream_inv :: "ChannelEnv \<Rightarrow> GenericCall list \<Rightarrow> ChannelImpl \<Rightarrow> bool" where
  "stream_inv env gs ch \<longleftrightarrow>
     tracked stream_closed (\<lambda>_. True) (submitted_id env) (ch_streams ch) (ch_active_streaming_calls ch)
     \<and> distinct (stream_ids gs ch)
     \<and> (\<forall>i. i \<in> set (stream_ids gs ch) \<longrightarrow> i < ch_next ch \<and> ch_streams ch i = None)
     \<and> dom (ch_streams ch) \<subseteq> {..<ch_next ch}
     \<and> dom (ch_streams ch) \<subseteq> set (ch_handles ch)
     \<and> {..<ch_next ch} \<subseteq> dom (ch_completions ch) \<union> set (stream_ids gs ch) \<union> dom (ch_streams ch)"

text \<open>Calls and connect callbacks wait only while the channel connects.\<close>

definition queue_inv :: "ChannelImpl \<Rightarrow> bool" where
  "queue_inv ch \<longleftrightarrow>
     (ch_state ch \<noteq> kConnecting \<longrightarrow> ch_pending_calls ch = [] \<and> ch_pending_generic_calls ch = [] \<and> ch_connect_waiters ch = [])
     \<and> (ch_terminal_status ch \<noteq> None \<longrightarrow> ch_state ch = kShutdown)"

abbreviation ch_inv :: "ChannelEnv \<Rightarrow> ChannelImpl \<Rightarrow> bool" where
  "ch_inv env ch \<equiv> unary_inv env [] ch \<and> stream_inv env [] ch \<and> queue_inv ch"

text \<open>The invariants do not depend on the connection.\<close>

lemma unary_inv_fields [simp]:
  "unary_inv env us (ch\<lparr>ch_state := st\<rparr>) = unary_inv env us ch"
  "unary_inv env us (ch\<lparr>ch_terminal_status := ts\<rparr>) = unary_inv env us ch"
  "unary_inv env us (ch\<lparr>ch_session := b\<rparr>) = unary_inv env us ch"
  "unary_inv env us (ch\<lparr>ch_connecting_session := b\<rparr>) = unary_inv env us ch"
  "unary_inv env us (ch\<lparr>ch_connect_waiters := ws\<rparr>) = unary_inv env us ch"
  "unary_inv env us (ch\<lparr>ch_waiter_results := wr\<rparr>) = unary_inv env us ch"
  "unary_inv env us (ch\<lparr>ch_resets := rs\<rparr>) = unary_inv env us ch"
  by (simp_all add: unary_inv_def)

lemma stream_inv_fields [simp]:
  "stream_inv env gs (ch\<lparr>ch_state := st\<rparr>) = stream_inv env gs ch"
  "stream_inv env gs (ch\<lparr>ch_terminal_status := ts\<rparr>) = stream_inv env gs ch"
  "stream_inv env gs (ch\<lparr>ch_session := b\<rparr>) = stream_inv env gs ch"
  "stream_inv env gs (ch\<lparr>ch_connecting_session := b\<rparr>) = stream_inv env gs ch"
  "stream_inv env gs (ch\<lparr>ch_connect_waiters := ws\<rparr>) = stream_inv env gs ch"
  "stream_inv env gs (ch\<lparr>ch_waiter_results := wr\<rparr>) = stream_inv env gs ch"
  "stream_inv env gs (ch\<lparr>ch_resets := rs\<rparr>) = stream_inv env gs ch"
  by (simp_all add: stream_inv_def)

lemma unary_inv_cong: "unary_part ch' = unary_part ch \<Longrightarrow> ch_next ch' = ch_next ch \<Longrightarrow> unary_inv env us ch' = unary_inv env us ch"
  by (simp add: unary_part_def unary_inv_def)

lemma stream_inv_cong: "stream_part ch' = stream_part ch \<Longrightarrow> ch_next ch' = ch_next ch \<Longrightarrow> stream_inv env gs ch' = stream_inv env gs ch"
  by (simp add: stream_part_def stream_inv_def)

lemma conn_part_sel:
  "conn_part ch' = conn_part ch \<Longrightarrow> ch_state ch' = ch_state ch \<and> ch_next ch' = ch_next ch
     \<and> ch_connect_waiters ch' = ch_connect_waiters ch \<and> ch_opts ch' = ch_opts ch
     \<and> ch_terminal_status ch' = ch_terminal_status ch \<and> ch_waiter_results ch' = ch_waiter_results ch"
  by (simp add: conn_part_def)

text \<open>Completing and cancelling a unary call.\<close>

lemma un_Complete_completed [simp]: "un_completed (un_Complete r c)"
  by (simp add: un_Complete_def)

lemma un_Complete_good: "un_good c \<Longrightarrow> un_good (un_Complete r c) \<and> un_completed (un_Complete r c)"
  by (auto simp: un_good_def un_Complete_def)

lemma unary_inv_completions:
  assumes "unary_inv env us ch"
    "\<And>c. ch_completions ch i = Some c \<Longrightarrow> un_good c \<Longrightarrow> un_good (f c) \<and> (un_completed c \<longrightarrow> un_completed (f c))"
  shows "unary_inv env us (ch\<lparr>ch_completions := (ch_completions ch)(i := map_option f (ch_completions ch i))\<rparr>)"
  using assms unfolding unary_inv_def by (auto simp del: dom_fun_upd) (metis domD option.simps(9))+

lemma unary_inv_complete: "unary_inv env us ch \<Longrightarrow> unary_inv env us (complete_unary i r ch)"
  unfolding complete_unary_def by (rule unary_inv_completions) (auto simp: un_Complete_good)

lemma unary_inv_drop_head:
  assumes "unary_inv env (p # us) ch" "\<And>c. ch_completions ch (pc_id p) = Some c \<Longrightarrow> un_completed c"
  shows "unary_inv env us ch"
proof -
  have "un_good c \<and> (un_completed c \<or> i \<in> set (unary_ids us ch) \<or> i \<in> dom (ch_calls ch))"
    if "ch_completions ch i = Some c" for i c
    using assms that unfolding unary_inv_def by (cases "i = pc_id p") auto
  then show ?thesis using assms(1) unfolding unary_inv_def by simp
qed

lemma unary_inv_complete_head:
  assumes "unary_inv env (p # us) ch"
  shows "unary_inv env us (complete_unary (pc_id p) r ch)"
proof (rule unary_inv_drop_head [OF unary_inv_complete [OF assms]])
  show "un_completed c" if "ch_completions (complete_unary (pc_id p) r ch) (pc_id p) = Some c" for c
    using that by (auto simp: complete_unary_def)
qed

lemma unary_inv_call:
  assumes "unary_inv env us ch" "\<And>s. ch_calls ch i = Some s \<Longrightarrow> uc_good s \<Longrightarrow> uc_good (f s) \<and> (uc_completed s \<longrightarrow> uc_completed (f s))"
  shows "unary_inv env us (upd_call f i ch)"
proof -
  have "tracked uc_completed uc_good (submitted_id env) ((ch_calls ch)(i := map_option f (ch_calls ch i))) (ch_active_calls ch)"
    using assms by (intro tracked_update) (auto simp: unary_inv_def)
  then show ?thesis
    using assms(1) by (simp add: unary_inv_def upd_call_def del: dom_fun_upd)
qed

lemma uc_Cancel_keeps: "uc_good s \<Longrightarrow> uc_good (uc_Cancel s) \<and> (uc_completed s \<longrightarrow> uc_completed (uc_Cancel s))"
  by (simp add: uc_Cancel_def uc_Complete_good)


lemma unary_inv_cancel_stream: "unary_inv env us ch \<Longrightarrow> unary_inv env us (cancel_stream i ch)"
  by (auto simp: cancel_stream_def uc_Cancel_keeps intro!: unary_inv_call split: option.split)

lemma unary_inv_control_Cancel: "unary_inv env us ch \<Longrightarrow> unary_inv env us (control_Cancel i ch)"
  unfolding control_Cancel_def
  by (intro unary_inv_cancel_stream unary_inv_completions) (auto simp: un_good_def)

lemma unary_inv_SetCancelStream:
  assumes "unary_inv env us ch"
  shows "unary_inv env us (SetCancelStream i ch)"
proof -
  have "unary_inv env us (ch\<lparr>ch_completions := (ch_completions ch)(i := map_option (un_cancel_stream_update (\<lambda>_. True)) (ch_completions ch i))\<rparr>)"
    using assms by (rule unary_inv_completions) (auto simp: un_good_def)
  then show ?thesis
    by (auto simp: SetCancelStream_def Let_def intro: unary_inv_control_Cancel split: option.split simp del: fun_upd_apply)
qed

text \<open>Submitting.\<close>

lemma unary_inv_submit_now:
  assumes "unary_inv env (p # us) ch" "ids_distinct (submitted_id env)"
  shows "unary_inv env us (submit_unary_now env now p ch)"
proof -
  let ?i = "pc_id p" and ?call = "new_ClientCallState (pc_ctx p)"
  have none: "ch_calls ch ?i = None" and c: "?i \<in> dom (ch_completions ch)"
    using assms(1) by (auto simp: unary_inv_def)
  have failed: "unary_inv env us (ch\<lparr>ch_calls := (ch_calls ch)(?i \<mapsto> uc_Fail st ?call)\<rparr>)" for st
    using assms(1) c tracked_insert_closed [of uc_completed uc_good "submitted_id env" "ch_calls ch" "ch_active_calls ch" ?i "uc_Fail st ?call"]
    by (auto simp: unary_inv_def unary_table.fail_closes unary_table.fail_good)
  have active: "unary_inv env us (ch\<lparr>ch_calls := (ch_calls ch)(?i \<mapsto> ?call), ch_requests := rs,
      ch_active_calls := map_emplace k ?i (ch_active_calls ch)\<rparr>)" if "ce_submit env ?i = Inr k" for k rs
    using assms c that tracked_insert_active [of uc_completed uc_good "submitted_id env" "ch_calls ch" "ch_active_calls ch" ?i ?call k]
    by (auto simp: unary_inv_def submitted_id_def)
  show ?thesis
    using assms(1) failed
    by (auto simp: submit_unary_now_def Let_def unary_inv_complete_head
        intro!: unary_inv_call unary_inv_SetCancelStream active split: option.split sum.split)
qed

lemma stream_inv_fail:
  assumes "stream_inv env (g # gs) ch"
  shows "stream_inv env gs (fail_stream g st ch)"
  using assms tracked_insert_closed [of stream_closed "\<lambda>_. True" "submitted_id env" "ch_streams ch" "ch_active_streaming_calls ch" "gc_id g"
    "stream_Fail st (new_stream (gc_kind g) (gc_ctx g))"]
  by (auto simp: stream_inv_def fail_stream_def)

lemma stream_inv_submit_now:
  assumes "stream_inv env (g # gs) ch" "ids_distinct (submitted_id env)"
  shows "stream_inv env gs (submit_stream_now env now g ch)"
proof -
  have "stream_inv env gs (ch\<lparr>ch_streams := (ch_streams ch)(gc_id g \<mapsto> t), ch_requests := rs,
      ch_active_streaming_calls := map_emplace k (gc_id g) (ch_active_streaming_calls ch), ch_handles := ch_handles ch @ [gc_id g]\<rparr>)"
    if "ce_submit env (gc_id g) = Inr k" for k t rs
    using assms that tracked_insert_active [of stream_closed "\<lambda>_. True" "submitted_id env" "ch_streams ch" "ch_active_streaming_calls ch" "gc_id g" t k]
    by (auto simp: stream_inv_def submitted_id_def)
  then show ?thesis
    using assms(1) by (simp add: submit_stream_now_def Let_def stream_inv_fail split: option.split sum.split)
qed

text \<open>A channel that is neither idle nor connecting queues nothing.\<close>

abbreviation settled :: "ChannelImpl \<Rightarrow> bool" where
  "settled ch \<equiv> ch_state ch \<noteq> kIdle \<and> ch_state ch \<noteq> kConnecting"

lemma resubmit_settled: "settled ch \<Longrightarrow> resubmit_stream env now g ch = submit_stream_now env now g ch"
  by (simp add: resubmit_stream_def)

lemma parts_resubmit_unary [ch_parts]:
  "stream_part (resubmit_unary env now p ch) = stream_part ch" "conn_part (resubmit_unary env now p ch) = conn_part ch"
  by (simp_all add: resubmit_unary_def ch_parts split: option.split) (simp_all add: stream_part_def conn_part_def)

lemma unary_inv_resubmit:
  assumes "settled ch" "unary_inv env (p # us) ch" "ids_distinct (submitted_id env)"
  shows "unary_inv env us (resubmit_unary env now p ch)"
  using assms by (simp add: resubmit_unary_def unary_inv_complete_head unary_inv_submit_now split: option.split)

lemma unary_inv_resubmit_all:
  assumes "ids_distinct (submitted_id env)"
  shows "settled ch \<Longrightarrow> unary_inv env us ch \<Longrightarrow> unary_inv env [] (fold (resubmit_unary env now) us ch)"
proof (induction us arbitrary: ch)
  case (Cons p us)
  then show ?case
    using conn_part_sel [OF parts_resubmit_unary(2) [of env now p ch]] by (simp add: unary_inv_resubmit assms)
qed simp

lemma stream_inv_resubmit_all:
  assumes "ids_distinct (submitted_id env)"
  shows "settled ch \<Longrightarrow> stream_inv env gs ch \<Longrightarrow> stream_inv env [] (fold (resubmit_stream env now) gs ch)"
proof (induction gs arbitrary: ch)
  case (Cons g gs)
  then show ?case
    using conn_part_sel [OF parts_submit_stream(2) [of env now g ch]]
    by (simp add: resubmit_settled stream_inv_submit_now assms)
qed simp

lemma unary_inv_complete_all:
  "unary_inv env us ch \<Longrightarrow> unary_inv env [] (fold (\<lambda>p. complete_unary (pc_id p) r) us ch)"
  by (induction us arbitrary: ch) (simp_all add: unary_inv_complete_head)

text \<open>The loops over the queues.\<close>

lemma parts_complete_all [ch_parts]:
  "stream_part (fold (\<lambda>p. complete_unary (pc_id p) r) us ch) = stream_part ch"
  "conn_part (fold (\<lambda>p. complete_unary (pc_id p) r) us ch) = conn_part ch"
  by (induction us arbitrary: ch) (simp_all add: ch_parts)

lemma parts_resubmit_all [ch_parts]:
  "stream_part (fold (resubmit_unary env now) us ch) = stream_part ch"
  "conn_part (fold (resubmit_unary env now) us ch) = conn_part ch"
  by (induction us arbitrary: ch) (simp_all add: ch_parts)

lemma parts_resubmit_streams [ch_parts]:
  "settled ch \<Longrightarrow> unary_part (fold (resubmit_stream env now) gs ch) = unary_part ch"
  "settled ch \<Longrightarrow> conn_part (fold (resubmit_stream env now) gs ch) = conn_part ch"
proof (induction gs arbitrary: ch)
  case (Cons g gs)
  have c: "settled ch \<Longrightarrow> settled (submit_stream_now env now g ch)" for ch
    using conn_part_sel [OF parts_submit_stream(2) [of env now g ch]] by simp
  case 1
  from Cons.IH(1) [OF c [OF this]] this show ?case by (simp add: resubmit_settled parts_submit_stream)
  case 2
  from Cons.IH(2) [OF c [OF this]] this show ?case by (simp add: resubmit_settled parts_submit_stream)
qed simp_all

lemma pending_resubmit_streams:
  "settled ch \<Longrightarrow> ch_pending_generic_calls (fold (resubmit_stream env now) gs ch) = ch_pending_generic_calls ch"
proof (induction gs arbitrary: ch)
  case (Cons g gs)
  have "ch_pending_generic_calls (submit_stream_now env now g ch) = ch_pending_generic_calls ch"
    by (simp add: submit_stream_now_def fail_stream_def Let_def split: option.split sum.split)
  then show ?case
    using Cons conn_part_sel [OF parts_submit_stream(2) [of env now g ch]] by (simp add: resubmit_settled)
qed simp

lemma pending_cancel [simp]:
  "ch_pending_calls (upd_call f i ch) = ch_pending_calls ch" "ch_pending_calls (complete_unary i r ch) = ch_pending_calls ch"
  "ch_pending_calls (cancel_stream i ch) = ch_pending_calls ch" "ch_pending_calls (control_Cancel i ch) = ch_pending_calls ch"
  "ch_pending_calls (SetCancelStream i ch) = ch_pending_calls ch"
  by (simp_all add: upd_call_def complete_unary_def cancel_stream_def control_Cancel_def SetCancelStream_def Let_def split: option.split)

lemma pending_resubmit_unary:
  "settled ch \<Longrightarrow> ch_pending_calls (fold (resubmit_unary env now) us ch) = ch_pending_calls ch"
proof (induction us arbitrary: ch)
  case (Cons p us)
  have "ch_pending_calls (submit_unary_now env now p ch) = ch_pending_calls ch"
    by (simp add: submit_unary_now_def Let_def split: option.split sum.split)
  then show ?case
    using Cons conn_part_sel [OF parts_resubmit_unary(2) [of env now p ch]] by (simp add: resubmit_unary_def split: option.splits)
qed simp

lemma pending_complete_all [simp]:
  "ch_pending_calls (fold (\<lambda>p. complete_unary (pc_id p) r) us ch) = ch_pending_calls ch"
  by (induction us arbitrary: ch) simp_all

text \<open>Taking the queues.\<close>

lemma unary_inv_take: "unary_inv env [] ch \<Longrightarrow> unary_inv env (ch_pending_calls ch) (ch\<lparr>ch_pending_calls := []\<rparr>)"
  by (simp add: unary_inv_def)

lemma stream_inv_take:
  "stream_inv env [] ch \<Longrightarrow> stream_inv env (ch_pending_generic_calls ch) (ch\<lparr>ch_pending_generic_calls := []\<rparr>)"
  by (simp add: stream_inv_def)

text \<open>The queues are empty after the loops, and nothing else of the connection changes.\<close>

definition emptied :: "ChannelEnv \<Rightarrow> ChannelImpl \<Rightarrow> ChannelImpl \<Rightarrow> bool" where
  "emptied env ch ch' \<longleftrightarrow> unary_inv env [] ch' \<and> stream_inv env [] ch' \<and> ch_pending_calls ch' = []
     \<and> ch_pending_generic_calls ch' = [] \<and> conn_part ch' = conn_part ch"

lemma run_streams:
  assumes "settled ch" "unary_inv env [] ch" "stream_inv env [] ch" "ids_distinct (submitted_id env)" "ch_pending_calls ch = []"
  shows "emptied env ch (fold (resubmit_stream env now) (ch_pending_generic_calls ch) (ch\<lparr>ch_pending_generic_calls := []\<rparr>))"
proof -
  let ?ch = "ch\<lparr>ch_pending_generic_calls := []\<rparr>"
  have s: "settled ?ch" "stream_inv env (ch_pending_generic_calls ch) ?ch" using assms stream_inv_take by auto
  note p = parts_resubmit_streams [OF s(1), of env now "ch_pending_generic_calls ch"]
  have "unary_inv env [] ?ch" using assms(2) by (simp add: unary_inv_def)
  then have "unary_inv env [] (fold (resubmit_stream env now) (ch_pending_generic_calls ch) ?ch)"
    using unary_inv_cong [OF p(1)] conn_part_sel [OF p(2)] by metis
  moreover have "conn_part ?ch = conn_part ch" "unary_part ?ch = unary_part ch"
    by (simp_all add: conn_part_def unary_part_def)
  ultimately show ?thesis
    using p stream_inv_resubmit_all [OF assms(4) s] pending_resubmit_streams [OF s(1)] assms(5)
    by (simp add: emptied_def unary_part_def)
qed

lemma FailAll_emptied:
  assumes "settled ch" "unary_inv env [] ch" "stream_inv env [] ch" "ids_distinct (submitted_id env)"
  shows "emptied env ch (FailAll env now st ch)"
proof -
  define ch1 where "ch1 = fold (\<lambda>p. complete_unary (pc_id p) (raw_result st)) (ch_pending_calls ch) (ch\<lparr>ch_pending_calls := []\<rparr>)"
  have p: "conn_part ch1 = conn_part ch" "stream_part ch1 = stream_part ch"
    by (simp_all add: ch1_def ch_parts) (simp_all add: conn_part_def stream_part_def)
  have u: "unary_inv env [] ch1" "ch_pending_calls ch1 = []"
    using unary_inv_complete_all [OF unary_inv_take [OF assms(2)]] by (simp_all add: ch1_def)
  have "stream_inv env [] ch1" using assms(3) stream_inv_cong [OF p(2)] conn_part_sel [OF p(1)] by metis
  moreover have "settled ch1" using assms(1) conn_part_sel [OF p(1)] by simp
  ultimately have "emptied env ch1 (fold (resubmit_stream env now) (ch_pending_generic_calls ch1) (ch1\<lparr>ch_pending_generic_calls := []\<rparr>))"
    using run_streams u assms(4) by simp
  then show ?thesis
    using p(1) by (simp add: emptied_def FailAll_def Let_def flip: ch1_def)
qed

lemma run_waiters_sel [simp]:
  "unary_inv env us (run_waiters st ch) = unary_inv env us ch" "stream_inv env gs (run_waiters st ch) = stream_inv env gs ch"
  "ch_state (run_waiters st ch) = ch_state ch" "ch_connect_waiters (run_waiters st ch) = []"
  "ch_terminal_status (run_waiters st ch) = ch_terminal_status ch"
  "ch_pending_calls (run_waiters st ch) = ch_pending_calls ch"
  "ch_pending_generic_calls (run_waiters st ch) = ch_pending_generic_calls ch"
  by (simp_all add: run_waiters_def unary_inv_def stream_inv_def)

lemma DrainQueue_emptied:
  assumes "settled ch" "unary_inv env [] ch" "stream_inv env [] ch" "ids_distinct (submitted_id env)"
  shows "\<exists>st. emptied env (run_waiters st ch) (DrainQueue env now ec ch)"
proof (cases ec)
  case (Some e)
  then show ?thesis using assms by (force simp: DrainQueue_def Let_def intro!: FailAll_emptied)
next
  case None
  define w where "w = run_waiters status_ok ch"
  define ch1 where "ch1 = fold (resubmit_unary env now) (ch_pending_calls w) (w\<lparr>ch_pending_calls := []\<rparr>)"
  have w: "settled w" "unary_inv env [] w" "stream_inv env [] w" using assms(1-3) by (simp_all add: w_def)
  have p: "conn_part ch1 = conn_part w" "stream_part ch1 = stream_part w"
    by (simp_all add: ch1_def ch_parts) (simp_all add: conn_part_def stream_part_def)
  have u: "unary_inv env [] ch1" "ch_pending_calls ch1 = []"
    using unary_inv_resubmit_all [OF assms(4) _ unary_inv_take [OF w(2)]] w(1)
    by (simp_all add: ch1_def pending_resubmit_unary)
  have "stream_inv env [] ch1" using w(3) stream_inv_cong [OF p(2)] conn_part_sel [OF p(1)] by metis
  moreover have "settled ch1" using w(1) conn_part_sel [OF p(1)] by simp
  ultimately have "emptied env ch1 (fold (resubmit_stream env now) (ch_pending_generic_calls ch1) (ch1\<lparr>ch_pending_generic_calls := []\<rparr>))"
    using run_streams u assms(4) by simp
  then have "emptied env w (DrainQueue env now ec ch)"
    using p(1) None by (simp add: emptied_def DrainQueue_def Let_def flip: w_def ch1_def)
  then show ?thesis by (auto simp: w_def)
qed

lemma emptied_inv:
  "emptied env ch0 ch \<Longrightarrow> ch_connect_waiters ch0 = [] \<Longrightarrow> (ch_terminal_status ch0 \<noteq> None \<longrightarrow> ch_state ch0 = kShutdown) \<Longrightarrow> ch_inv env ch"
  by (auto simp: emptied_def queue_inv_def dest!: conn_part_sel)

section \<open>Every step keeps the invariants\<close>

lemma DoConnect_inv:
  assumes "unary_inv env [] ch" "stream_inv env [] ch" "ids_distinct (submitted_id env)" "ch_state ch = kConnecting" "ch_terminal_status ch = None"
  shows "ch_inv env (DoConnect env now ch)"
proof -
  have "ch_inv env (ch\<lparr>ch_connecting_session := True\<rparr>)"
    using assms by (simp add: queue_inv_def)
  moreover have "ch_inv env (DrainWithStatus env now st (ch\<lparr>ch_state := kShutdown, ch_terminal_status := Some st\<rparr>))" for st
    unfolding DrainWithStatus_def
    by (rule emptied_inv [OF FailAll_emptied]) (use assms in simp_all)
  ultimately show ?thesis by (simp add: DoConnect_def Let_def)
qed

lemma connect_if_idle_inv:
  assumes "unary_inv env [] ch" "stream_inv env [] ch" "ids_distinct (submitted_id env)" "\<not> settled ch" "ch_terminal_status ch = None"
  shows "ch_inv env (connect_if_idle env now ch)"
proof (cases "ch_state ch = kIdle")
  case True
  then show ?thesis using DoConnect_inv assms by (simp add: connect_if_idle_def)
next
  case False
  then show ?thesis using assms by (simp add: connect_if_idle_def queue_inv_def)
qed

lemma Connect_inv:
  assumes "ch_inv env ch" "ids_distinct (submitted_id env)"
  shows "ch_inv env (Connect env now w ch)"
proof (cases "settled ch")
  case True
  then show ?thesis
    using assms(1) by (cases "ch_state ch") (simp_all add: Connect_def Let_def queue_inv_def)
next
  case False
  then have "ch_inv env (connect_if_idle env now (ch\<lparr>ch_connect_waiters := ch_connect_waiters ch @ [w]\<rparr>))"
    using assms by (intro connect_if_idle_inv) (auto simp: queue_inv_def)
  then show ?thesis using False by (auto simp: Connect_def Let_def simp del: unary_inv_fields stream_inv_fields)
qed

lemma unary_inv_queue: "unary_inv env (p # us) ch \<Longrightarrow> unary_inv env us (ch\<lparr>ch_pending_calls := ch_pending_calls ch @ [p]\<rparr>)"
  by (auto simp: unary_inv_def)

lemma stream_inv_queue:
  "stream_inv env (g # gs) ch \<Longrightarrow> stream_inv env gs (ch\<lparr>ch_pending_generic_calls := ch_pending_generic_calls ch @ [g]\<rparr>)"
  by (auto simp: stream_inv_def)

lemma queue_inv_settled:
  "conn_part ch' = conn_part ch \<Longrightarrow> ch_pending_calls ch' = ch_pending_calls ch \<Longrightarrow> ch_pending_generic_calls ch' = ch_pending_generic_calls ch
     \<Longrightarrow> queue_inv ch' = queue_inv ch"
  by (simp add: queue_inv_def conn_part_def)

lemma stream_part_sel:
  "stream_part ch' = stream_part ch \<Longrightarrow> ch_pending_generic_calls ch' = ch_pending_generic_calls ch
     \<and> ch_streams ch' = ch_streams ch \<and> ch_handles ch' = ch_handles ch
     \<and> ch_active_streaming_calls ch' = ch_active_streaming_calls ch"
  by (simp add: stream_part_def)

lemma ch_inv_unary_change:
  assumes "ch_inv env ch" "stream_part ch' = stream_part ch" "conn_part ch' = conn_part ch" "ch_pending_calls ch' = ch_pending_calls ch"
    "unary_inv env [] ch'"
  shows "ch_inv env ch'"
  using assms queue_inv_settled [OF assms(3,4)] stream_part_sel [OF assms(2)] stream_inv_cong [OF assms(2)] conn_part_sel [OF assms(3)]
  by metis

lemma SubmitCall_inv:
  assumes "unary_inv env [p] ch" "stream_inv env [] ch" "queue_inv ch" "ids_distinct (submitted_id env)"
  shows "ch_inv env (SubmitCall env now p ch)"
proof -
  have parts: "ch_inv env ch'"
    if "stream_part ch' = stream_part ch" "conn_part ch' = conn_part ch" "ch_pending_calls ch' = ch_pending_calls ch" "unary_inv env [] ch'" for ch'
    using that assms(2,3) queue_inv_settled [OF that(2,3)] stream_part_sel [OF that(1)] stream_inv_cong [OF that(1)] conn_part_sel [OF that(2)]
    by metis
  show ?thesis
  proof (cases "submit_unary_guard p ch")
    case (Some st)
    then show ?thesis using assms(1) by (simp add: SubmitCall_def) (intro parts; simp add: ch_parts unary_inv_complete_head)
  next
    case None
    show ?thesis
    proof (cases "settled ch")
      case True
      have "ch_pending_calls (submit_unary_now env now p ch) = ch_pending_calls ch"
        by (simp add: submit_unary_now_def Let_def split: option.split sum.split)
      then show ?thesis
        using None True parts [of "submit_unary_now env now p ch"] unary_inv_submit_now [OF assms(1,4)]
        by (simp add: SubmitCall_def ch_parts)
    next
      case False
      have "stream_inv env [] (ch\<lparr>ch_pending_calls := ch_pending_calls ch @ [p]\<rparr>)"
        using assms(2) by (simp add: stream_inv_def)
      moreover have "ch_terminal_status ch = None" using False assms(3) by (auto simp: queue_inv_def)
      ultimately have "ch_inv env (connect_if_idle env now (ch\<lparr>ch_pending_calls := ch_pending_calls ch @ [p]\<rparr>))"
        using False assms(4) unary_inv_queue [OF assms(1)] by (intro connect_if_idle_inv) simp_all
      then show ?thesis using None False by (simp add: SubmitCall_def)
    qed
  qed
qed

lemma UnaryCallRaw_inv:
  assumes "ch_inv env ch" "ids_distinct (submitted_id env)"
  shows "ch_inv env (UnaryCallRaw env now path ctx req ch)"
proof -
  let ?i = "ch_next ch" and ?p = "\<lparr>pc_id = ch_next ch, pc_path = path, pc_ctx = Some ctx, pc_request_bytes = req\<rparr>"
  let ?ch = "ch\<lparr>ch_next := ?i + 1, ch_completions := (ch_completions ch)(?i \<mapsto> new_UnaryCallCompletion)\<rparr>"
  have fresh: "?i \<notin> dom (ch_completions ch)" using assms(1) by (auto simp: unary_inv_def)
  then have "?i \<notin> dom (ch_calls ch)" "?i \<notin> set (map pc_id (ch_pending_calls ch))"
    using assms(1) unfolding unary_inv_def by auto
  note fresh = fresh this
  have "unary_inv env [?p] ?ch"
    using assms(1) fresh unfolding unary_inv_def
    by (auto simp: un_good_def new_UnaryCallCompletion_def)
  moreover have "stream_inv env [] ?ch"
    using assms(1) by (auto simp: stream_inv_def less_Suc_eq)
  moreover have "queue_inv ?ch" using assms(1) by (simp add: queue_inv_def)
  ultimately show ?thesis using SubmitCall_inv assms(2) by (simp add: UnaryCallRaw_def Let_def)
qed

lemma unary_part_sel:
  "unary_part ch' = unary_part ch \<Longrightarrow> ch_pending_calls ch' = ch_pending_calls ch \<and> ch_calls ch' = ch_calls ch
     \<and> ch_completions ch' = ch_completions ch \<and> ch_active_calls ch' = ch_active_calls ch"
  by (simp add: unary_part_def)

lemma ch_inv_stream_change:
  assumes "unary_inv env [] ch" "queue_inv ch" "unary_part ch' = unary_part ch" "conn_part ch' = conn_part ch"
    "ch_pending_generic_calls ch' = ch_pending_generic_calls ch" "stream_inv env [] ch'"
  shows "ch_inv env ch'"
  using assms queue_inv_settled [OF assms(4) _ assms(5)] unary_part_sel [OF assms(3)] unary_inv_cong [OF assms(3)] conn_part_sel [OF assms(4)]
  by metis

lemma submit_stream_inv:
  assumes "unary_inv env [] ch" "stream_inv env [g] ch" "queue_inv ch" "ids_distinct (submitted_id env)"
  shows "ch_inv env (submit_stream env now g ch)"
proof (cases "settled ch")
  case True
  have "ch_pending_generic_calls (submit_stream_now env now g ch) = ch_pending_generic_calls ch"
    by (simp add: submit_stream_now_def fail_stream_def Let_def split: option.split sum.split)
  then have "ch_inv env (submit_stream_now env now g ch)"
    using assms by (intro ch_inv_stream_change [of env ch]) (simp_all add: ch_parts stream_inv_submit_now)
  then show ?thesis using True by (simp add: submit_stream_def)
next
  case False
  have "unary_inv env [] (ch\<lparr>ch_pending_generic_calls := ch_pending_generic_calls ch @ [g]\<rparr>)"
    using assms(1) by (simp add: unary_inv_def)
  moreover have "ch_terminal_status ch = None" using False assms(3) by (auto simp: queue_inv_def)
  ultimately have "ch_inv env (connect_if_idle env now (ch\<lparr>ch_pending_generic_calls := ch_pending_generic_calls ch @ [g]\<rparr>))"
    using False assms(4) stream_inv_queue [OF assms(2)] by (intro connect_if_idle_inv) simp_all
  then show ?thesis using False by (simp add: submit_stream_def)
qed

lemma stream_inv_fresh:
  assumes "ch_inv env ch" "gc_id g = ch_next ch"
  shows "unary_inv env [] (ch\<lparr>ch_next := ch_next ch + 1\<rparr>) \<and> stream_inv env [g] (ch\<lparr>ch_next := ch_next ch + 1\<rparr>)
    \<and> queue_inv (ch\<lparr>ch_next := ch_next ch + 1\<rparr>)"
proof -
  have "ch_next ch \<notin> dom (ch_streams ch)" "ch_next ch \<notin> set (map gc_id (ch_pending_generic_calls ch))"
    using assms(1) unfolding stream_inv_def by auto
  then have "stream_inv env [g] (ch\<lparr>ch_next := ch_next ch + 1\<rparr>)"
    using assms unfolding stream_inv_def by (auto simp: less_Suc_eq dom_def)
  moreover have "unary_inv env [] (ch\<lparr>ch_next := ch_next ch + 1\<rparr>)"
    using assms(1) unfolding unary_inv_def by (auto simp: dom_def less_Suc_eq)
  ultimately show ?thesis using assms(1) by (simp add: queue_inv_def)
qed

lemma streaming_submits_inv:
  assumes "ch_inv env ch" "ids_distinct (submitted_id env)"
  shows "ch_inv env (SubmitServerStreamingCall env now path sctx req ch)" "ch_inv env (SubmitClientStreamingCall env now path sctx ch)"
    "ch_inv env (SubmitBidiStreamingCall env now path sctx ch)"
proof -
  have "ch_inv env (submit_stream env now g (ch\<lparr>ch_next := ch_next ch + 1\<rparr>))" if "gc_id g = ch_next ch" for g
    using submit_stream_inv stream_inv_fresh [OF assms(1) that] assms(2) by blast
  then show "ch_inv env (SubmitServerStreamingCall env now path sctx req ch)" "ch_inv env (SubmitClientStreamingCall env now path sctx ch)"
    "ch_inv env (SubmitBidiStreamingCall env now path sctx ch)"
    by (simp_all add: SubmitServerStreamingCall_def SubmitClientStreamingCall_def SubmitBidiStreamingCall_def)
qed

lemma ch_inv_upd_call:
  assumes "ch_inv env ch" "\<And>s. ch_calls ch i = Some s \<Longrightarrow> uc_good s \<Longrightarrow> uc_good (f s) \<and> (uc_completed s \<longrightarrow> uc_completed (f s))"
  shows "ch_inv env (upd_call f i ch)"
  by (rule ch_inv_unary_change [OF assms(1)]) (use assms in \<open>simp_all add: ch_parts unary_inv_call\<close>)

lemma ch_inv_complete: "ch_inv env ch \<Longrightarrow> ch_inv env (complete_unary i r ch)"
  by (rule ch_inv_unary_change [of env ch]) (simp_all add: ch_parts unary_inv_complete)

lemma CancelCall_inv: "ch_inv env ch \<Longrightarrow> ch_inv env (CancelCall i ch)"
  unfolding CancelCall_def
  by (intro ch_inv_complete, rule ch_inv_unary_change [of env ch]) (simp_all add: ch_parts unary_inv_control_Cancel)

lemma ch_inv_upd_stream:
  assumes "ch_inv env ch" "\<And>s. ch_streams ch i = Some s \<Longrightarrow> stream_closed s \<Longrightarrow> stream_closed (f s)"
  shows "ch_inv env (upd_stream f i ch)"
proof -
  have "tracked stream_closed (\<lambda>_. True) (submitted_id env) ((ch_streams ch)(i := map_option f (ch_streams ch i))) (ch_active_streaming_calls ch)"
    using assms by (intro tracked_update) (auto simp: stream_inv_def)
  then have "stream_inv env [] (upd_stream f i ch)"
    using assms(1) by (simp add: stream_inv_def upd_stream_def del: dom_fun_upd)
  then show ?thesis
    using assms(1) by (intro ch_inv_stream_change [of env ch]) (simp_all add: ch_parts, simp add: upd_stream_def)
qed

lemma CancelStreaming_inv:
  assumes "ch_inv env ch"
  shows "ch_inv env (CancelStreaming k i ch)"
proof -
  have "ch_inv env (upd_stream stream_Cancel i (ch\<lparr>ch_resets := ch_resets ch @ [i]\<rparr>))"
    using assms by (intro ch_inv_upd_stream) (simp_all add: queue_inv_def)
  then show ?thesis using assms by (simp add: CancelStreaming_def)
qed

lemma OnConnected_inv:
  assumes "unary_inv env [] ch" "stream_inv env [] ch" "ids_distinct (submitted_id env)" "ch_terminal_status ch = None"
  shows "ch_inv env (OnConnected env now ec ch)"
proof -
  let ?ch = "ch\<lparr>ch_connecting_session := False, ch_state := if ec \<noteq> None then kFailed else kReady\<rparr>"
  obtain st where "emptied env (run_waiters st ?ch) (DrainQueue env now ec ?ch)"
    using DrainQueue_emptied [of ?ch env now ec] assms(1-3) by (simp split del: if_split) (meson ConnState.distinct)
  then show ?thesis unfolding OnConnected_def by (rule emptied_inv) (simp_all add: assms(4))
qed

lemma session_callbacks_inv:
  assumes "ch_inv env ch" "ids_distinct (submitted_id env)"
  shows "ch_inv env (OnSessionConnect env now ch)" "ch_state ch \<noteq> kIdle \<Longrightarrow> ch_inv env (OnSessionError env now ec ch)"
proof -
  have t: "ch_state ch \<noteq> kShutdown \<Longrightarrow> ch_terminal_status ch = None" using assms(1) by (auto simp: queue_inv_def)
  show "ch_inv env (OnSessionConnect env now ch)"
  proof (cases "ch_state ch = kShutdown")
    case True
    then show ?thesis using assms(1) by (simp add: OnSessionConnect_def queue_inv_def)
  next
    case False
    then show ?thesis
      using OnConnected_inv [of env "ch\<lparr>ch_connecting_session := False, ch_session := True\<rparr>" now None] assms t
      by (simp add: OnSessionConnect_def)
  qed
  show "ch_inv env (OnSessionError env now ec ch)" if "ch_state ch \<noteq> kIdle"
  proof (cases "ch_state ch = kReady")
    case True
    have "ch_inv env (FailAll env now st ch)" for st
      by (rule emptied_inv [OF FailAll_emptied]) (use True assms in \<open>auto simp: queue_inv_def\<close>)
    then show ?thesis using True by (simp add: OnSessionError_def)
  next
    case False
    then show ?thesis using assms t by (simp add: OnSessionError_def OnConnected_inv)
  qed
qed

text \<open>Failing the calls of a table, as \<open>OnGoaway\<close> and \<open>DoShutdown\<close> do.\<close>

lemma fail_each_rec [simp]:
  "fail_each f [] m = m" "fail_each f ((k, i) # xs) m = fail_each f xs (m(i := map_option f (m i)))"
  by (simp_all add: fail_each_def)

lemma upd_calls_sel [simp]:
  "ch_calls (upd_call f i ch) = (ch_calls ch)(i := map_option f (ch_calls ch i))"
  "(upd_call f i ch)\<lparr>ch_calls := m\<rparr> = ch\<lparr>ch_calls := m\<rparr>"
  "ch_streams (upd_stream g i ch) = (ch_streams ch)(i := map_option g (ch_streams ch i))"
  "(upd_stream g i ch)\<lparr>ch_streams := m'\<rparr> = ch\<lparr>ch_streams := m'\<rparr>"
  by (simp_all add: upd_call_def upd_stream_def)

lemma fold_upd_call: "fold (\<lambda>(k, i). upd_call f i) xs ch = ch\<lparr>ch_calls := fail_each f xs (ch_calls ch)\<rparr>"
  by (induction xs arbitrary: ch) auto

lemma fold_upd_stream: "fold (\<lambda>(k, i). upd_stream f i) xs ch = ch\<lparr>ch_streams := fail_each f xs (ch_streams ch)\<rparr>"
  by (induction xs arbitrary: ch) auto

lemma dom_fail_each [simp]:
  "dom (fail_each (uc_Fail st) xs m) = dom m" "dom (fail_each (stream_Fail st) xs m') = dom m'"
  by (auto simp: unary_table.fail_each_apply stream_table.fail_each_apply dom_def split: if_splits)

definition fail_calls :: "Status \<Rightarrow> (int \<times> nat \<Rightarrow> bool) \<Rightarrow> ChannelImpl \<Rightarrow> ChannelImpl" where
  "fail_calls st P ch = ch\<lparr>ch_calls := fail_each (uc_Fail st) (filter P (ch_active_calls ch)) (ch_calls ch),
     ch_active_calls := filter (\<lambda>x. \<not> P x) (ch_active_calls ch),
     ch_streams := fail_each (stream_Fail st) (filter P (ch_active_streaming_calls ch)) (ch_streams ch),
     ch_active_streaming_calls := filter (\<lambda>x. \<not> P x) (ch_active_streaming_calls ch)\<rparr>"

lemma fail_calls_inv:
  assumes "unary_inv env [] ch" "stream_inv env [] ch"
  shows "unary_inv env [] (fail_calls st P ch)" "stream_inv env [] (fail_calls st P ch)"
  using assms unary_table.tracked_fail_each [of "submitted_id env" "ch_calls ch" "ch_active_calls ch" st P]
    stream_table.tracked_fail_each [of "submitted_id env" "ch_streams ch" "ch_active_streaming_calls ch" st P]
  by (auto simp: unary_inv_def stream_inv_def fail_calls_def unary_table.fail_each_apply stream_table.fail_each_apply)

lemma OnGoaway_fail_calls:
  "OnGoaway env now last_id ch =
     (let st = mk_status UNAVAILABLE (''server sent GOAWAY (last_stream_id='' @ int_to_string last_id @ '')'')
      in FailAll env now st (fail_calls st (\<lambda>(k, i). k > last_id) (ch\<lparr>ch_state := kFailed\<rparr>)))"
  unfolding OnGoaway_def Let_def fold_upd_call fold_upd_stream by (simp add: fail_calls_def case_prod_unfold)

lemma DoShutdown_fail_calls:
  "ch_state ch \<noteq> kShutdown \<Longrightarrow> DoShutdown env now ch =
     (let st = mk_status CANCELLED ''channel shut down''
      in FailAll env now st (fail_calls st (\<lambda>_. True)
           (run_waiters st (ch\<lparr>ch_state := kShutdown, ch_connecting_session := False, ch_session := False\<rparr>))))"
  by (simp add: DoShutdown_def Let_def fold_upd_call fold_upd_stream fail_calls_def run_waiters_def)

lemma fail_calls_sel [simp]:
  "ch_state (fail_calls st P ch) = ch_state ch" "ch_connect_waiters (fail_calls st P ch) = ch_connect_waiters ch"
  "ch_terminal_status (fail_calls st P ch) = ch_terminal_status ch"
  by (simp_all add: fail_calls_def)

lemma OnSessionGoaway_inv:
  assumes "ch_inv env ch" "ids_distinct (submitted_id env)" "settled ch"
  shows "ch_inv env (OnSessionGoaway env now last_id ch)"
proof (cases "ch_state ch = kShutdown")
  case False
  have "ch_inv env (FailAll env now st (fail_calls st P (ch\<lparr>ch_state := kFailed\<rparr>)))" for st P
    by (rule emptied_inv [OF FailAll_emptied])
      (use assms False in \<open>simp_all add: fail_calls_inv, auto simp: queue_inv_def\<close>)
  then show ?thesis using False by (simp add: OnSessionGoaway_def OnGoaway_fail_calls Let_def)
qed (use assms(1) in \<open>simp add: OnSessionGoaway_def\<close>)

lemma DoShutdown_inv:
  assumes "ch_inv env ch" "ids_distinct (submitted_id env)"
  shows "ch_inv env (DoShutdown env now ch)"
proof (cases "ch_state ch = kShutdown")
  case False
  then have "ch_inv env (FailAll env now st (fail_calls st P
      (run_waiters st (ch\<lparr>ch_state := kShutdown, ch_connecting_session := False, ch_session := False\<rparr>))))" for st P
    by (intro emptied_inv [OF FailAll_emptied]) (use assms in \<open>simp_all add: fail_calls_inv\<close>)
  then show ?thesis using False by (simp add: DoShutdown_fail_calls Let_def)
qed (use assms(1) in \<open>simp add: DoShutdown_def\<close>)

lemma OnRequestClose_inv:
  assumes "ch_inv env ch" "ids_distinct (submitted_id env)" "submitted_id env i = Some k"
  shows "ch_inv env (OnRequestClose k i ec ch)"
proof -
  have "tracked uc_completed uc_good (submitted_id env)
      ((ch_calls ch)(i := map_option (uc_OnStreamClose ec) (ch_calls ch i))) (map_erase k (ch_active_calls ch))"
    using assms by (intro tracked_close) (auto simp: unary_inv_def uc_close_good)
  then have "unary_inv env [] (OnRequestClose k i ec ch)"
    using assms(1) by (simp add: OnRequestClose_def RemoveActiveCall_def upd_call_def unary_inv_def del: dom_fun_upd)
  then show ?thesis
    by (rule ch_inv_unary_change [OF assms(1), rotated 3])
      (simp_all add: OnRequestClose_def RemoveActiveCall_def upd_call_def stream_part_def conn_part_def)
qed

lemma OnStreamingClose_inv:
  assumes "ch_inv env ch" "ids_distinct (submitted_id env)" "submitted_id env i = Some k"
  shows "ch_inv env (OnStreamingClose k i ec ch)"
proof -
  have "tracked stream_closed (\<lambda>_. True) (submitted_id env)
      ((ch_streams ch)(i := map_option (stream_OnStreamClose ec) (ch_streams ch i))) (map_erase k (ch_active_streaming_calls ch))"
    using assms by (intro tracked_close) (auto simp: stream_inv_def)
  then have "stream_inv env [] (OnStreamingClose k i ec ch)"
    using assms(1) by (simp add: OnStreamingClose_def upd_stream_def stream_inv_def del: dom_fun_upd)
  moreover have "unary_part (OnStreamingClose k i ec ch) = unary_part ch" "conn_part (OnStreamingClose k i ec ch) = conn_part ch"
    "ch_pending_generic_calls (OnStreamingClose k i ec ch) = ch_pending_generic_calls ch"
    by (simp_all add: OnStreamingClose_def upd_stream_def unary_part_def conn_part_def)
  ultimately show ?thesis using assms(1) ch_inv_stream_change by blast
qed

lemma DeliverCompletion_inv: "ch_inv env ch \<Longrightarrow> ch_inv env (DeliverCompletion i ch)"
  by (auto simp: DeliverCompletion_def ch_inv_complete split: option.split list.split)

lemma ch_step_inv:
  assumes "ch_step zl env ch ch'" "ids_distinct (submitted_id env)" "ch_inv env ch"
  shows "ch_inv env ch'"
  using assms(1,3)
proof (induction rule: ch_step.induct)
  case (ch_call ch i s s')
  then show ?case using uc_good_step [OF ch_call(2)] by (intro ch_inv_upd_call) simp_all
next
  case (ch_stream ch i t t')
  then show ?case using stream_step_closed [OF ch_stream(2)] by (intro ch_inv_upd_stream) simp_all
qed (rule Connect_inv UnaryCallRaw_inv streaming_submits_inv CancelCall_inv CancelStreaming_inv session_callbacks_inv
    OnSessionGoaway_inv DoShutdown_inv OnRequestClose_inv OnStreamingClose_inv DeliverCompletion_inv; simp add: assms(2))+

lemma new_ChannelImpl_inv: "ch_inv env (new_ChannelImpl host port opts)"
  by (simp add: new_ChannelImpl_def unary_inv_def stream_inv_def queue_inv_def)

lemma ch_inv_reachable:
  assumes "(ch_step zl env)\<^sup>*\<^sup>* (new_ChannelImpl host port opts) ch" "ids_distinct (submitted_id env)"
  shows "ch_inv env ch"
  using assms(1)
proof (induction rule: rtranclp_induct)
  case base
  show ?case by (rule new_ChannelImpl_inv)
next
  case (step ch1 ch2)
  then show ?case using ch_step_inv [OF step(2) assms(2)] by blast
qed

end
