(* ===== verification/ChannelProperties.thy ===== *)
theory ChannelProperties
  imports ChannelCalls
begin

text \<open>
  The properties of the channel over its reachable states: no call is lost, shutdown and GOAWAY,
  the finality of a bad TLS configuration, and what an error of an established connection does.
\<close>

lemma complete_all_apply:
  "ch_completions (fold (\<lambda>p. complete_unary (pc_id p) r) ps ch) i =
     (if i \<in> pc_id ` set ps then map_option (un_Complete r) (ch_completions ch i) else ch_completions ch i)"
proof (induction ps arbitrary: ch)
  case (Cons p ps)
  have idem: "un_Complete r (un_Complete r c) = un_Complete r c" for c
    by (simp add: un_Complete_def)
  show ?case
    unfolding fold_Cons comp_apply Cons by (auto simp: complete_unary_def idem option.map_comp comp_def)
qed simp

lemma FailAll_calls:
  assumes "settled ch"
  shows "ch_calls (FailAll env now st ch) = ch_calls ch" "ch_active_calls (FailAll env now st ch) = ch_active_calls ch"
    "ch_completions (FailAll env now st ch) i = (if i \<in> pc_id ` set (ch_pending_calls ch)
       then map_option (un_Complete (raw_result st)) (ch_completions ch i) else ch_completions ch i)"
proof -
  define ch1 where "ch1 = fold (\<lambda>p. complete_unary (pc_id p) (raw_result st)) (ch_pending_calls ch) (ch\<lparr>ch_pending_calls := []\<rparr>)"
  have "conn_part ch1 = conn_part (ch\<lparr>ch_pending_calls := []\<rparr>)" by (simp add: ch1_def ch_parts)
  then have s: "settled (ch1\<lparr>ch_pending_generic_calls := []\<rparr>)" using assms by (simp add: conn_part_def)
  have fold: "ch_calls (fold (\<lambda>p. complete_unary (pc_id p) r) ps c) = ch_calls c
      \<and> ch_active_calls (fold (\<lambda>p. complete_unary (pc_id p) r) ps c) = ch_active_calls c" for ps r and c :: ChannelImpl
    by (induction ps arbitrary: c) (simp_all add: complete_unary_def)
  have "unary_part (FailAll env now st ch) = unary_part ch1"
    using parts_resubmit_streams(1) [OF s, of env now "ch_pending_generic_calls ch1"]
    by (simp add: FailAll_def Let_def unary_part_def flip: ch1_def)
  then show "ch_calls (FailAll env now st ch) = ch_calls ch" "ch_active_calls (FailAll env now st ch) = ch_active_calls ch"
    "ch_completions (FailAll env now st ch) i = (if i \<in> pc_id ` set (ch_pending_calls ch)
       then map_option (un_Complete (raw_result st)) (ch_completions ch i) else ch_completions ch i)"
    using fold [of "raw_result st" "ch_pending_calls ch" "ch\<lparr>ch_pending_calls := []\<rparr>"]
      complete_all_apply [of "raw_result st" "ch_pending_calls ch" "ch\<lparr>ch_pending_calls := []\<rparr>" i]
    by (simp_all add: unary_part_def flip: ch1_def)
qed

lemma FailAll_streams:
  assumes "settled ch" "ch_pending_generic_calls ch = []"
  shows "ch_streams (FailAll env now st ch) = ch_streams ch"
    "ch_active_streaming_calls (FailAll env now st ch) = ch_active_streaming_calls ch"
proof -
  have "stream_part (fold (\<lambda>p. complete_unary (pc_id p) (raw_result st)) (ch_pending_calls ch) (ch\<lparr>ch_pending_calls := []\<rparr>)) = stream_part ch"
    by (simp add: ch_parts) (simp add: stream_part_def)
  from stream_part_sel [OF this] show "ch_streams (FailAll env now st ch) = ch_streams ch"
    "ch_active_streaming_calls (FailAll env now st ch) = ch_active_streaming_calls ch"
    by (simp_all add: FailAll_def Let_def assms(2))
qed

lemma FailAll_active_streaming:
  assumes "ch_state ch = kShutdown \<or> ch_state ch = kFailed"
  shows "ch_active_streaming_calls (FailAll env now st ch) = ch_active_streaming_calls ch"
proof -
  have fold: "ch_active_streaming_calls (fold (resubmit_stream env now) gs c) = ch_active_streaming_calls c"
    if "ch_state c = kShutdown \<or> ch_state c = kFailed" for gs and c :: ChannelImpl
    using that
  proof (induction gs arbitrary: c)
    case (Cons g gs)
    then show ?case by (auto simp: resubmit_stream_def submit_stream_now_def fail_stream_def)
  qed simp
  define ch1 where "ch1 = fold (\<lambda>p. complete_unary (pc_id p) (raw_result st)) (ch_pending_calls ch) (ch\<lparr>ch_pending_calls := []\<rparr>)"
  have p: "conn_part ch1 = conn_part ch" "stream_part ch1 = stream_part ch"
    by (simp_all add: ch1_def ch_parts) (simp_all add: conn_part_def stream_part_def)
  show ?thesis
    using fold [of "ch1\<lparr>ch_pending_generic_calls := []\<rparr>"] assms conn_part_sel [OF p(1)] stream_part_sel [OF p(2)]
    by (simp add: FailAll_def Let_def flip: ch1_def)
qed

section \<open>No call is lost\<close>

text \<open>
  C7: No call of a channel is lost or answered twice. Take any interleaving of calls, session
  callbacks, cancellations, deadlines and shutdown, with stream ids that the session does not
  reuse. Every unary call has been answered exactly once, or is queued while the channel connects,
  or has a call state that has posted its completion or is tracked under its stream, where the
  close of the stream, a GOAWAY or the shutdown will end it. Every streaming call is queued while
  the channel connects, or its handle was given to the caller and the call is closed or tracked.
\<close>

theorem channel_no_lost_call:
  assumes "(ch_step zl env)\<^sup>*\<^sup>* (new_ChannelImpl host port opts) ch" "ids_distinct (submitted_id env)" "i < ch_next ch"
  shows "case ch_completions ch i of
      Some c \<Rightarrow> length (un_results c) = of_bool (un_completed c)
        \<and> (un_completed c
           \<or> ch_state ch = kConnecting \<and> i \<in> pc_id ` set (ch_pending_calls ch)
           \<or> (\<exists>s. ch_calls ch i = Some s \<and> (uc_completions s \<noteq> [] \<or> i \<in> snd ` set (ch_active_calls ch))))
    | None \<Rightarrow> ch_state ch = kConnecting \<and> i \<in> gc_id ` set (ch_pending_generic_calls ch)
        \<or> i \<in> set (ch_handles ch)
          \<and> (\<exists>t. ch_streams ch i = Some t \<and> (stream_closed t \<or> i \<in> snd ` set (ch_active_streaming_calls ch)))"
proof (cases "ch_completions ch i")
  case None
  note inv = ch_inv_reachable [OF assms(1,2)]
  then have "i \<in> gc_id ` set (ch_pending_generic_calls ch) \<or> i \<in> dom (ch_streams ch)"
    using None assms(3) by (auto simp: stream_inv_def)
  moreover have "i \<in> gc_id ` set (ch_pending_generic_calls ch) \<Longrightarrow> ch_state ch = kConnecting"
    using inv by (auto simp: queue_inv_def)
  moreover have "i \<in> set (ch_handles ch) \<and> (stream_closed t \<or> i \<in> snd ` set (ch_active_streaming_calls ch))"
    if "ch_streams ch i = Some t" for t
    using inv that by (auto simp: stream_inv_def tracked_def)
  ultimately show ?thesis using None by auto
next
  case (Some c)
  note inv = ch_inv_reachable [OF assms(1,2)]
  have c: "un_good c" "un_completed c \<or> i \<in> pc_id ` set (ch_pending_calls ch) \<or> i \<in> dom (ch_calls ch)"
    using inv Some by (auto simp: unary_inv_def)
  have "i \<in> pc_id ` set (ch_pending_calls ch) \<Longrightarrow> ch_state ch = kConnecting"
    using inv by (auto simp: queue_inv_def)
  moreover have "uc_completions s \<noteq> [] \<or> i \<in> snd ` set (ch_active_calls ch)" if "ch_calls ch i = Some s" for s
  proof -
    have "uc_good s" "uc_completed s \<or> i \<in> snd ` set (ch_active_calls ch)"
      using inv that by (auto simp: unary_inv_def tracked_def)
    then show ?thesis by (auto simp: uc_good_def)
  qed
  ultimately show ?thesis using Some c by (auto simp: un_good_def)
qed

text \<open>A plaintext channel on Linux whose session accepts every request, connected.\<close>

definition sample_env :: ChannelEnv where
  "sample_env = \<lparr>ce_asio = \<lparr>ae_connection_refused = 111, ae_connection_reset = 104, ae_broken_pipe = 32, ae_network_down = 100,
       ae_network_reset = 102, ae_network_unreachable = 101, ae_timed_out = 110, ae_operation_aborted = 125, ae_eof = 2,
       ae_host_not_found = 1, ae_host_not_found_try_again = 3\<rparr>,
     ce_tls = sample_tls,
     ce_submit = (\<lambda>i. Inr (2 * int i + 1))\<rparr>"

definition new_channel :: ChannelImpl where
  "new_channel = new_ChannelImpl ''localhost'' 50051 (default_ChannelOptions\<lparr>co_use_tls := False\<rparr>)"

definition ready_channel :: ChannelImpl where
  "ready_channel = OnSessionConnect sample_env 0 (Connect sample_env 0 0 new_channel)"

lemma sample_ids: "ids_distinct (submitted_id sample_env)"
  by (simp add: ids_distinct_def submitted_id_def sample_env_def)

lemma ready_channel_eq:
  "ready_channel = new_channel\<lparr>ch_state := kReady, ch_session := True, ch_waiter_results := [(0, status_ok)]\<rparr>"
  by (simp add: ready_channel_def new_channel_def new_ChannelImpl_def Connect_def connect_if_idle_def DoConnect_def
      OnSessionConnect_def OnConnected_def DrainQueue_def run_waiters_def default_ChannelOptions_def Let_def)

lemma ready_channel_reachable:
  "(ch_step copy_zlib sample_env)\<^sup>*\<^sup>*
     (new_ChannelImpl ''localhost'' 50051 (default_ChannelOptions\<lparr>co_use_tls := False\<rparr>)) ready_channel"
proof -
  have "ch_step copy_zlib sample_env new_channel (Connect sample_env 0 0 new_channel)"
    by (rule ch_connect)
  moreover have "ch_state (Connect sample_env 0 0 new_channel) \<noteq> kIdle"
    by (simp add: new_channel_def new_ChannelImpl_def Connect_def connect_if_idle_def DoConnect_def default_ChannelOptions_def Let_def)
  then have "ch_step copy_zlib sample_env (Connect sample_env 0 0 new_channel) ready_channel"
    unfolding ready_channel_def by (rule ch_on_connect)
  ultimately show ?thesis unfolding new_channel_def by (rule converse_rtranclp_into_rtranclp [OF _ r_into_rtranclp])
qed

lemma ready_channel_sel [simp]:
  "ch_state ready_channel = kReady" "ch_next ready_channel = 0" "ch_active_calls ready_channel = []"
  "ch_completions ready_channel = Map.empty" "ch_calls ready_channel = Map.empty" "ch_pending_calls ready_channel = []"
  "ch_connect_waiters ready_channel = []" "ch_waiter_results ready_channel = [(0, status_ok)]"
  by (simp_all add: ready_channel_eq new_channel_def new_ChannelImpl_def)

lemma ready_unary:
  assumes "EncodeFrame 0 req = Some frame"
  shows "UnaryCallRaw sample_env 0 path new_ClientContext req ready_channel = ready_channel\<lparr>ch_next := 1,
     ch_completions := [0 \<mapsto> new_UnaryCallCompletion\<lparr>un_cancel_stream := True\<rparr>],
     ch_calls := [0 \<mapsto> new_ClientCallState (Some new_ClientContext)], ch_active_calls := [(1, 0)],
     ch_requests := [(0, RequestUri path ready_channel, Some frame, projr (BuildStreamingGrpcHeaders 0 (ch_opts ready_channel) (Some new_ClientContext)))]\<rparr>"
  using assms
  by (simp add: ready_channel_eq new_channel_def new_ChannelImpl_def UnaryCallRaw_def SubmitCall_def submit_unary_guard_def
      submit_unary_now_def BuildStreamingGrpcHeaders_def new_ClientContext_def new_UnaryCallCompletion_def SetCancelStream_def
      sample_env_def map_emplace_def upd_call_def uc_ArmTimer_def arm_timer_def new_ClientCallState_def RequestUri_def Let_def)

theorem channel_no_lost_call_witness:
  "\<exists>s. ch_calls (UnaryCallRaw sample_env 0 ''/a.B/C'' new_ClientContext [] ready_channel) 0 = Some s
     \<and> (uc_completions s \<noteq> []
        \<or> 0 \<in> snd ` set (ch_active_calls (UnaryCallRaw sample_env 0 ''/a.B/C'' new_ClientContext [] ready_channel)))"
proof -
  obtain frame where frame: "EncodeFrame 0 [] = Some frame" by (simp add: EncodeFrame_def)
  have reach: "(ch_step copy_zlib sample_env)\<^sup>*\<^sup>* (new_ChannelImpl ''localhost'' 50051 (default_ChannelOptions\<lparr>co_use_tls := False\<rparr>))
      (UnaryCallRaw sample_env 0 ''/a.B/C'' new_ClientContext [] ready_channel)"
    by (rule rtranclp.rtrancl_into_rtrancl [OF ready_channel_reachable ch_unary])
  show ?thesis
    using channel_no_lost_call [OF reach sample_ids, of 0]
    by (simp add: ready_unary [OF frame] new_UnaryCallCompletion_def)
qed

section \<open>Shutdown and GOAWAY\<close>

lemma submit_when_shut:
  assumes "ch_state ch = kShutdown"
  shows "\<exists>c. ch_completions (UnaryCallRaw env now path ctx req ch) (ch_next ch) = Some c
    \<and> un_results c = [raw_result (ShutdownStatus ch)]"
  using assms
  by (simp add: UnaryCallRaw_def SubmitCall_def submit_unary_guard_def new_UnaryCallCompletion_def complete_unary_def
      un_Complete_def ShutdownStatus_def Let_def)

lemma streams_when_shut:
  assumes "ch_state ch = kShutdown"
  shows "ch_streams (SubmitServerStreamingCall env now path ctx req ch) (ch_next ch) = Some (stream_Fail (ShutdownStatus ch) (new_stream ServerStreaming ctx))"
    "ch_streams (SubmitClientStreamingCall env now path ctx ch) (ch_next ch) = Some (stream_Fail (ShutdownStatus ch) (new_stream ClientStreaming ctx))"
    "ch_streams (SubmitBidiStreamingCall env now path ctx ch) (ch_next ch) = Some (stream_Fail (ShutdownStatus ch) (new_stream BidiStreaming ctx))"
  using assms
  by (simp_all add: SubmitServerStreamingCall_def SubmitClientStreamingCall_def SubmitBidiStreamingCall_def submit_stream_def
      submit_stream_now_def fail_stream_def ShutdownStatus_def)

text \<open>Queued streaming calls that are submitted on a shut-down channel fail with its status; no other stream changes.\<close>

lemma resubmit_when_shut:
  assumes "ch_state ch = kShutdown"
  shows "distinct (map gc_id gs) \<Longrightarrow> ch_streams (fold (resubmit_stream env now) gs ch) i =
    (case find (\<lambda>g. gc_id g = i) gs of
       Some g \<Rightarrow> Some (stream_Fail (ShutdownStatus ch) (new_stream (gc_kind g) (gc_ctx g)))
     | None \<Rightarrow> ch_streams ch i)"
  using assms
proof (induction gs arbitrary: ch)
  case (Cons g gs)
  let ?ch = "fail_stream g (ShutdownStatus ch) ch"
  have step: "resubmit_stream env now g ch = ?ch"
    using Cons.prems(2) by (simp add: resubmit_stream_def submit_stream_now_def)
  have "ch_state ?ch = kShutdown" "ShutdownStatus ?ch = ShutdownStatus ch"
    using Cons.prems(2) by (simp_all add: fail_stream_def ShutdownStatus_def)
  moreover have "find (\<lambda>h. gc_id h = gc_id g) gs = None"
    using Cons.prems(1) by (simp add: find_None_iff) (metis imageI)
  ultimately show ?case
    using Cons.IH [of ?ch] Cons.prems(1) by (auto simp: step) (simp_all add: fail_stream_def split: option.split)
qed simp

lemma FailAll_shut_streams:
  assumes "ch_state ch = kShutdown" "distinct (map gc_id (ch_pending_generic_calls ch))"
  shows "ch_streams (FailAll env now st ch) i =
    (case find (\<lambda>g. gc_id g = i) (ch_pending_generic_calls ch) of
       Some g \<Rightarrow> Some (stream_Fail (ShutdownStatus ch) (new_stream (gc_kind g) (gc_ctx g)))
     | None \<Rightarrow> ch_streams ch i)"
proof -
  define ch1 where "ch1 = fold (\<lambda>p. complete_unary (pc_id p) (raw_result st)) (ch_pending_calls ch) (ch\<lparr>ch_pending_calls := []\<rparr>)"
  have p: "conn_part ch1 = conn_part ch" "stream_part ch1 = stream_part ch"
    by (simp_all add: ch1_def ch_parts) (simp_all add: conn_part_def stream_part_def)
  then have "ch_state (ch1\<lparr>ch_pending_generic_calls := []\<rparr>) = kShutdown" "ShutdownStatus (ch1\<lparr>ch_pending_generic_calls := []\<rparr>) = ShutdownStatus ch"
    using conn_part_sel [OF p(1)] assms(1) by (simp_all add: ShutdownStatus_def)
  then show ?thesis
    using resubmit_when_shut [of "ch1\<lparr>ch_pending_generic_calls := []\<rparr>" "ch_pending_generic_calls ch" env now i] assms(2) stream_part_sel [OF p(2)]
    by (simp add: FailAll_def Let_def ch1_def [symmetric] split: option.split)
qed

lemma find_unique:
  assumes "distinct (map gc_id gs)" "g \<in> set gs"
  shows "find (\<lambda>h. gc_id h = gc_id g) gs = Some g"
  using assms by (induction gs) (auto simp: rev_image_eqI)

lemma submit_when_failed:
  assumes "ch_state ch = kFailed"
  shows "\<exists>c. ch_completions (UnaryCallRaw env now path ctx req ch) (ch_next ch) = Some c
    \<and> un_results c = [raw_result (mk_status UNAVAILABLE ''channel failed'')]"
  using assms
  by (simp add: UnaryCallRaw_def SubmitCall_def submit_unary_guard_def submit_unary_now_def new_UnaryCallCompletion_def
      complete_unary_def un_Complete_def Let_def)

lemma fail_calls_tables [simp]:
  "ch_completions (fail_calls st P ch) = ch_completions ch" "ch_pending_calls (fail_calls st P ch) = ch_pending_calls ch"
  "ch_pending_generic_calls (fail_calls st P ch) = ch_pending_generic_calls ch" "ch_next (fail_calls st P ch) = ch_next ch"
  "ch_active_calls (fail_calls st P ch) = filter (\<lambda>x. \<not> P x) (ch_active_calls ch)"
  "ch_active_streaming_calls (fail_calls st P ch) = filter (\<lambda>x. \<not> P x) (ch_active_streaming_calls ch)"
  "ch_calls (fail_calls st P ch) i = (if i \<in> snd ` set (filter P (ch_active_calls ch))
     then map_option (uc_Fail st) (ch_calls ch i) else ch_calls ch i)"
  "ch_streams (fail_calls st P ch) i = (if i \<in> snd ` set (filter P (ch_active_streaming_calls ch))
     then map_option (stream_Fail st) (ch_streams ch i) else ch_streams ch i)"
  by (simp_all add: fail_calls_def unary_table.fail_each_apply stream_table.fail_each_apply)

text \<open>A shut-down channel has nothing queued or tracked, and every call is answered.\<close>

lemma shutdown_empties:
  assumes "ch_inv env ch" "ids_distinct (submitted_id env)" "ch_state ch \<noteq> kShutdown" and ch': "ch' = DoShutdown env now ch"
  shows "ch_pending_calls ch' = []" "ch_pending_generic_calls ch' = []" "ch_active_calls ch' = []" "ch_active_streaming_calls ch' = []"
    "unary_inv env [] ch'" "stream_inv env [] ch'" "ch_next ch' = ch_next ch"
    "\<And>i c. ch_completions ch' i = Some c \<Longrightarrow> un_completed c \<or> (\<exists>s. ch_calls ch' i = Some s \<and> uc_completions s \<noteq> [])"
    "\<And>i t. ch_streams ch' i = Some t \<Longrightarrow> stream_closed t"
    "\<And>k i. (k, i) \<in> set (ch_active_streaming_calls ch)
      \<Longrightarrow> ch_streams ch' i = map_option (stream_Fail (mk_status CANCELLED ''channel shut down'')) (ch_streams ch i)"
    "\<And>g. g \<in> set (ch_pending_generic_calls ch)
      \<Longrightarrow> ch_streams ch' (gc_id g) = Some (stream_Fail (mk_status CANCELLED ''channel shut down'') (new_stream (gc_kind g) (gc_ctx g)))"
proof -
  define st where "st = mk_status CANCELLED ''channel shut down''"
  define ch0 where "ch0 = run_waiters st (ch\<lparr>ch_state := kShutdown, ch_connecting_session := False, ch_session := False\<rparr>)"
  define ch1 where "ch1 = fail_calls st (\<lambda>_. True) ch0"
  have eq: "ch' = FailAll env now st ch1"
    using assms(3) by (simp add: ch' st_def DoShutdown_fail_calls Let_def ch0_def ch1_def)
  have settled: "settled ch1" "ch_state ch1 = kShutdown" by (simp_all add: ch0_def ch1_def)
  have "unary_inv env [] ch0" "stream_inv env [] ch0" using assms(1) by (simp_all add: ch0_def)
  then have em: "emptied env ch1 ch'"
    unfolding eq by (intro FailAll_emptied settled assms(2)) (simp_all add: ch1_def fail_calls_inv)
  show c: "ch_pending_calls ch' = []" "ch_pending_generic_calls ch' = []" "unary_inv env [] ch'" "stream_inv env [] ch'" "ch_next ch' = ch_next ch"
    using em conn_part_sel [of ch' ch1] by (simp_all add: emptied_def ch1_def ch0_def run_waiters_def)
  show act: "ch_active_calls ch' = []" "ch_active_streaming_calls ch' = []"
    unfolding eq by (simp_all add: FailAll_calls settled FailAll_active_streaming) (simp_all add: ch1_def)
  show "un_completed c \<or> (\<exists>s. ch_calls ch' i = Some s \<and> uc_completions s \<noteq> [])" if "ch_completions ch' i = Some c" for i c
    using c(1,3) act(1) that by (force simp: unary_inv_def tracked_def uc_good_def)
  show "stream_closed t" if "ch_streams ch' i = Some t" for i t
    using c(4) act(2) that by (auto simp: stream_inv_def tracked_def)
  note streams = FailAll_shut_streams [of ch1 env now st, OF settled(2), folded eq]
  have term_none: "ch_terminal_status ch = None" using assms(1,3) by (auto simp: queue_inv_def)
  then have st: "ShutdownStatus ch1 = st" by (simp add: ShutdownStatus_def ch1_def ch0_def fail_calls_def run_waiters_def st_def)
  have inv: "distinct (map gc_id (ch_pending_generic_calls ch1))" "ch_pending_generic_calls ch1 = ch_pending_generic_calls ch"
    using assms(1) by (simp_all add: ch1_def ch0_def run_waiters_def stream_inv_def)
  show "ch_streams ch' i = map_option (stream_Fail (mk_status CANCELLED ''channel shut down'')) (ch_streams ch i)"
    if "(k, i) \<in> set (ch_active_streaming_calls ch)" for k i
  proof -
    have "ch_streams ch i \<noteq> None" using assms(1) that by (auto simp: stream_inv_def tracked_def)
    then have "find (\<lambda>g. gc_id g = i) (ch_pending_generic_calls ch) = None"
      using assms(1) by (auto simp: find_None_iff stream_inv_def)
    then show ?thesis
      using streams [OF inv(1), of i] that by (force simp: inv(2) ch1_def ch0_def run_waiters_def st_def)
  qed
  show "ch_streams ch' (gc_id g) = Some (stream_Fail (mk_status CANCELLED ''channel shut down'') (new_stream (gc_kind g) (gc_ctx g)))"
    if "g \<in> set (ch_pending_generic_calls ch)" for g
    using streams [OF inv(1), of "gc_id g"] find_unique [OF inv(1)] that by (simp add: inv(2) st) (simp add: st_def)
qed

text \<open>
  C8: \<open>Shutdown\<close> ends everything with CANCELLED. In every reachable state of a channel that is not
  shut down, \<open>DoShutdown\<close> answers every waiting connect callback, completes every queued unary call,
  fails every unary and streaming call that has a stream and gives every queued streaming call a
  failed handle, all with CANCELLED. Afterwards nothing is queued or tracked, every unary call has its
  answer or has posted it, and every streaming call is closed. A second shutdown changes nothing, and
  later calls of all four kinds fail with CANCELLED at once. (A channel that is shut down already, by an
  earlier \<open>Shutdown\<close> or by a TLS configuration error, keeps its status.)
\<close>

theorem channel_shutdown:
  assumes "(ch_step zl env)\<^sup>*\<^sup>* (new_ChannelImpl host port opts) ch" "ids_distinct (submitted_id env)" "ch_state ch \<noteq> kShutdown"
    and st: "st = mk_status CANCELLED ''channel shut down''" and ch': "ch' = DoShutdown env now ch"
  shows "ch_waiter_results ch' = ch_waiter_results ch @ map (\<lambda>w. (w, st)) (ch_connect_waiters ch)
    \<and> ch_connect_waiters ch' = [] \<and> ch_pending_calls ch' = [] \<and> ch_pending_generic_calls ch' = []
    \<and> ch_active_calls ch' = [] \<and> ch_active_streaming_calls ch' = []
    \<and> (\<forall>p\<in>set (ch_pending_calls ch). ch_completions ch' (pc_id p) = map_option (un_Complete (raw_result st)) (ch_completions ch (pc_id p)))
    \<and> (\<forall>(k, i)\<in>set (ch_active_calls ch). ch_calls ch' i = map_option (uc_Fail st) (ch_calls ch i))
    \<and> (\<forall>(k, i)\<in>set (ch_active_streaming_calls ch). ch_streams ch' i = map_option (stream_Fail st) (ch_streams ch i))
    \<and> (\<forall>g\<in>set (ch_pending_generic_calls ch). ch_streams ch' (gc_id g) = Some (stream_Fail st (new_stream (gc_kind g) (gc_ctx g))))
    \<and> (\<forall>i c. ch_completions ch' i = Some c \<longrightarrow> un_completed c \<or> (\<exists>s. ch_calls ch' i = Some s \<and> uc_completions s \<noteq> []))
    \<and> (\<forall>i t. ch_streams ch' i = Some t \<longrightarrow> stream_closed t)
    \<and> DoShutdown env now' ch' = ch'
    \<and> (\<exists>c. ch_completions (UnaryCallRaw env now' path ctx req ch') (ch_next ch') = Some c \<and> un_results c = [raw_result st])
    \<and> ch_streams (SubmitServerStreamingCall env now' path sctx req ch') (ch_next ch') = Some (stream_Fail st (new_stream ServerStreaming sctx))
    \<and> ch_streams (SubmitClientStreamingCall env now' path sctx ch') (ch_next ch') = Some (stream_Fail st (new_stream ClientStreaming sctx))
    \<and> ch_streams (SubmitBidiStreamingCall env now' path sctx ch') (ch_next ch') = Some (stream_Fail st (new_stream BidiStreaming sctx))"
proof -
  define ch0 where "ch0 = run_waiters st (ch\<lparr>ch_state := kShutdown, ch_connecting_session := False, ch_session := False\<rparr>)"
  define ch1 where "ch1 = fail_calls st (\<lambda>_. True) ch0"
  have inv: "ch_inv env ch" by (rule ch_inv_reachable [OF assms(1,2)])
  have term_none: "ch_terminal_status ch = None" using inv assms(3) by (auto simp: queue_inv_def)
  have eq: "ch' = FailAll env now st ch1"
    using assms(3) by (simp add: ch' st DoShutdown_fail_calls Let_def ch0_def ch1_def)
  have settled: "settled ch1" "ch_state ch1 = kShutdown" by (simp_all add: ch0_def ch1_def)
  have "unary_inv env [] ch0" "stream_inv env [] ch0" using inv by (simp_all add: ch0_def)
  then have "emptied env ch1 ch'"
    unfolding eq by (intro FailAll_emptied settled assms(2)) (simp_all add: ch1_def fail_calls_inv)
  then have c: "conn_part ch' = conn_part ch1" by (simp add: emptied_def)
  note conn = conn_part_sel [OF c] and empty = shutdown_empties [OF inv assms(2,3) ch']
  have waiters: "ch_waiter_results ch1 = ch_waiter_results ch @ map (\<lambda>w. (w, st)) (ch_connect_waiters ch)" "ch_connect_waiters ch1 = []"
    "ch_terminal_status ch1 = None"
    by (simp_all add: ch1_def ch0_def fail_calls_def run_waiters_def term_none)
  have calls: "ch_calls ch' i = map_option (uc_Fail st) (ch_calls ch i)" if "(k, i) \<in> set (ch_active_calls ch)" for k i
    unfolding eq FailAll_calls(1) [OF settled(1)] using that by (force simp: ch1_def ch0_def run_waiters_def)
  have pend: "ch_completions ch' (pc_id p) = map_option (un_Complete (raw_result st)) (ch_completions ch (pc_id p))"
    if "p \<in> set (ch_pending_calls ch)" for p
    unfolding eq FailAll_calls(3) [OF settled(1)] using that by (simp add: ch1_def ch0_def run_waiters_def)
  have state: "ch_state ch' = kShutdown" "ShutdownStatus ch' = st"
    using conn settled(2) waiters(3) by (simp_all add: ShutdownStatus_def st)
  have "DoShutdown env now' ch' = ch'" using state by (simp add: DoShutdown_def)
  moreover have "\<exists>c. ch_completions (UnaryCallRaw env now' path ctx req ch') (ch_next ch') = Some c \<and> un_results c = [raw_result st]"
    using submit_when_shut [OF state(1)] state(2) by simp
  ultimately show ?thesis
    using conn waiters empty(1-4,8,9) empty(10,11) [folded st] calls pend streams_when_shut [OF state(1), unfolded state(2)] by auto
qed

theorem channel_shutdown_witness:
  "ch_active_calls (DoShutdown sample_env 0 (UnaryCallRaw sample_env 0 ''/a.B/C'' new_ClientContext [] ready_channel)) = []
   \<and> (\<exists>s. ch_calls (DoShutdown sample_env 0 (UnaryCallRaw sample_env 0 ''/a.B/C'' new_ClientContext [] ready_channel)) 0 = Some s
        \<and> uc_completions s = [raw_result (mk_status CANCELLED ''channel shut down'')])"
proof -
  obtain frame where frame: "EncodeFrame 0 [] = Some frame" by (simp add: EncodeFrame_def)
  have reach: "(ch_step copy_zlib sample_env)\<^sup>*\<^sup>* (new_ChannelImpl ''localhost'' 50051 (default_ChannelOptions\<lparr>co_use_tls := False\<rparr>))
      (UnaryCallRaw sample_env 0 ''/a.B/C'' new_ClientContext [] ready_channel)"
    by (rule rtranclp.rtrancl_into_rtrancl [OF ready_channel_reachable ch_unary])
  have state: "ch_state (UnaryCallRaw sample_env 0 ''/a.B/C'' new_ClientContext [] ready_channel) \<noteq> kShutdown"
    by (simp add: ready_unary [OF frame])
  show ?thesis
    using channel_shutdown [OF reach sample_ids state refl refl]
    by (auto simp: ready_unary [OF frame] uc_Fail_def uc_Complete_def new_ClientCallState_def)
qed

text \<open>
  C9: A GOAWAY ends exactly the calls the peer did not accept. In every reachable state with a
  connection, calls whose stream id is at most \<open>last_stream_id\<close> keep their state and stay tracked, so that
  they end by their own trailers or close; those above it fail with UNAVAILABLE; the channel is failed and
  later calls are refused. (\<open>docs/nghttp2_asio_phase1.md\<close> and \<open>docs/concurrency.md\<close> say that accepted calls
  complete at the GOAWAY, with UNAVAILABLE if no trailers have arrived; the code leaves them open.)
\<close>

theorem channel_goaway:
  assumes "(ch_step zl env)\<^sup>*\<^sup>* (new_ChannelImpl host port opts) ch" "ids_distinct (submitted_id env)"
    and "ch_state ch \<noteq> kShutdown" "ch_state ch \<noteq> kIdle" "ch_state ch \<noteq> kConnecting"
    and st: "st = mk_status UNAVAILABLE (''server sent GOAWAY (last_stream_id='' @ int_to_string last_id @ '')'')"
    and ch': "ch' = OnSessionGoaway env now last_id ch"
  shows "ch_state ch' = kFailed
    \<and> (\<forall>(k, i)\<in>set (ch_active_calls ch).
         if k \<le> last_id then ch_calls ch' i = ch_calls ch i \<and> (k, i) \<in> set (ch_active_calls ch')
         else ch_calls ch' i = map_option (uc_Fail st) (ch_calls ch i) \<and> (k, i) \<notin> set (ch_active_calls ch'))
    \<and> (\<forall>(k, i)\<in>set (ch_active_streaming_calls ch).
         if k \<le> last_id then ch_streams ch' i = ch_streams ch i \<and> (k, i) \<in> set (ch_active_streaming_calls ch')
         else ch_streams ch' i = map_option (stream_Fail st) (ch_streams ch i) \<and> (k, i) \<notin> set (ch_active_streaming_calls ch'))
    \<and> (\<exists>c. ch_completions (UnaryCallRaw env now' path ctx req ch') (ch_next ch') = Some c
         \<and> un_results c = [raw_result (mk_status UNAVAILABLE ''channel failed'')])"
proof -
  define ch1 where "ch1 = fail_calls st (\<lambda>(k, i). k > last_id) (ch\<lparr>ch_state := kFailed\<rparr>)"
  have inv: "ch_inv env ch" by (rule ch_inv_reachable [OF assms(1,2)])
  have eq: "ch' = FailAll env now st ch1"
    using assms(3) by (simp add: ch' OnSessionGoaway_def OnGoaway_fail_calls Let_def ch1_def st)
  have s: "settled ch1" "ch_state ch1 = kFailed" by (simp_all add: ch1_def)
  have gen: "ch_pending_generic_calls ch1 = []" using inv assms(5) by (simp add: ch1_def queue_inv_def)
  have u: "\<And>k i. (k, i) \<in> set (ch_active_calls ch) \<Longrightarrow> submitted_id env i = Some k"
    and t: "\<And>k i. (k, i) \<in> set (ch_active_streaming_calls ch) \<Longrightarrow> submitted_id env i = Some k"
    using inv by (auto simp: unary_inv_def stream_inv_def tracked_def)
  have "emptied env ch1 ch'" unfolding eq
    using inv by (intro FailAll_emptied s assms(2)) (simp_all add: ch1_def fail_calls_inv)
  then have state: "ch_state ch' = kFailed" using conn_part_sel [of ch' ch1] s(2) by (simp add: emptied_def)
  have "ch_calls ch' = ch_calls ch1" "ch_active_calls ch' = ch_active_calls ch1" "ch_streams ch' = ch_streams ch1"
    "ch_active_streaming_calls ch' = ch_active_streaming_calls ch1"
    unfolding eq by (simp_all add: FailAll_calls FailAll_streams s gen)
  note eqs = this
  have above: "i \<in> snd ` set (filter (\<lambda>(k, i). k > last_id) xs) \<longleftrightarrow> k > last_id"
    if "(k, i) \<in> set xs" "\<And>k i. (k, i) \<in> set xs \<Longrightarrow> submitted_id env i = Some k" for k i xs
  proof
    assume "i \<in> snd ` set (filter (\<lambda>(k, i). k > last_id) xs)"
    then obtain k' where "(k', i) \<in> set xs" "k' > last_id" by auto
    then show "k > last_id" using that(2) [OF that(1)] that(2) [of k' i] by simp
  qed (use that(1) in force)
  have "if k \<le> last_id then ch_calls ch' i = ch_calls ch i \<and> (k, i) \<in> set (ch_active_calls ch')
      else ch_calls ch' i = map_option (uc_Fail st) (ch_calls ch i) \<and> (k, i) \<notin> set (ch_active_calls ch')"
    if "(k, i) \<in> set (ch_active_calls ch)" for k i
    using that above [OF that u] by (simp add: eqs ch1_def)
  moreover have "if k \<le> last_id then ch_streams ch' i = ch_streams ch i \<and> (k, i) \<in> set (ch_active_streaming_calls ch')
      else ch_streams ch' i = map_option (stream_Fail st) (ch_streams ch i) \<and> (k, i) \<notin> set (ch_active_streaming_calls ch')"
    if "(k, i) \<in> set (ch_active_streaming_calls ch)" for k i
    using that above [OF that t] by (simp add: eqs ch1_def)
  ultimately show ?thesis
    using state submit_when_failed [OF state] by blast
qed

theorem channel_goaway_witness:
  "\<exists>s. ch_calls (OnSessionGoaway sample_env 0 0 (UnaryCallRaw sample_env 0 ''/a.B/C'' new_ClientContext [] ready_channel)) 0 = Some s
     \<and> uc_completions s \<noteq> []"
proof -
  obtain frame where frame: "EncodeFrame 0 [] = Some frame" by (simp add: EncodeFrame_def)
  have reach: "(ch_step copy_zlib sample_env)\<^sup>*\<^sup>* (new_ChannelImpl ''localhost'' 50051 (default_ChannelOptions\<lparr>co_use_tls := False\<rparr>))
      (UnaryCallRaw sample_env 0 ''/a.B/C'' new_ClientContext [] ready_channel)"
    by (rule rtranclp.rtrancl_into_rtrancl [OF ready_channel_reachable ch_unary])
  have state: "ch_state (UnaryCallRaw sample_env 0 ''/a.B/C'' new_ClientContext [] ready_channel) = kReady"
    by (simp add: ready_unary [OF frame])
  show ?thesis
    using channel_goaway [OF reach sample_ids _ _ _ refl refl, of 0 0] state
    by (auto simp: ready_unary [OF frame] uc_Fail_def uc_Complete_def new_ClientCallState_def)
qed

section \<open>Configuration errors\<close>

lemma conn_answers:
  "conn_part (CancelCall i ch) = conn_part ch" "conn_part (DeliverCompletion i ch) = conn_part ch"
  by (simp_all add: CancelCall_def DeliverCompletion_def ch_parts split: option.split list.split)

lemma shut_down_stays:
  assumes "(ch_step zl env)\<^sup>*\<^sup>* ch ch'" "ch_state ch = kShutdown"
  shows "ch_state ch' = kShutdown \<and> ch_terminal_status ch' = ch_terminal_status ch"
  using assms(1)
proof (induction rule: rtranclp_induct)
  case base
  then show ?case using assms(2) by simp
next
  case (step c d)
  have stream: "ch_state (submit_stream env now g b) = ch_state b \<and> ch_terminal_status (submit_stream env now g b) = ch_terminal_status b"
    if "ch_state b = kShutdown" for now g and b :: ChannelImpl
    using that by (simp add: submit_stream_def submit_stream_now_def fail_stream_def)
  have "ch_state d = ch_state c \<and> ch_terminal_status d = ch_terminal_status c"
    using step(2) step.IH
    by (cases rule: ch_step.cases)
      (simp_all add: Connect_def UnaryCallRaw_def SubmitCall_def submit_unary_guard_def complete_unary_def Let_def
        SubmitServerStreamingCall_def SubmitClientStreamingCall_def SubmitBidiStreamingCall_def stream
        CancelStreaming_def OnSessionConnect_def OnSessionError_def OnSessionGoaway_def DoShutdown_def
        OnRequestClose_def RemoveActiveCall_def OnStreamingClose_def upd_call_def upd_stream_def
        conn_part_sel [OF conn_answers(1)] conn_part_sel [OF conn_answers(2)])
  then show ?case using step.IH by simp
qed

text \<open>
  C30: A TLS configuration error is final. When the TLS context cannot be built, \<open>Connect\<close> on a new
  channel answers with the INVALID_ARGUMENT status of \<open>ValidateChannelOptions\<close>, and whatever happens
  afterwards, every later \<open>Connect\<close> and every later unary call gets that same status, also after a
  shutdown.
\<close>

theorem tls_error_is_final:
  assumes "co_use_tls opts" "\<not> co_use_h2c opts" and st: "st = fst (BuildTlsContext (ce_tls env) opts)" and "\<not> is_ok st"
    and "(ch_step zl env)\<^sup>*\<^sup>* (Connect env now w (new_ChannelImpl host port opts)) ch"
  shows "status_code st = INVALID_ARGUMENT
    \<and> ch_waiter_results (Connect env now w (new_ChannelImpl host port opts)) = [(w, st)]
    \<and> ch_waiter_results (Connect env now' w' ch) = ch_waiter_results ch @ [(w', st)]
    \<and> (\<exists>c. ch_completions (UnaryCallRaw env now' path ctx req ch) (ch_next ch) = Some c \<and> un_results c = [raw_result st])"
proof -
  let ?ch = "Connect env now w (new_ChannelImpl host port opts)"
  have first: "ch_state ?ch = kShutdown" "ch_terminal_status ?ch = Some st" "ch_waiter_results ?ch = [(w, st)]"
    using assms(1-4) by (simp_all add: Connect_def connect_if_idle_def DoConnect_def DrainWithStatus_def FailAll_def
        run_waiters_def new_ChannelImpl_def Let_def)
  from shut_down_stays [OF assms(5) this(1)] first(2) have now: "ch_state ch = kShutdown" "ShutdownStatus ch = st"
    by (simp_all add: ShutdownStatus_def)
  have "status_code st = INVALID_ARGUMENT"
    using assms(4) unfolding st BuildTlsContext_def ConfigureTlsContext_def Let_def
    by (auto simp: TlsFileError_def split: option.splits if_splits)
  then show ?thesis
    using first(3) now submit_when_shut [OF now(1)] by (simp add: Connect_def)
qed

theorem tls_error_is_final_witness:
  "ch_waiter_results (Connect (sample_env\<lparr>ce_tls := (ce_tls sample_env)\<lparr>te_alpn := False\<rparr>\<rparr>) 0 7
     (new_ChannelImpl ''localhost'' 443 default_ChannelOptions))
   = [(7, fst (BuildTlsContext ((ce_tls sample_env)\<lparr>te_alpn := False\<rparr>) default_ChannelOptions))]"
  using tls_error_is_final [of default_ChannelOptions _ "sample_env\<lparr>ce_tls := (ce_tls sample_env)\<lparr>te_alpn := False\<rparr>\<rparr>",
      OF _ _ refl _ rtranclp.rtrancl_refl [of "ch_step copy_zlib (sample_env\<lparr>ce_tls := (ce_tls sample_env)\<lparr>te_alpn := False\<rparr>\<rparr>)"]]
  by (simp add: sample_env_def sample_tls_def default_ChannelOptions_def BuildTlsContext_def ConfigureTlsContext_def)

section \<open>Errors of an established connection\<close>

text \<open>
  An error of an established connection is not noticed. In every reachable state in which the
  channel is ready, the session's error callback changes nothing at all: \<open>FailAll\<close> only looks at the
  queues, which are empty then, so the calls in flight are not failed, the channel stays ready and
  goes on submitting to the broken session.
\<close>

theorem ready_error_ignored:
  assumes "(ch_step zl env)\<^sup>*\<^sup>* (new_ChannelImpl host port opts) ch" "ids_distinct (submitted_id env)" "ch_state ch = kReady"
  shows "OnSessionError env now ec ch = ch"
proof -
  have "queue_inv ch" using ch_inv_reachable [OF assms(1,2)] by blast
  then have "ch_pending_calls ch = []" "ch_pending_generic_calls ch = []" using assms(3) by (simp_all add: queue_inv_def)
  then show ?thesis using assms(3) by (simp add: OnSessionError_def FailAll_def Let_def)
qed

theorem ready_error_ignored_witness:
  "OnSessionError sample_env 0 (104, ''Connection reset by peer'') ready_channel = ready_channel"
  by (rule ready_error_ignored [OF ready_channel_reachable sample_ids]) simp

end
