(* ===== verification/UnaryServer.thy ===== *)
theory UnaryServer
  imports ServerBase
begin

text \<open>
  \<open>src/server/call_state.{h,cc}\<close>: one inbound unary call.

  Every callback of the call runs on the connection's executor, so each is one atomic function on
  the state. The user's handler is a coroutine outside the library: starting it is recorded in
  \<open>us_spawned\<close> (with the request bytes), its completion is an event (\<open>us_HandlerDone\<close>) whose
  argument is an exception or the status and response bytes. \<open>us_sent\<close> records the calls on the
  response object. \<open>OnData\<close> and \<open>OnRequestEnd\<close> are \<open>None\<close> when they do not return, which
  \<open>Decompress\<close> may cause.
\<close>

record ServerCallState =
  us_decoder :: FrameDecoder
  us_request_encoding :: "Encoding option"
  us_ctx :: ServerContext
  us_timer :: "int option"
  us_responded :: bool
  us_closed :: bool
  us_terminal :: bool
  us_max_request_size :: nat
  us_max_metadata_size :: nat
  us_max_response_size :: nat
  us_peer_identity :: string
  us_on_data :: bool
  us_spawned :: "bytes list"
  us_sent :: "resp_action list"
  us_gen :: "ResponseGen option"

definition new_ServerCallState :: "nat \<Rightarrow> nat \<Rightarrow> nat \<Rightarrow> string \<Rightarrow> ServerCallState" where
  "new_ServerCallState max_request_size max_metadata_size max_response_size peer_identity =
     \<lparr>us_decoder = new_FrameDecoder max_request_size, us_request_encoding = None, us_ctx = new_ServerContext,
      us_timer = None, us_responded = False, us_closed = False, us_terminal = False,
      us_max_request_size = max_request_size, us_max_metadata_size = max_metadata_size,
      us_max_response_size = max_response_size, us_peer_identity = peer_identity,
      us_on_data = False, us_spawned = [], us_sent = [], us_gen = None\<rparr>"

section \<open>Sending\<close>

definition us_SendError :: "'z Zlib \<Rightarrow> Status \<Rightarrow> ServerCallState \<Rightarrow> ServerCallState" where
  "us_SendError zl status s =
     (if us_responded s then s
      else s\<lparr>us_responded := True, us_timer := None,
             us_sent := us_sent s @ [WriteHead 200 (error_head zl status), EndStream]\<rparr>)"

definition us_SendResponse ::
  "'z Zlib \<Rightarrow> Status \<Rightarrow> bytes \<Rightarrow> MetadataMap \<Rightarrow> MetadataMap \<Rightarrow> ServerCallState \<Rightarrow> ServerCallState" where
  "us_SendResponse zl status resp_bytes initial_meta trailing_meta s =
     (if us_responded s then s
      else
        let s1 = s\<lparr>us_responded := True\<rparr>
        in if \<not> is_ok status then
             let hdrs = BuildTrailers status trailing_meta
                          (MetadataToNghttp2Headers initial_meta (AddCommonHeaders zl []))
             in s1\<lparr>us_sent := us_sent s @ [WriteHead 200 hdrs, EndStream]\<rparr>
           else if length resp_bytes > us_max_response_size s then
             let hdrs = error_head zl (mk_status RESOURCE_EXHAUSTED
                          ''response message exceeds max_response_message_size'')
             in s1\<lparr>us_sent := us_sent s @ [WriteHead 200 hdrs, EndStream]\<rparr>
           else
             let frame = (case EncodeFrame 0 resp_bytes of None \<Rightarrow> [] | Some f \<Rightarrow> f);
                 init_hdrs = MetadataToNghttp2Headers initial_meta (AddCommonHeaders zl []);
                 trail_hdrs = BuildTrailers status trailing_meta []
             in s1\<lparr>us_sent := us_sent s @ [WriteHead 200 init_hdrs, EndGenerator],
                   us_gen := Some \<lparr>rg_frame = frame, rg_offset = 0, rg_trail_hdrs = trail_hdrs\<rparr>\<rparr>)"

text \<open>nghttp2 pulls the DATA generator; at its end it has called \<open>write_trailer\<close>.\<close>

definition us_Generate :: "nat \<Rightarrow> ServerCallState \<Rightarrow> ServerCallState" where
  "us_Generate len s =
     (case us_gen s of
        None \<Rightarrow> s
      | Some g \<Rightarrow>
          (case response_generate g len of
             (GTrailers t, g') \<Rightarrow> s\<lparr>us_gen := Some g', us_sent := us_sent s @ [WriteTrailer t]\<rparr>
           | (_, g') \<Rightarrow> s\<lparr>us_gen := Some g'\<rparr>))"

section \<open>Receiving\<close>

definition us_Start :: "'z Zlib \<Rightarrow> int \<Rightarrow> HttpRequest \<Rightarrow> ServerCallState \<Rightarrow> ServerCallState" where
  "us_Start zl now req s =
     (let (meta_status, client_meta) = Nghttp2HeadersToMetadata (rq_header req) [] (us_max_metadata_size s)
      in if \<not> is_ok meta_status then us_SendError zl meta_status s
         else
           let s1 = s\<lparr>us_ctx := (us_ctx s)\<lparr>sc_client_metadata := client_meta\<rparr>\<rparr>;
               enc_it = mm_find (rq_header req) ''grpc-encoding'';
               unsupported = (case enc_it of None \<Rightarrow> None
                 | Some hv \<Rightarrow> if hv_value hv \<noteq> ''identity'' \<and> ParseEncoding zl (hv_value hv) = None
                              then Some (hv_value hv) else None)
           in case unsupported of
                Some v \<Rightarrow> us_SendError zl (mk_status UNIMPLEMENTED (''unsupported grpc-encoding: '' @ v)) s1
              | None \<Rightarrow>
                  let s2 = (case enc_it of None \<Rightarrow> s1
                        | Some hv \<Rightarrow> if hv_value hv \<noteq> ''identity''
                                     then s1\<lparr>us_request_encoding := ParseEncoding zl (hv_value hv)\<rparr> else s1);
                      (c, tmr) = arm_deadline now req (set_peer req (us_peer_identity s) (us_ctx s2))
                  in s2\<lparr>us_ctx := c, us_timer := tmr, us_on_data := True\<rparr>)"

definition us_OnTimer :: "'z Zlib \<Rightarrow> bool \<Rightarrow> ServerCallState \<Rightarrow> ServerCallState" where
  "us_OnTimer zl aborted s =
     (if aborted then s
      else
        let s1 = s\<lparr>us_ctx := trigger_cancel (us_ctx s)\<rparr>
        in if \<not> us_responded s1
           then us_SendError zl (mk_status DEADLINE_EXCEEDED ''deadline exceeded'') s1 else s1)"

definition us_Cancel :: "'z Zlib \<Rightarrow> Status \<Rightarrow> ServerCallState \<Rightarrow> ServerCallState" where
  "us_Cancel zl status s =
     (if us_closed s \<or> us_responded s then s
      else us_SendError zl status (s\<lparr>us_ctx := trigger_cancel (us_ctx s)\<rparr>))"

definition us_OnClose :: "ServerCallState \<Rightarrow> ServerCallState" where
  "us_OnClose s =
     (if us_closed s then s
      else
        let s1 = s\<lparr>us_closed := True, us_terminal := True, us_timer := None\<rparr>
        in if \<not> us_responded s1
           then s1\<lparr>us_ctx := trigger_cancel (us_ctx s1), us_responded := True\<rparr> else s1)"

definition framing_error :: "FrameDecoder \<Rightarrow> Status" where
  "framing_error d = mk_status (if fd_limit_exceeded d then RESOURCE_EXHAUSTED else INVALID_ARGUMENT)
     (''request framing error: '' @ fd_error_message d)"

definition us_OnRequestEnd :: "'z Zlib \<Rightarrow> ServerCallState \<Rightarrow> ServerCallState option" where
  "us_OnRequestEnd zl s =
     (if us_responded s then Some s
      else if fd_error (us_decoder s) then Some (us_SendError zl (framing_error (us_decoder s)) s)
      else if \<not> fd_done (us_decoder s)
      then Some (us_SendError zl (mk_status INVALID_ARGUMENT ''incomplete request message'') s)
      else
        case us_request_encoding s of
          Some enc \<Rightarrow>
            if enc \<noteq> kIdentity \<and> fd_compress_flag (us_decoder s) \<noteq> 0 then
              (case Decompress zl enc (fd_payload (us_decoder s)) (us_max_request_size s) of
                 None \<Rightarrow> None
               | Some None \<Rightarrow> Some (us_SendError zl (mk_status INTERNAL ''request decompression failed'') s)
               | Some (Some req_bytes) \<Rightarrow> Some (s\<lparr>us_spawned := us_spawned s @ [req_bytes]\<rparr>))
            else
              (case TakePayload (us_decoder s) of
                 (req_bytes, d) \<Rightarrow> Some (s\<lparr>us_decoder := d, us_spawned := us_spawned s @ [req_bytes]\<rparr>))
        | None \<Rightarrow>
            (case TakePayload (us_decoder s) of
               (req_bytes, d) \<Rightarrow> Some (s\<lparr>us_decoder := d, us_spawned := us_spawned s @ [req_bytes]\<rparr>)))"

definition us_OnData :: "'z Zlib \<Rightarrow> bytes \<Rightarrow> ServerCallState \<Rightarrow> ServerCallState option" where
  "us_OnData zl data s =
     (if us_responded s then Some s
      else if data = [] then us_OnRequestEnd zl (s\<lparr>us_decoder := MarkEos (us_decoder s)\<rparr>)
      else
        case Feed (us_decoder s) data of
          None \<Rightarrow> None
        | Some d \<Rightarrow>
            let s1 = s\<lparr>us_decoder := d\<rparr>
            in Some (if fd_error d then us_SendError zl (framing_error d) s1 else s1))"

text \<open>The rest of the coroutine after the handler: an exception, or its status and response bytes.\<close>

definition us_HandlerDone :: "'z Zlib \<Rightarrow> unit + Status \<times> bytes \<Rightarrow> ServerCallState \<Rightarrow> ServerCallState" where
  "us_HandlerDone zl result s =
     (let (status, resp_bytes) = (case result of
            Inl _ \<Rightarrow> (mk_status INTERNAL ''handler threw exception'', [])
          | Inr (st, bs) \<Rightarrow> (st, bs))
      in if \<not> us_responded s
         then us_SendResponse zl status resp_bytes (sc_initial_metadata (us_ctx s))
                (sc_trailing_metadata (us_ctx s)) (s\<lparr>us_timer := None\<rparr>)
         else s)"

section \<open>Steps\<close>

text \<open>
  All interleavings of the callbacks of one call after its start. The timer callback has no
  guard: a cancelled wait may already have expired, so it may run after a cancel.
\<close>

inductive us_step :: "'z Zlib \<Rightarrow> ServerCallState \<Rightarrow> ServerCallState \<Rightarrow> bool" for zl where
  us_data: "us_on_data s \<Longrightarrow> us_OnData zl data s = Some s' \<Longrightarrow> us_step zl s s'"
| us_timer: "us_step zl s (us_OnTimer zl aborted s)"
| us_cancel: "us_step zl s (us_Cancel zl status s)"
| us_close: "us_step zl s (us_OnClose s)"
| us_handler: "us_spawned s \<noteq> [] \<Longrightarrow> us_step zl s (us_HandlerDone zl result s)"
| us_initial: "us_spawned s \<noteq> [] \<Longrightarrow> AddInitialMetadata k v (us_ctx s) = Inr c \<Longrightarrow> us_step zl s (s\<lparr>us_ctx := c\<rparr>)"
| us_trailing: "us_spawned s \<noteq> [] \<Longrightarrow> AddTrailingMetadata k v (us_ctx s) = Inr c \<Longrightarrow> us_step zl s (s\<lparr>us_ctx := c\<rparr>)"
| us_generate: "us_step zl s (us_Generate len s)"

lemma us_SendError_gate:
  "us_responded s \<Longrightarrow> us_SendError zl st s = s"
  "us_responded (us_SendError zl st s)"
  "\<not> us_responded s \<Longrightarrow> us_sent (us_SendError zl st s) = us_sent s @ [WriteHead 200 (error_head zl st), EndStream]"
  by (simp_all add: us_SendError_def)

lemma us_SendResponse_gate:
  "us_responded s \<Longrightarrow> us_SendResponse zl st bs im tm s = s"
  "us_responded (us_SendResponse zl st bs im tm s)"
  "\<not> us_responded s \<Longrightarrow> \<exists>h. resp_heads (us_sent (us_SendResponse zl st bs im tm s)) = resp_heads (us_sent s) @ [h]"
  by (simp_all add: us_SendResponse_def Let_def)

text \<open>What every callback does to the gate.\<close>

definition us_gate :: "ServerCallState \<Rightarrow> ServerCallState \<Rightarrow> bool" where
  "us_gate s s' \<longleftrightarrow>
     (if us_responded s then us_responded s' \<and> resp_heads (us_sent s') = resp_heads (us_sent s)
      else resp_heads (us_sent s') = resp_heads (us_sent s)
        \<or> us_responded s' \<and> (\<exists>h. resp_heads (us_sent s') = resp_heads (us_sent s) @ [h]))"

lemma us_gate_SendError: "us_gate s (us_SendError zl st s)"
  by (simp add: us_gate_def us_SendError_def)

lemma us_gate_cong:
  "us_gate s s' \<Longrightarrow> us_responded t = us_responded s \<Longrightarrow> us_sent t = us_sent s \<Longrightarrow> us_gate t s'"
  by (simp add: us_gate_def)

lemma us_gate_OnRequestEnd: "us_OnRequestEnd zl s = Some s' \<Longrightarrow> us_gate s s'"
  by (auto simp: us_OnRequestEnd_def us_gate_SendError TakePayload_def split: if_splits option.splits)
    (simp_all add: us_gate_def)

lemma us_gate_OnData: "us_OnData zl data s = Some s' \<Longrightarrow> us_gate s s'"
proof (cases "data = []")
  case True
  assume "us_OnData zl data s = Some s'"
  with True show ?thesis
    using us_gate_cong [OF us_gate_OnRequestEnd, of zl "s\<lparr>us_decoder := MarkEos (us_decoder s)\<rparr>" s' s]
    by (auto simp: us_OnData_def us_gate_def split: if_splits)
next
  case False
  assume "us_OnData zl data s = Some s'"
  with False show ?thesis
    by (auto simp: us_OnData_def us_gate_def us_SendError_def Let_def split: if_splits option.splits)
qed

lemma us_step_gate: "us_step zl s s' \<Longrightarrow> us_gate s s'"
proof (induction rule: us_step.induct)
  case (us_data s data s')
  then show ?case by (simp add: us_gate_OnData)
next
  case (us_handler s result)
  then show ?case
    using us_SendResponse_gate(2) us_SendResponse_gate(3) [of "s\<lparr>us_timer := None\<rparr>"]
    by (auto simp: us_gate_def us_HandlerDone_def split: prod.splits)
next
  case (us_generate s len)
  then show ?case
    by (auto simp: us_gate_def us_Generate_def split: option.splits prod.splits gen_result.splits)
qed (auto simp: us_gate_def us_OnTimer_def us_Cancel_def us_OnClose_def us_SendError_def Let_def)

interpretation unary_server: single_response "us_step zl" us_responded us_sent for zl
  by unfold_locales (auto dest!: us_step_gate simp: us_gate_def)

section \<open>The request\<close>

text \<open>A request body in DATA chunks, then the empty chunk that signals its end.\<close>

abbreviation us_receive :: "'z Zlib \<Rightarrow> ServerCallState \<Rightarrow> bytes list \<Rightarrow> ServerCallState option" where
  "us_receive zl s chunks \<equiv> feeds (\<lambda>s data. us_OnData zl data s) s (chunks @ [[]])"

lemma us_reject_responded: "us_responded (us_SendError zl st s)"
  by (simp add: us_SendError_def)

interpretation us_data: decoder_user "\<lambda>s data. us_OnData zl data s" us_decoder
  "\<lambda>d. us_decoder_update (\<lambda>_. d)" us_responded "\<lambda>d. us_SendError zl (framing_error d)" for zl
  by unfold_locales (simp_all add: us_OnData_def us_reject_responded Let_def)

datatype request_outcome = Deliver bytes | Reject StatusCode | Hang

definition request_spec :: "'z Zlib \<Rightarrow> Encoding option \<Rightarrow> nat \<Rightarrow> bytes \<Rightarrow> request_outcome" where
  "request_spec zl enc m body =
     (case decode_spec m body of
        NoMessage \<Rightarrow> Reject INVALID_ARGUMENT
      | FrameError limit \<Rightarrow> Reject (if limit then RESOURCE_EXHAUSTED else INVALID_ARGUMENT)
      | Message flag payload \<Rightarrow>
          if enc = Some kGzip \<and> flag \<noteq> 0 then
            (case Decompress zl kGzip payload m of
               None \<Rightarrow> Hang | Some None \<Rightarrow> Reject INTERNAL | Some (Some bs) \<Rightarrow> Deliver bs)
          else Deliver payload)"

definition us_rejected :: "'z Zlib \<Rightarrow> ServerCallState \<Rightarrow> StatusCode \<Rightarrow> ServerCallState \<Rightarrow> bool" where
  "us_rejected zl s code s' \<longleftrightarrow> us_responded s' \<and> us_spawned s' = us_spawned s
     \<and> (\<exists>msg. us_sent s' = us_sent s @ [WriteHead 200 (error_head zl (mk_status code msg)), EndStream])"

lemma us_rejected_SendError:
  "\<not> us_responded s \<Longrightarrow> us_rejected zl s c (us_SendError zl (mk_status c msg) (s\<lparr>us_decoder := d\<rparr>))"
  by (auto simp: us_rejected_def us_SendError_def)

lemma us_OnData_end:
  "\<not> us_responded s \<Longrightarrow> us_OnData zl [] (s\<lparr>us_decoder := d\<rparr>) = us_OnRequestEnd zl (s\<lparr>us_decoder := MarkEos d\<rparr>)"
  by (simp add: us_OnData_def)

lemma us_OnRequestEnd_bad:
  assumes "\<not> us_responded s"
  shows "fd_error d \<Longrightarrow> us_OnRequestEnd zl (s\<lparr>us_decoder := d\<rparr>)
      = Some (us_SendError zl (framing_error d) (s\<lparr>us_decoder := d\<rparr>))"
    and "\<not> fd_error d \<Longrightarrow> \<not> fd_done d \<Longrightarrow> us_OnRequestEnd zl (s\<lparr>us_decoder := d\<rparr>)
      = Some (us_SendError zl (mk_status INVALID_ARGUMENT ''incomplete request message'') (s\<lparr>us_decoder := d\<rparr>))"
  using assms by (simp_all add: us_OnRequestEnd_def)

lemma us_OnRequestEnd_done:
  assumes "\<not> us_responded s" "fd_done d"
  shows "us_OnRequestEnd zl (s\<lparr>us_decoder := d\<rparr>) =
    (if us_request_encoding s = Some kGzip \<and> fd_compress_flag d \<noteq> 0 then
       (case Decompress zl kGzip (fd_payload d) (us_max_request_size s) of None \<Rightarrow> None
        | Some None \<Rightarrow> Some (us_SendError zl (mk_status INTERNAL ''request decompression failed'') (s\<lparr>us_decoder := d\<rparr>))
        | Some (Some bs) \<Rightarrow> Some (s\<lparr>us_decoder := d, us_spawned := us_spawned s @ [bs]\<rparr>))
     else Some (s\<lparr>us_decoder := d\<lparr>fd_payload := []\<rparr>, us_spawned := us_spawned s @ [fd_payload d]\<rparr>))"
proof (cases "us_request_encoding s")
  case (Some enc)
  then show ?thesis
    using assms by (cases enc) (simp_all add: us_OnRequestEnd_def TakePayload_def split: option.splits)
qed (use assms in \<open>simp add: us_OnRequestEnd_def TakePayload_def\<close>)

text \<open>The state after the last chunk, from the decoder's outcome.\<close>

definition us_after_request :: "'z Zlib \<Rightarrow> ServerCallState \<Rightarrow> request_outcome \<Rightarrow> ServerCallState option \<Rightarrow> bool" where
  "us_after_request zl s r res \<longleftrightarrow>
     (case r of
        Hang \<Rightarrow> res = None
      | Reject c \<Rightarrow> (\<exists>s'. res = Some s' \<and> us_rejected zl s c s')
      | Deliver bs \<Rightarrow> (\<exists>s'. res = Some s' \<and> \<not> us_responded s' \<and> us_sent s' = us_sent s
          \<and> us_spawned s' = us_spawned s @ [bs]))"

lemma us_request_end:
  assumes "\<not> us_responded s" "outcome (MarkEos d) = decode_spec (us_max_request_size s) body" "\<not> fd_error d"
  shows "us_after_request zl s (request_spec zl (us_request_encoding s) (us_max_request_size s) body)
    (us_OnData zl [] (s\<lparr>us_decoder := d\<rparr>))"
proof -
  note [simp] = us_after_request_def request_spec_def us_OnData_end [OF assms(1)] assms(2) [symmetric]
  show ?thesis
  proof (cases "fd_state (MarkEos d)")
    case kDone
    then have "outcome (MarkEos d) = Message (fd_compress_flag (MarkEos d)) (fd_payload (MarkEos d))"
      by (simp add: outcome_def)
    then show ?thesis
      using us_OnRequestEnd_done [OF assms(1) kDone, of zl] assms(1)
      by (auto intro: us_rejected_SendError split: option.splits)
  next
    case kError
    then show ?thesis
      using us_OnRequestEnd_bad(1) [OF assms(1) kError, of zl] assms(1)
      by (auto simp: outcome_def framing_error_def intro!: us_rejected_SendError)
  next
    case kAwaitingHeader
    then show ?thesis
      using us_OnRequestEnd_bad(2) [OF assms(1), of "MarkEos d" zl] assms(1)
      by (auto simp: outcome_def intro!: us_rejected_SendError)
  next
    case kAwaitingPayload
    then show ?thesis
      using us_OnRequestEnd_bad(2) [OF assms(1), of "MarkEos d" zl] assms(1)
      by (auto simp: outcome_def intro!: us_rejected_SendError)
  qed
qed

lemma us_receive_outcome:
  assumes "\<not> us_responded s" "us_decoder s = new_FrameDecoder (us_max_request_size s)" "list_all (\<lambda>c. c \<noteq> []) chunks"
  shows "us_after_request zl s (request_spec zl (us_request_encoding s) (us_max_request_size s) (concat chunks))
    (us_receive zl s chunks)"
proof -
  have ok: "decoder_ok (us_decoder s)" "\<not> fd_error (us_decoder s)"
    by (simp_all add: assms(2)) (simp add: new_FrameDecoder_def)
  obtain d where d: "feeds Feed (us_decoder s) chunks = Some d"
    using frame_decoder.feeds_returns [OF ok(1)] by blast
  have spec: "outcome (MarkEos d) = decode_spec (us_max_request_size s) (concat chunks)"
    using feeds_outcome [of "us_max_request_size s" chunks] d by (simp add: assms(2))
  note run = us_data.follows_decoder [OF assms(1) ok assms(3) d, of zl]
  show ?thesis
  proof (cases "fd_error d")
    case True
    then have "us_receive zl s chunks = Some (us_SendError zl (framing_error d) (s\<lparr>us_decoder := d\<rparr>))"
      using run us_SendError_gate(2) [of zl] by (simp add: feeds_append us_OnData_def)
    moreover have "decode_spec (us_max_request_size s) (concat chunks) = FrameError (fd_limit_exceeded d)"
      using spec True by (simp add: outcome_def MarkEos_def)
    ultimately show ?thesis
      using assms(1) by (auto simp: us_after_request_def request_spec_def framing_error_def intro: us_rejected_SendError)
  next
    case False
    then have "us_receive zl s chunks = us_OnData zl [] (s\<lparr>us_decoder := d\<rparr>)"
      using run by (simp add: feeds_append)
    then show ?thesis
      using us_request_end [OF assms(1) spec False, of zl] by simp
  qed
qed

section \<open>The response\<close>

lemma head_no_status:
  "mm_find (MetadataToNghttp2Headers imd (AddCommonHeaders zl [])) ''grpc-status'' = None"
  "mm_find (MetadataToNghttp2Headers imd (AddCommonHeaders zl [])) ''content-type''
     = Some (plain_value ''application/grpc+proto'')"
  by (simp_all add: find_reserved)

lemma response_pulls:
  assumes "length bs < 2 ^ 32" "list_all (\<lambda>n. 0 < n) bufs" "5 + length bs < length bufs"
  shows "\<exists>g. pulls response_generate
      \<lparr>rg_frame = case EncodeFrame 0 bs of None \<Rightarrow> [] | Some f \<Rightarrow> f, rg_offset = 0, rg_trail_hdrs = t\<rparr> bufs
    = (framed [bs], Some (GTrailers t), g)"
proof -
  obtain fr where fr: "EncodeFrame 0 bs = Some fr" "length fr = 5 + length bs"
    using EncodeFrame_frame [OF assms(1), of 0] by metis
  then show ?thesis
    using response_gen.pulls_all [of "\<lparr>rg_frame = fr, rg_offset = 0, rg_trail_hdrs = t\<rparr>" bufs] assms(2,3)
    by (auto simp: framed_def)
qed

section \<open>Properties\<close>

text \<open>
  C13: A unary call answers at most once. In every interleaving of DATA chunks, the deadline timer,
  cancellation by a shutdown, the close of the stream, the handler's completion and its changes to
  the context, and nghttp2's pulls, at most one response head is written, and none while
  \<open>responded_\<close> is unset.
\<close>

theorem unary_single_response:
  assumes "(us_step zl)\<^sup>*\<^sup>* (us_Start zl now req (new_ServerCallState mreq mmeta mresp peer)) s"
  shows "length (resp_heads (us_sent s)) \<le> 1 \<and> (us_responded s \<or> resp_heads (us_sent s) = [])"
proof -
  let ?s0 = "us_Start zl now req (new_ServerCallState mreq mmeta mresp peer)"
  have start: "us_gate (new_ServerCallState mreq mmeta mresp peer) ?s0"
    unfolding us_Start_def
    by (auto simp: us_gate_def us_SendError_def Let_def split: prod.splits option.splits)
  show ?thesis
  proof (cases "us_responded ?s0")
    case True
    then show ?thesis
      using unary_server.responded_run [OF assms] start
      by (auto simp: us_gate_def new_ServerCallState_def)
  next
    case False
    then show ?thesis
      using unary_server.at_most_one_head [OF assms] start
      by (auto simp: us_gate_def new_ServerCallState_def)
  qed
qed

theorem unary_single_response_witness:
  "length (resp_heads (us_sent (us_OnTimer copy_zlib False
     (us_Start copy_zlib 0 \<lparr>rq_header = [], rq_host = []\<rparr> (new_ServerCallState 9 9 9 []))))) \<le> 1"
  using unary_single_response [of copy_zlib 0 "\<lparr>rq_header = [], rq_host = []\<rparr>" 9 9 9 "[]"]
    us_step.us_timer [of copy_zlib] by (metis r_into_rtranclp)

text \<open>
  C12: What a unary call does with a request body, whatever its chunks: it hands the handler
  exactly the message of the one-shot specification (decompressed when the call negotiated gzip
  and the flag is set, and as it is otherwise), and answers nothing yet; or it rejects the call
  with a trailers-only head of the specified code and never starts the handler. It fails to
  return only where \<open>Decompress\<close> does.
\<close>

theorem unary_request:
  assumes "\<not> us_responded s" "us_decoder s = new_FrameDecoder (us_max_request_size s)"
    and "list_all (\<lambda>c. c \<noteq> []) chunks"
  shows "case request_spec zl (us_request_encoding s) (us_max_request_size s) (concat chunks) of
      Hang \<Rightarrow> us_receive zl s chunks = None
    | Reject c \<Rightarrow> \<exists>s' msg. us_receive zl s chunks = Some s' \<and> us_responded s' \<and> us_spawned s' = us_spawned s
        \<and> us_sent s' = us_sent s @ [WriteHead 200 (error_head zl (mk_status c msg)), EndStream]
    | Deliver bs \<Rightarrow> \<exists>s'. us_receive zl s chunks = Some s' \<and> \<not> us_responded s'
        \<and> us_sent s' = us_sent s \<and> us_spawned s' = us_spawned s @ [bs]"
  using us_receive_outcome [OF assms, of zl]
  by (auto simp: us_after_request_def us_rejected_def split: request_outcome.splits)

theorem unary_request_witness:
  "\<exists>s'. us_receive copy_zlib (new_ServerCallState 9 9 9 []) [[CHR 0x00, CHR 0x00], [CHR 0x00, CHR 0x00, CHR 0x01, CHR ''x'']] = Some s'
    \<and> us_spawned s' = [''x'']"
  using unary_request [of "new_ServerCallState 9 9 9 []" "[[CHR 0x00, CHR 0x00], [CHR 0x00, CHR 0x00, CHR 0x01, CHR ''x'']]" copy_zlib]
  by (auto simp: new_ServerCallState_def request_spec_def decode_spec_def be32_def char_u8_def char_u32_def)

text \<open>
  How a unary call answers when the handler completes first. An exception, a status that is
  not OK and a response above the limit become trailers-only heads from which a client reads
  INTERNAL, the handler's own status, and RESOURCE_EXHAUSTED; otherwise the head carries no
  status, and nghttp2, whatever buffer sizes it offers, gets exactly the framed response and then
  trailers from which the client reads the handler's status.
\<close>

theorem unary_response:
  assumes "\<not> us_responded s" "us_max_response_size s < 2 ^ 32"
    and "list_all (\<lambda>n. 0 < n) bufs" "5 + us_max_response_size s < length bufs"
    and "s' = us_HandlerDone zl result s"
  shows "us_responded s' \<and>
    (case result of
       Inl _ \<Rightarrow> \<exists>h. us_sent s' = us_sent s @ [WriteHead 200 h, EndStream]
         \<and> ExtractTrailerStatus h = mk_status INTERNAL ''handler threw exception''
     | Inr (st, bs) \<Rightarrow>
         if \<not> is_ok st then \<exists>h. us_sent s' = us_sent s @ [WriteHead 200 h, EndStream] \<and> ExtractTrailerStatus h = st
         else if us_max_response_size s < length bs
         then \<exists>h. us_sent s' = us_sent s @ [WriteHead 200 h, EndStream]
           \<and> status_code (ExtractTrailerStatus h) = RESOURCE_EXHAUSTED
         else \<exists>h g t g'. us_sent s' = us_sent s @ [WriteHead 200 h, EndGenerator] \<and> us_gen s' = Some g
           \<and> mm_find h ''grpc-status'' = None
           \<and> pulls response_generate g bufs = (framed [bs], Some (GTrailers t), g') \<and> ExtractTrailerStatus t = st)"
proof -
  have "length bs \<le> us_max_response_size s \<Longrightarrow> \<exists>t. (\<exists>g. pulls response_generate
      \<lparr>rg_frame = case EncodeFrame 0 bs of None \<Rightarrow> [] | Some f \<Rightarrow> f, rg_offset = 0,
       rg_trail_hdrs = BuildTrailers st tmd []\<rparr> bufs
    = (framed [bs], Some (GTrailers t), g)) \<and> ExtractTrailerStatus t = st" for bs st tmd
    using assms(2,4) response_pulls [OF _ assms(3), of bs "BuildTrailers st tmd []"]
    by (auto simp: Extract_BuildTrailers)
  then show ?thesis
    using assms(1) unfolding assms(5)
    by (auto simp: us_HandlerDone_def us_SendResponse_def Let_def head_status head_no_status Extract_BuildTrailers
        not_less split: sum.splits)
qed

theorem unary_response_witness:
  "\<exists>h g t g'. us_sent (us_HandlerDone copy_zlib (Inr (status_ok, ''ok'')) (new_ServerCallState 9 9 9 []))
       = [WriteHead 200 h, EndGenerator]
     \<and> us_gen (us_HandlerDone copy_zlib (Inr (status_ok, ''ok'')) (new_ServerCallState 9 9 9 [])) = Some g
     \<and> pulls response_generate g (replicate 20 1) = (framed [''ok''], Some (GTrailers t), g')"
  using unary_response [of "new_ServerCallState 9 9 9 []" "replicate 20 1" _ copy_zlib "Inr (status_ok, ''ok'')", OF _ _ _ _ refl]
  by (auto simp: new_ServerCallState_def list_all_iff)

text \<open>
  C36: A remote peer can make the server's callback never return. When the request negotiated
  \<open>grpc-encoding: gzip\<close> on a build with gzip, the five bytes \<open>01 00 00 00 00\<close> (an empty message
  with the compressed flag) followed by the end of the stream, in any chunks, hang \<open>OnData\<close>.
\<close>

theorem unary_gzip_hang:
  assumes "gzip_enabled zl" "inflateInit2 zl \<noteq> None"
    and "\<not> us_responded s" "us_decoder s = new_FrameDecoder (us_max_request_size s)"
    and "us_request_encoding s = Some kGzip"
    and "list_all (\<lambda>c. c \<noteq> []) chunks" "concat chunks = [CHR 0x01, CHR 0x00, CHR 0x00, CHR 0x00, CHR 0x00]"
  shows "us_receive zl s chunks = None"
proof -
  obtain zs where zs: "inflateInit2 zl = Some zs" using assms(2) by blast
  have "Decompress zl kGzip [] (us_max_request_size s) = None"
    using Decompress_gzip [OF assms(1) zs, of "[]"] inflate_loop_empty [of zl] by simp
  then have "request_spec zl (us_request_encoding s) (us_max_request_size s) (concat chunks) = Hang"
    by (simp add: request_spec_def decode_spec_def assms(5,7) be32_def char_u8_def char_u32_def)
  then show ?thesis
    using us_receive_outcome [OF assms(3,4,6), of zl] by (simp add: us_after_request_def)
qed

theorem unary_gzip_hang_witness:
  "us_receive copy_zlib ((new_ServerCallState 4194304 8192 4194304 [])\<lparr>us_request_encoding := Some kGzip\<rparr>)
     [[CHR 0x01, CHR 0x00, CHR 0x00, CHR 0x00, CHR 0x00]] = None"
  using unary_gzip_hang [of copy_zlib "(new_ServerCallState 4194304 8192 4194304 [])\<lparr>us_request_encoding := Some kGzip\<rparr>"
      "[[CHR 0x01, CHR 0x00, CHR 0x00, CHR 0x00, CHR 0x00]]"]
  by (simp add: copy_zlib_def new_ServerCallState_def)

end
