(* ===== verification/ServerStreaming.thy ===== *)
theory ServerStreaming
  imports UnaryServer
begin

text \<open>
  \<open>src/server/server_streaming_call_state.{h,cc}\<close>: one inbound server-streaming call. The
  request side is the one of a unary call without decompression; the response side is the writer
  of theory \<open>ServerBase\<close>, drained by the generator armed in \<open>SendHeaders\<close>.

  The handler is outside the library: starting it is recorded in \<open>ss_spawned\<close>; its calls of
  \<open>Write\<close> and \<open>Finish\<close> and its completion are events.
\<close>

record ServerStreamingCallState =
  ss_decoder :: FrameDecoder
  ss_ctx :: ServerContext
  ss_timer :: "int option"
  ss_responded :: bool
  ss_closed :: bool
  ss_terminal :: bool
  ss_max_metadata_size :: nat
  ss_peer_identity :: string
  ss_writer :: RawServerWriterImpl
  ss_on_data :: bool
  ss_spawned :: "bytes list"
  ss_sent :: "resp_action list"

definition new_ServerStreamingCallState :: "nat \<Rightarrow> nat \<Rightarrow> nat \<Rightarrow> string \<Rightarrow> ServerStreamingCallState" where
  "new_ServerStreamingCallState max_request_size max_metadata_size max_response_size peer_identity =
     \<lparr>ss_decoder = new_FrameDecoder max_request_size, ss_ctx = new_ServerContext, ss_timer = None,
      ss_responded = False, ss_closed = False, ss_terminal = False, ss_max_metadata_size = max_metadata_size,
      ss_peer_identity = peer_identity, ss_writer = new_RawServerWriterImpl max_response_size,
      ss_on_data = False, ss_spawned = [], ss_sent = []\<rparr>"

definition ss_SendError :: "'z Zlib \<Rightarrow> Status \<Rightarrow> ServerStreamingCallState \<Rightarrow> ServerStreamingCallState" where
  "ss_SendError zl status s =
     (if ss_responded s then s
      else s\<lparr>ss_responded := True, ss_timer := None,
             ss_sent := ss_sent s @ [WriteHead 200 (error_head zl status), EndStream]\<rparr>)"

definition ss_SendHeaders :: "'z Zlib \<Rightarrow> ServerStreamingCallState \<Rightarrow> ServerStreamingCallState" where
  "ss_SendHeaders zl s =
     (let init_hdrs = MetadataToNghttp2Headers (sc_initial_metadata (ss_ctx s)) (AddCommonHeaders zl [])
      in s\<lparr>ss_sent := ss_sent s @ [WriteHead 200 init_hdrs, EndGenerator]\<rparr>)"

definition ss_Start :: "'z Zlib \<Rightarrow> int \<Rightarrow> HttpRequest \<Rightarrow> ServerStreamingCallState \<Rightarrow> ServerStreamingCallState" where
  "ss_Start zl now req s =
     (let (meta_status, client_meta) = Nghttp2HeadersToMetadata (rq_header req) [] (ss_max_metadata_size s)
      in if \<not> is_ok meta_status then ss_SendError zl meta_status s
         else
           let c0 = (ss_ctx s)\<lparr>sc_client_metadata := client_meta\<rparr>;
               (c, tmr) = arm_deadline now req (set_peer req (ss_peer_identity s) c0)
           in s\<lparr>ss_ctx := c, ss_timer := tmr, ss_on_data := True\<rparr>)"

definition ss_OnTimer :: "'z Zlib \<Rightarrow> bool \<Rightarrow> ServerStreamingCallState \<Rightarrow> ServerStreamingCallState" where
  "ss_OnTimer zl aborted s =
     (if aborted then s
      else
        let s1 = s\<lparr>ss_ctx := trigger_cancel (ss_ctx s)\<rparr>
        in if \<not> ss_responded s1
           then ss_SendError zl (mk_status DEADLINE_EXCEEDED ''deadline exceeded'') s1 else s1)"

text \<open>\<open>writer_impl_->Finish(status)\<close> from inside the call state.\<close>

definition ss_Finish :: "Status \<Rightarrow> ServerStreamingCallState \<Rightarrow> ServerStreamingCallState" where
  "ss_Finish status s = (case sw_Finish status (ss_writer s) of
     (w, acts) \<Rightarrow> s\<lparr>ss_writer := w, ss_sent := ss_sent s @ acts\<rparr>)"

definition ss_Cancel :: "'z Zlib \<Rightarrow> Status \<Rightarrow> ServerStreamingCallState \<Rightarrow> ServerStreamingCallState" where
  "ss_Cancel zl status s =
     (if ss_closed s \<or> sw_finished (ss_writer s) then s
      else
        let s1 = s\<lparr>ss_ctx := trigger_cancel (ss_ctx s)\<rparr>
        in if ss_responded s1 then ss_Finish status s1 else ss_SendError zl status s1)"

definition ss_OnClose :: "ServerStreamingCallState \<Rightarrow> ServerStreamingCallState" where
  "ss_OnClose s =
     (if ss_closed s then s
      else
        let s1 = s\<lparr>ss_closed := True, ss_terminal := True, ss_timer := None\<rparr>
        in if \<not> sw_finished (ss_writer s1)
           then s1\<lparr>ss_ctx := trigger_cancel (ss_ctx s1), ss_writer := (ss_writer s1)\<lparr>sw_finished := True\<rparr>\<rparr>
           else s1)"

definition ss_OnRequestEnd :: "'z Zlib \<Rightarrow> ServerStreamingCallState \<Rightarrow> ServerStreamingCallState" where
  "ss_OnRequestEnd zl s =
     (if ss_responded s then s
      else if fd_error (ss_decoder s) then ss_SendError zl (framing_error (ss_decoder s)) s
      else if \<not> fd_done (ss_decoder s)
      then ss_SendError zl (mk_status INVALID_ARGUMENT ''incomplete request message'') s
      else
        let req_bytes = fd_payload (ss_decoder s);
            s1 = ss_SendHeaders zl (s\<lparr>ss_responded := True, ss_timer := None\<rparr>)
        in s1\<lparr>ss_spawned := ss_spawned s1 @ [req_bytes]\<rparr>)"

definition ss_OnData :: "'z Zlib \<Rightarrow> bytes \<Rightarrow> ServerStreamingCallState \<Rightarrow> ServerStreamingCallState option" where
  "ss_OnData zl data s =
     (if ss_responded s then Some s
      else if data = [] then Some (ss_OnRequestEnd zl (s\<lparr>ss_decoder := MarkEos (ss_decoder s)\<rparr>))
      else
        case Feed (ss_decoder s) data of
          None \<Rightarrow> None
        | Some d \<Rightarrow>
            let s1 = s\<lparr>ss_decoder := d\<rparr>
            in Some (if fd_error d then ss_SendError zl (framing_error d) s1 else s1))"

section \<open>The handler\<close>

definition ss_HandlerWrite :: "bytes \<Rightarrow> ServerStreamingCallState \<Rightarrow> Status \<times> ServerStreamingCallState" where
  "ss_HandlerWrite proto_bytes s = (case sw_Write proto_bytes (ss_writer s) of
     (st, w, acts) \<Rightarrow> (st, s\<lparr>ss_writer := w, ss_sent := ss_sent s @ acts\<rparr>))"

definition ss_HandlerDone :: "unit + Status \<Rightarrow> ServerStreamingCallState \<Rightarrow> ServerStreamingCallState" where
  "ss_HandlerDone result s =
     (let status = (case result of Inl _ \<Rightarrow> mk_status INTERNAL ''handler threw exception'' | Inr st \<Rightarrow> st)
      in if \<not> sw_finished (ss_writer s) then ss_Finish status s else s)"

text \<open>nghttp2 pulls the generator.\<close>

definition ss_Generate :: "nat \<Rightarrow> ServerStreamingCallState \<Rightarrow> gen_result \<times> ServerStreamingCallState" where
  "ss_Generate len s =
     (case sw_generate (ss_writer s) len of
        (GTrailers t, w) \<Rightarrow> (GTrailers t, s\<lparr>ss_writer := w, ss_sent := ss_sent s @ [WriteTrailer t]\<rparr>)
      | (g, w) \<Rightarrow> (g, s\<lparr>ss_writer := w\<rparr>))"

section \<open>Steps\<close>

inductive ss_step :: "'z Zlib \<Rightarrow> ServerStreamingCallState \<Rightarrow> ServerStreamingCallState \<Rightarrow> bool" for zl where
  ss_data: "ss_on_data s \<Longrightarrow> ss_OnData zl data s = Some s' \<Longrightarrow> ss_step zl s s'"
| ss_timer: "ss_step zl s (ss_OnTimer zl aborted s)"
| ss_cancel: "ss_step zl s (ss_Cancel zl status s)"
| ss_close: "ss_step zl s (ss_OnClose s)"
| ss_write: "ss_spawned s \<noteq> [] \<Longrightarrow> ss_step zl s (snd (ss_HandlerWrite m s))"
| ss_finish: "ss_spawned s \<noteq> [] \<Longrightarrow> ss_step zl s (ss_Finish status s)"
| ss_handler: "ss_spawned s \<noteq> [] \<Longrightarrow> ss_step zl s (ss_HandlerDone result s)"
| ss_initial: "ss_spawned s \<noteq> [] \<Longrightarrow> AddInitialMetadata k v (ss_ctx s) = Inr c \<Longrightarrow> ss_step zl s (s\<lparr>ss_ctx := c\<rparr>)"
| ss_trailing: "ss_spawned s \<noteq> [] \<Longrightarrow> AddTrailingMetadata k v (ss_ctx s) = Inr c \<Longrightarrow> ss_step zl s (s\<lparr>ss_ctx := c\<rparr>)"
| ss_generate: "EndGenerator \<in> set (ss_sent s) \<Longrightarrow> ss_step zl s (snd (ss_Generate len s))"

lemma sw_actions:
  "sw_Finish st w = (w', acts) \<Longrightarrow> resp_heads acts = []"
  "sw_Write m w = (st', w', acts) \<Longrightarrow> resp_heads acts = []"
  by (auto simp: sw_Write_def sw_Finish_def Let_def split: if_splits option.splits)

definition ss_gate :: "ServerStreamingCallState \<Rightarrow> ServerStreamingCallState \<Rightarrow> bool" where
  "ss_gate s s' \<longleftrightarrow>
     (if ss_responded s then ss_responded s' \<and> resp_heads (ss_sent s') = resp_heads (ss_sent s)
      else resp_heads (ss_sent s') = resp_heads (ss_sent s)
        \<or> ss_responded s' \<and> (\<exists>h. resp_heads (ss_sent s') = resp_heads (ss_sent s) @ [h]))"

lemma ss_gate_Finish: "ss_gate s (ss_Finish st s)" "ss_gate s (snd (ss_HandlerWrite m s))"
  by (auto simp: ss_gate_def ss_Finish_def ss_HandlerWrite_def split: prod.splits dest!: sw_actions)

lemma ss_gate_OnRequestEnd: "ss_gate s (ss_OnRequestEnd zl (s\<lparr>ss_decoder := d\<rparr>))"
  by (simp add: ss_gate_def ss_OnRequestEnd_def ss_SendError_def ss_SendHeaders_def Let_def)

lemma ss_gate_OnData: "ss_OnData zl data s = Some s' \<Longrightarrow> ss_gate s s'"
  using ss_gate_OnRequestEnd [of s zl "MarkEos (ss_decoder s)"]
  by (auto simp: ss_OnData_def ss_SendError_def Let_def split: if_splits option.splits)
    (simp_all add: ss_gate_def)

lemma ss_step_gate: "ss_step zl s s' \<Longrightarrow> ss_gate s s'"
proof (induction rule: ss_step.induct)
  case (ss_cancel s status)
  have "ss_gate (s\<lparr>ss_ctx := c\<rparr>) t = ss_gate s t" for c t by (simp add: ss_gate_def)
  then show ?case
    using ss_gate_Finish(1) [of "s\<lparr>ss_ctx := trigger_cancel (ss_ctx s)\<rparr>" status]
    by (simp add: ss_Cancel_def Let_def) (simp add: ss_gate_def ss_SendError_def)
next
  case (ss_handler s result)
  then show ?case
    using ss_gate_Finish(1) [of s] by (simp add: ss_HandlerDone_def Let_def) (simp add: ss_gate_def)
next
  case (ss_generate s len)
  then show ?case
    by (auto simp: ss_gate_def ss_Generate_def split: prod.splits gen_result.splits)
qed (auto simp: ss_gate_OnData ss_gate_Finish,
     auto simp: ss_gate_def ss_OnTimer_def ss_OnClose_def ss_SendError_def Let_def)

interpretation server_streaming: single_response "ss_step zl" ss_responded ss_sent for zl
  by unfold_locales (auto dest!: ss_step_gate simp: ss_gate_def)

section \<open>The request\<close>

abbreviation ss_receive :: "'z Zlib \<Rightarrow> ServerStreamingCallState \<Rightarrow> bytes list \<Rightarrow> ServerStreamingCallState option" where
  "ss_receive zl s chunks \<equiv> feeds (\<lambda>s data. ss_OnData zl data s) s (chunks @ [[]])"

interpretation ss_data: decoder_user "\<lambda>s data. ss_OnData zl data s" ss_decoder
  "\<lambda>d. ss_decoder_update (\<lambda>_. d)" ss_responded "\<lambda>d. ss_SendError zl (framing_error d)" for zl
  by unfold_locales (simp_all add: ss_OnData_def ss_SendError_def Let_def)

lemma ss_receive_run:
  assumes "\<not> ss_responded s" "ss_decoder s = new_FrameDecoder m" "list_all (\<lambda>c. c \<noteq> []) chunks"
  obtains d where "decode_spec m (concat chunks) = outcome (MarkEos d)"
    "ss_receive zl s chunks = Some (if fd_error d then ss_SendError zl (framing_error d) (s\<lparr>ss_decoder := d\<rparr>)
       else ss_OnRequestEnd zl (s\<lparr>ss_decoder := MarkEos d\<rparr>))"
proof -
  have ok: "decoder_ok (ss_decoder s)" "\<not> fd_error (ss_decoder s)"
    by (simp_all add: assms(2)) (simp add: new_FrameDecoder_def)
  obtain d where d: "feeds Feed (ss_decoder s) chunks = Some d"
    using frame_decoder.feeds_returns [OF ok(1)] by blast
  have "decode_spec m (concat chunks) = outcome (MarkEos d)"
    using feeds_outcome [of m chunks] d by (simp add: assms(2))
  then show thesis
    using that ss_data.follows_decoder [OF assms(1) ok assms(3) d, of zl] assms(1)
    by (simp add: feeds_append ss_OnData_def ss_SendError_def)
qed

section \<open>Properties\<close>

text \<open>
  A server-streaming call writes at most one response head in every interleaving of its
  callbacks, the handler's writes and the generator's pulls.
\<close>

theorem server_streaming_single_response:
  assumes "(ss_step zl)\<^sup>*\<^sup>* (ss_Start zl now req (new_ServerStreamingCallState mreq mmeta mresp peer)) s"
  shows "length (resp_heads (ss_sent s)) \<le> 1 \<and> (ss_responded s \<or> resp_heads (ss_sent s) = [])"
proof -
  let ?s0 = "ss_Start zl now req (new_ServerStreamingCallState mreq mmeta mresp peer)"
  have start: "ss_gate (new_ServerStreamingCallState mreq mmeta mresp peer) ?s0"
    unfolding ss_Start_def by (auto simp: ss_gate_def ss_SendError_def Let_def split: prod.splits)
  then show ?thesis
    using server_streaming.responded_run [OF assms] server_streaming.at_most_one_head [OF assms]
    by (cases "ss_responded ?s0") (auto simp: ss_gate_def new_ServerStreamingCallState_def)
qed

theorem server_streaming_single_response_witness:
  "length (resp_heads (ss_sent (ss_Cancel copy_zlib (mk_status UNAVAILABLE [])
     (ss_Start copy_zlib 0 \<lparr>rq_header = [], rq_host = []\<rparr> (new_ServerStreamingCallState 9 9 9 []))))) \<le> 1"
  using server_streaming_single_response [of copy_zlib 0 "\<lparr>rq_header = [], rq_host = []\<rparr>" 9 9 9 "[]"]
    ss_step.ss_cancel [of copy_zlib] by (metis r_into_rtranclp)

text \<open>
  What a server-streaming call does with its request body, whatever the chunks: a message of
  the one-shot specification starts the handler with exactly its payload after a head without a
  status, and disarms the deadline timer, which then no longer limits the stream; anything else
  is rejected with a trailers-only head of the specified code.
\<close>

theorem server_streaming_request:
  assumes "\<not> ss_responded s" "ss_decoder s = new_FrameDecoder m" "list_all (\<lambda>c. c \<noteq> []) chunks"
  shows "\<exists>s'. ss_receive zl s chunks = Some s' \<and> ss_responded s' \<and> ss_timer s' = None \<and>
    (case decode_spec m (concat chunks) of
       Message flag payload \<Rightarrow> ss_spawned s' = ss_spawned s @ [payload]
         \<and> (\<exists>h. ss_sent s' = ss_sent s @ [WriteHead 200 h, EndGenerator] \<and> mm_find h ''grpc-status'' = None)
     | NoMessage \<Rightarrow> ss_spawned s' = ss_spawned s
         \<and> (\<exists>msg. ss_sent s' = ss_sent s @ [WriteHead 200 (error_head zl (mk_status INVALID_ARGUMENT msg)), EndStream])
     | FrameError limit \<Rightarrow> ss_spawned s' = ss_spawned s
         \<and> (\<exists>msg. ss_sent s' = ss_sent s @ [WriteHead 200
              (error_head zl (mk_status (if limit then RESOURCE_EXHAUSTED else INVALID_ARGUMENT) msg)), EndStream]))"
proof -
  obtain d where d: "decode_spec m (concat chunks) = outcome (MarkEos d)"
    "ss_receive zl s chunks = Some (if fd_error d then ss_SendError zl (framing_error d) (s\<lparr>ss_decoder := d\<rparr>)
       else ss_OnRequestEnd zl (s\<lparr>ss_decoder := MarkEos d\<rparr>))"
    using ss_receive_run [OF assms] .
  show ?thesis
  proof (cases "fd_error d")
    case True
    then show ?thesis
      using assms(1) d
      by (auto simp: outcome_def MarkEos_def ss_SendError_def framing_error_def split: if_splits)
  next
    case False
    then show ?thesis
      using assms(1) d
      by (cases "fd_state (MarkEos d)")
        (auto simp: outcome_def ss_OnRequestEnd_def ss_SendError_def ss_SendHeaders_def framing_error_def
          Let_def head_no_status)
  qed
qed

theorem server_streaming_request_witness:
  "\<exists>s'. ss_receive copy_zlib (new_ServerStreamingCallState 9 9 9 []) [[CHR 0x00, CHR 0x00, CHR 0x00, CHR 0x00, CHR 0x01, CHR ''x'']]
      = Some s' \<and> ss_spawned s' = [''x''] \<and> ss_timer s' = None"
  using server_streaming_request [of "new_ServerStreamingCallState 9 9 9 []" 9
      "[[CHR 0x00, CHR 0x00, CHR 0x00, CHR 0x00, CHR 0x01, CHR ''x'']]" copy_zlib]
  by (auto simp: new_ServerStreamingCallState_def decode_spec_def be32_def char_u8_def char_u32_def)

end
