(* ===== verification/ClientStreamingServer.thy ===== *)
theory ClientStreamingServer
  imports ServerStreaming
begin

text \<open>
  \<open>src/server/client_streaming_call_state.{h,cc}\<close>: one inbound client-streaming call. DATA
  chunks go through the \<open>StreamingFrameParser\<close> into the reader queue; the handler, started at
  once, reads from the queue (\<open>cs_HandlerRead\<close>) and its completion sends the single response.
\<close>

record ClientStreamingCallState =
  cs_parser :: StreamingFrameParser
  cs_ctx :: ServerContext
  cs_timer :: "int option"
  cs_responded :: bool
  cs_closed :: bool
  cs_terminal :: bool
  cs_max_metadata_size :: nat
  cs_max_response_size :: nat
  cs_peer_identity :: string
  cs_queue :: StreamMessageQueue
  cs_on_data :: bool
  cs_spawned :: bool
  cs_sent :: "resp_action list"
  cs_gen :: "ResponseGen option"

definition new_ClientStreamingCallState :: "nat \<Rightarrow> nat \<Rightarrow> nat \<Rightarrow> string \<Rightarrow> ClientStreamingCallState" where
  "new_ClientStreamingCallState max_message_size max_metadata_size max_response_size peer_identity =
     \<lparr>cs_parser = new_StreamingFrameParser max_message_size, cs_ctx = new_ServerContext, cs_timer = None,
      cs_responded = False, cs_closed = False, cs_terminal = False, cs_max_metadata_size = max_metadata_size,
      cs_max_response_size = max_response_size, cs_peer_identity = peer_identity,
      cs_queue = new_StreamMessageQueue, cs_on_data = False, cs_spawned = False, cs_sent = [], cs_gen = None\<rparr>"

definition AddCommonHeadersCS :: "'z Zlib \<Rightarrow> header_map \<Rightarrow> header_map" where
  "AddCommonHeadersCS zl hdrs =
     mm_emplace ''grpc-accept-encoding'' (plain_value (AcceptEncodingValue zl))
       (mm_emplace ''content-type'' (plain_value ''application/grpc+proto'') hdrs)"

lemma AddCommonHeadersCS_eq: "AddCommonHeadersCS = AddCommonHeaders"
  by (simp add: fun_eq_iff AddCommonHeadersCS_def AddCommonHeaders_def)

definition cs_SendError :: "'z Zlib \<Rightarrow> Status \<Rightarrow> ClientStreamingCallState \<Rightarrow> ClientStreamingCallState" where
  "cs_SendError zl status s =
     (if cs_responded s then s
      else s\<lparr>cs_responded := True, cs_timer := None,
             cs_sent := cs_sent s @ [WriteHead 200 (BuildTrailers status [] (AddCommonHeadersCS zl [])), EndStream]\<rparr>)"

definition cs_SendResponse ::
  "'z Zlib \<Rightarrow> Status \<Rightarrow> bytes \<Rightarrow> MetadataMap \<Rightarrow> MetadataMap \<Rightarrow> ClientStreamingCallState \<Rightarrow> ClientStreamingCallState" where
  "cs_SendResponse zl status resp_bytes initial_meta trailing_meta s =
     (if cs_responded s then s
      else if is_ok status \<and> resp_bytes \<noteq> [] \<and> length resp_bytes > cs_max_response_size s then
        let hdrs = BuildTrailers (mk_status RESOURCE_EXHAUSTED
                     ''response message exceeds max_response_message_size'') [] (AddCommonHeadersCS zl [])
        in s\<lparr>cs_responded := True, cs_timer := None, cs_sent := cs_sent s @ [WriteHead 200 hdrs, EndStream]\<rparr>
      else
        let s1 = s\<lparr>cs_responded := True\<rparr>
        in if \<not> is_ok status then
             let hdrs = BuildTrailers status trailing_meta
                          (MetadataToNghttp2Headers initial_meta (AddCommonHeadersCS zl []))
             in s1\<lparr>cs_sent := cs_sent s @ [WriteHead 200 hdrs, EndStream]\<rparr>
           else
             let frame = (case EncodeFrame 0 resp_bytes of None \<Rightarrow> [] | Some f \<Rightarrow> f);
                 init_hdrs = MetadataToNghttp2Headers initial_meta (AddCommonHeadersCS zl []);
                 trail_hdrs = BuildTrailers status trailing_meta []
             in s1\<lparr>cs_sent := cs_sent s @ [WriteHead 200 init_hdrs, EndGenerator],
                   cs_gen := Some \<lparr>rg_frame = frame, rg_offset = 0, rg_trail_hdrs = trail_hdrs\<rparr>\<rparr>)"

definition cs_Generate :: "nat \<Rightarrow> ClientStreamingCallState \<Rightarrow> ClientStreamingCallState" where
  "cs_Generate len s =
     (case cs_gen s of
        None \<Rightarrow> s
      | Some g \<Rightarrow>
          (case response_generate g len of
             (GTrailers t, g') \<Rightarrow> s\<lparr>cs_gen := Some g', cs_sent := cs_sent s @ [WriteTrailer t]\<rparr>
           | (_, g') \<Rightarrow> s\<lparr>cs_gen := Some g'\<rparr>))"

definition cs_Start :: "'z Zlib \<Rightarrow> int \<Rightarrow> HttpRequest \<Rightarrow> ClientStreamingCallState \<Rightarrow> ClientStreamingCallState" where
  "cs_Start zl now req s =
     (let (meta_status, client_meta) = Nghttp2HeadersToMetadata (rq_header req) [] (cs_max_metadata_size s)
      in if \<not> is_ok meta_status then cs_SendError zl meta_status s
         else
           let c0 = (cs_ctx s)\<lparr>sc_client_metadata := client_meta\<rparr>;
               (c, tmr) = arm_deadline now req (set_peer req (cs_peer_identity s) c0)
           in s\<lparr>cs_ctx := c, cs_timer := tmr, cs_on_data := True, cs_spawned := True\<rparr>)"

definition cs_OnTimer :: "'z Zlib \<Rightarrow> bool \<Rightarrow> ClientStreamingCallState \<Rightarrow> ClientStreamingCallState" where
  "cs_OnTimer zl aborted s =
     (if aborted then s
      else
        let st = mk_status DEADLINE_EXCEEDED ''deadline exceeded'';
            s1 = s\<lparr>cs_ctx := trigger_cancel (cs_ctx s), cs_queue := q_SetError st (cs_queue s)\<rparr>
        in if \<not> cs_responded s1 then cs_SendError zl st s1 else s1)"

definition cs_Cancel :: "'z Zlib \<Rightarrow> Status \<Rightarrow> ClientStreamingCallState \<Rightarrow> ClientStreamingCallState" where
  "cs_Cancel zl status s =
     (if cs_closed s \<or> cs_responded s then s
      else cs_SendError zl status
        (s\<lparr>cs_ctx := trigger_cancel (cs_ctx s), cs_queue := q_SetError status (cs_queue s)\<rparr>))"

definition cs_OnClose :: "ClientStreamingCallState \<Rightarrow> ClientStreamingCallState" where
  "cs_OnClose s =
     (if cs_closed s then s
      else
        let s1 = s\<lparr>cs_closed := True, cs_terminal := True, cs_timer := None\<rparr>
        in if \<not> cs_responded s1
           then s1\<lparr>cs_ctx := trigger_cancel (cs_ctx s1),
                   cs_queue := q_SetError (mk_status CANCELLED ''client closed the stream'') (cs_queue s1),
                   cs_responded := True\<rparr>
           else s1)"

definition cs_OnData :: "'z Zlib \<Rightarrow> bytes \<Rightarrow> ClientStreamingCallState \<Rightarrow> ClientStreamingCallState option" where
  "cs_OnData zl data s =
     (if cs_responded s then Some s
      else if data = [] then Some (s\<lparr>cs_queue := SetEos (cs_queue s)\<rparr>)
      else
        case sp_loop (cs_parser s) data of
          None \<Rightarrow> None
        | Some (p, msgs, status) \<Rightarrow>
            let s1 = s\<lparr>cs_parser := p, cs_queue := fold Push msgs (cs_queue s)\<rparr>
            in Some (if \<not> is_ok status
                     then cs_SendError zl status (s1\<lparr>cs_queue := q_SetError status (cs_queue s1)\<rparr>)
                     else s1))"

section \<open>The handler\<close>

definition cs_HandlerRead :: "ClientStreamingCallState \<Rightarrow> (Status \<times> bytes option) option \<times> ClientStreamingCallState" where
  "cs_HandlerRead s = (case RawServerReader_Read (cs_queue s) of (r, q) \<Rightarrow> (r, s\<lparr>cs_queue := q\<rparr>))"

definition cs_HandlerDone :: "'z Zlib \<Rightarrow> unit + Status \<times> bytes \<Rightarrow> ClientStreamingCallState \<Rightarrow> ClientStreamingCallState" where
  "cs_HandlerDone zl result s =
     (let (status, resp_bytes) = (case result of
            Inl _ \<Rightarrow> (mk_status INTERNAL ''handler threw exception'', [])
          | Inr (st, bs) \<Rightarrow> (st, bs))
      in if \<not> cs_responded s
         then cs_SendResponse zl status resp_bytes (sc_initial_metadata (cs_ctx s))
                (sc_trailing_metadata (cs_ctx s)) (s\<lparr>cs_timer := None\<rparr>)
         else s)"

section \<open>Steps\<close>

inductive cs_step :: "'z Zlib \<Rightarrow> ClientStreamingCallState \<Rightarrow> ClientStreamingCallState \<Rightarrow> bool" for zl where
  cs_data: "cs_on_data s \<Longrightarrow> cs_OnData zl data s = Some s' \<Longrightarrow> cs_step zl s s'"
| cs_timer: "cs_step zl s (cs_OnTimer zl aborted s)"
| cs_cancel: "cs_step zl s (cs_Cancel zl status s)"
| cs_close: "cs_step zl s (cs_OnClose s)"
| cs_read: "cs_spawned s \<Longrightarrow> cs_step zl s (snd (cs_HandlerRead s))"
| cs_handler: "cs_spawned s \<Longrightarrow> cs_step zl s (cs_HandlerDone zl result s)"
| cs_initial: "cs_spawned s \<Longrightarrow> AddInitialMetadata k v (cs_ctx s) = Inr c \<Longrightarrow> cs_step zl s (s\<lparr>cs_ctx := c\<rparr>)"
| cs_trailing: "cs_spawned s \<Longrightarrow> AddTrailingMetadata k v (cs_ctx s) = Inr c \<Longrightarrow> cs_step zl s (s\<lparr>cs_ctx := c\<rparr>)"
| cs_generate: "cs_step zl s (cs_Generate len s)"

definition cs_gate :: "ClientStreamingCallState \<Rightarrow> ClientStreamingCallState \<Rightarrow> bool" where
  "cs_gate s s' \<longleftrightarrow>
     (if cs_responded s then cs_responded s' \<and> resp_heads (cs_sent s') = resp_heads (cs_sent s)
      else resp_heads (cs_sent s') = resp_heads (cs_sent s)
        \<or> cs_responded s' \<and> (\<exists>h. resp_heads (cs_sent s') = resp_heads (cs_sent s) @ [h]))"

lemma cs_gate_OnData: "cs_OnData zl data s = Some s' \<Longrightarrow> cs_gate s s'"
  by (auto simp: cs_OnData_def cs_gate_def cs_SendError_def Let_def split: if_splits option.splits)

lemma cs_SendResponse_gate: "cs_gate s (cs_SendResponse zl st bs im tm (s\<lparr>cs_timer := t\<rparr>))"
  by (simp add: cs_gate_def cs_SendResponse_def Let_def)

lemma cs_step_gate: "cs_step zl s s' \<Longrightarrow> cs_gate s s'"
proof (induction rule: cs_step.induct)
  case (cs_handler s result)
  have "cs_gate s s" by (simp add: cs_gate_def)
  then show ?case
    by (simp add: cs_HandlerDone_def cs_SendResponse_gate split: prod.split)
next
  case (cs_generate s len)
  then show ?case
    by (auto simp: cs_gate_def cs_Generate_def split: option.splits prod.splits gen_result.splits)
qed (auto simp: cs_gate_OnData, auto simp: cs_gate_def cs_OnTimer_def cs_Cancel_def cs_OnClose_def cs_HandlerRead_def
      cs_SendError_def Let_def split: prod.splits)

interpretation client_streaming: single_response "cs_step zl" cs_responded cs_sent for zl
  by unfold_locales (auto dest!: cs_step_gate simp: cs_gate_def)

section \<open>Received messages\<close>

interpretation cs_data: stream_user "\<lambda>s data. cs_OnData zl data s" sp_loop cs_parser
  "\<lambda>p ms s. s\<lparr>cs_parser := p, cs_queue := fold Push ms (cs_queue s)\<rparr>" cs_responded
  "\<lambda>st s. cs_SendError zl st (s\<lparr>cs_queue := q_SetError st (cs_queue s)\<rparr>)" "\<lambda>s. True" for zl
  by unfold_locales (simp_all add: cs_OnData_def cs_SendError_def)

lemma cs_receives:
  assumes "\<not> cs_responded s" "cs_parser s = new_StreamingFrameParser m" "list_all (\<lambda>c. c \<noteq> []) chunks"
    and "lpm_spec sp_accept m (concat chunks) = (msgs, Rest partial)"
  shows "\<exists>p. feeds (\<lambda>s data. cs_OnData zl data s) s (chunks @ [[]])
    = Some (s\<lparr>cs_parser := p, cs_queue := SetEos (fold Push msgs (cs_queue s))\<rparr>)"
proof -
  obtain p ms st where f: "feeds (stream_feed sp_loop) (cs_parser s, [], status_ok) chunks = Some (p, ms, st)"
    "ms = msgs" "is_ok st"
    using sp_stream [of m chunks] assms(4) by (auto simp: assms(2) stream_view_def)
  then show ?thesis
    using cs_data.follows_parser [OF TrueI assms(1,3) f(1), of zl] assms(1) by (simp add: feeds_append cs_OnData_def) blast
qed

section \<open>Properties\<close>

text \<open>
  A client-streaming call writes at most one response head in every interleaving of its
  callbacks and of the handler's reads and completion.
\<close>

theorem client_streaming_single_response:
  assumes "(cs_step zl)\<^sup>*\<^sup>* (cs_Start zl now req (new_ClientStreamingCallState mmsg mmeta mresp peer)) s"
  shows "length (resp_heads (cs_sent s)) \<le> 1 \<and> (cs_responded s \<or> resp_heads (cs_sent s) = [])"
proof -
  let ?s0 = "cs_Start zl now req (new_ClientStreamingCallState mmsg mmeta mresp peer)"
  have "cs_gate (new_ClientStreamingCallState mmsg mmeta mresp peer) ?s0"
    unfolding cs_Start_def by (auto simp: cs_gate_def cs_SendError_def Let_def split: prod.splits)
  then show ?thesis
    using client_streaming.responded_run [OF assms] client_streaming.at_most_one_head [OF assms]
    by (cases "cs_responded ?s0") (auto simp: cs_gate_def new_ClientStreamingCallState_def)
qed

theorem client_streaming_single_response_witness:
  "length (resp_heads (cs_sent (cs_OnClose
     (cs_Start copy_zlib 0 \<lparr>rq_header = [], rq_host = []\<rparr> (new_ClientStreamingCallState 9 9 9 []))))) \<le> 1"
  using client_streaming_single_response [of copy_zlib 0 "\<lparr>rq_header = [], rq_host = []\<rparr>" 9 9 9 "[]"]
    cs_step.cs_close [where zl = copy_zlib] by (metis r_into_rtranclp)

text \<open>
  The messages a client streams reach the handler's queue in order, whatever the chunks. The
  queue grows by exactly the messages of \<open>lpm_spec\<close>; a refused frame records its error behind
  them and answers the call with it; without one the call stays open.
\<close>

theorem client_streaming_messages:
  assumes "\<not> cs_responded s" "cs_parser s = new_StreamingFrameParser m" "list_all (\<lambda>c. c \<noteq> []) chunks"
  shows "\<exists>s'. feeds (\<lambda>s data. cs_OnData zl data s) s chunks = Some s'
    \<and> q_buffer (cs_queue s') = q_buffer (cs_queue s) @ fst (lpm_spec sp_accept m (concat chunks))
    \<and> (case snd (lpm_spec sp_accept m (concat chunks)) of
         Rest _ \<Rightarrow> \<not> cs_responded s' \<and> cs_sent s' = cs_sent s \<and> q_error (cs_queue s') = q_error (cs_queue s)
       | e \<Rightarrow> \<exists>st. q_error (cs_queue s') = Some st \<and> cs_sent s' = cs_sent s @ [WriteHead 200 (error_head zl st), EndStream]
           \<and> status_code st = (if e = TooLong then RESOURCE_EXHAUSTED else INVALID_ARGUMENT))"
proof -
  obtain p ms st where f: "feeds (stream_feed sp_loop) (cs_parser s, [], status_ok) chunks = Some (p, ms, st)"
    and v: "stream_view sp_pend (p, ms, st) = (case lpm_spec sp_accept m (concat chunks) of (ms, e) \<Rightarrow>
       (ms, (case e of Rest _ \<Rightarrow> status_ok
             | BadFlag \<Rightarrow> mk_status INVALID_ARGUMENT ''invalid LPM compression flag''
             | TooLong \<Rightarrow> mk_status RESOURCE_EXHAUSTED ''message length exceeds limit''), rest_of e))"
    using sp_stream [of m chunks] by (auto simp: assms(2) case_prod_unfold)
  then show ?thesis
    using cs_data.follows_parser [OF TrueI assms(1,3) f, of zl] assms(1)
    by (auto simp: stream_view_def case_prod_unfold cs_SendError_def error_head_def AddCommonHeadersCS_eq split: lpm_end.splits)
qed

theorem client_streaming_messages_witness:
  "\<exists>s'. feeds (\<lambda>s data. cs_OnData copy_zlib data s) (new_ClientStreamingCallState 9 9 9 []) [framed [''a'', ''b'']] = Some s'
    \<and> q_buffer (cs_queue s') = [''a'', ''b'']"
proof -
  have "lpm_spec sp_accept 9 (framed [''a'', ''b''] @ []) = ([''a'', ''b''], Rest [])"
    by (subst lpm_spec_framed) (simp_all add: sp_accept_def lpm_spec_short)
  moreover have "framed [''a'', ''b''] \<noteq> []" by (simp add: framed_def EncodeFrame_def Let_def)
  ultimately show ?thesis
    using client_streaming_messages [of "new_ClientStreamingCallState 9 9 9 []" 9 "[framed [''a'', ''b'']]" copy_zlib]
    by (auto simp: new_ClientStreamingCallState_def new_StreamMessageQueue_def)
qed

text \<open>
  A client that ends its stream inside a message is not told so. When the bytes received
  stop in the middle of a frame, the end of the stream is passed to the handler as a clean one:
  its queue has the complete messages and the end-of-stream mark, no error is recorded and the
  call is not answered; the bytes of the truncated message are dropped.
\<close>

theorem client_streaming_truncated:
  assumes "\<not> cs_responded s" "cs_parser s = new_StreamingFrameParser m" "list_all (\<lambda>c. c \<noteq> []) chunks"
    and "lpm_spec sp_accept m (concat chunks) = (msgs, Rest partial)"
  shows "\<exists>s'. feeds (\<lambda>s data. cs_OnData zl data s) s (chunks @ [[]]) = Some s'
    \<and> q_buffer (cs_queue s') = q_buffer (cs_queue s) @ msgs \<and> q_eos (cs_queue s')
    \<and> q_error (cs_queue s') = q_error (cs_queue s) \<and> cs_sent s' = cs_sent s"
  using cs_receives [OF assms, of zl] by auto

theorem client_streaming_truncated_witness:
  "\<exists>s'. feeds (\<lambda>s data. cs_OnData copy_zlib data s) (new_ClientStreamingCallState 9 9 9 []) ([[CHR 0x00, CHR 0x00]] @ [[]]) = Some s'
    \<and> q_eos (cs_queue s') \<and> q_error (cs_queue s') = None"
  using client_streaming_truncated [of "new_ClientStreamingCallState 9 9 9 []" 9 "[[CHR 0x00, CHR 0x00]]" "[]"
      "[CHR 0x00, CHR 0x00]" copy_zlib]
  by (auto simp: new_ClientStreamingCallState_def new_StreamMessageQueue_def lpm_spec_short)

end
