(* ===== verification/BidiServer.thy ===== *)
theory BidiServer
  imports ClientStreamingServer
begin

text \<open>
  \<open>src/server/bidi_streaming_call_state.{h,cc}\<close>: one inbound bidirectional call. The head is
  sent in \<open>Start\<close>, before any DATA; the reader queue and the writer are those of the other
  streaming calls. Unlike the client-streaming call, \<open>OnData\<close> has no guard: it goes on parsing
  after a framing error.
\<close>

record BidiStreamingCallState =
  bd_parser :: StreamingFrameParser
  bd_ctx :: ServerContext
  bd_timer :: "int option"
  bd_responded :: bool
  bd_closed :: bool
  bd_terminal :: bool
  bd_max_metadata_size :: nat
  bd_peer_identity :: string
  bd_queue :: StreamMessageQueue
  bd_writer :: RawServerWriterImpl
  bd_on_data :: bool
  bd_spawned :: bool
  bd_sent :: "resp_action list"

definition new_BidiStreamingCallState :: "nat \<Rightarrow> nat \<Rightarrow> nat \<Rightarrow> string \<Rightarrow> BidiStreamingCallState" where
  "new_BidiStreamingCallState max_message_size max_metadata_size max_response_size peer_identity =
     \<lparr>bd_parser = new_StreamingFrameParser max_message_size, bd_ctx = new_ServerContext, bd_timer = None,
      bd_responded = False, bd_closed = False, bd_terminal = False, bd_max_metadata_size = max_metadata_size,
      bd_peer_identity = peer_identity, bd_queue = new_StreamMessageQueue,
      bd_writer = new_RawServerWriterImpl max_response_size, bd_on_data = False, bd_spawned = False, bd_sent = []\<rparr>"

definition bd_SendError :: "'z Zlib \<Rightarrow> Status \<Rightarrow> BidiStreamingCallState \<Rightarrow> BidiStreamingCallState" where
  "bd_SendError zl status s =
     (if bd_responded s then s
      else s\<lparr>bd_responded := True, bd_timer := None,
             bd_sent := bd_sent s @ [WriteHead 200 (error_head zl status), EndStream]\<rparr>)"

definition bd_SendHeaders :: "'z Zlib \<Rightarrow> BidiStreamingCallState \<Rightarrow> BidiStreamingCallState" where
  "bd_SendHeaders zl s =
     (let init_hdrs = MetadataToNghttp2Headers (sc_initial_metadata (bd_ctx s)) (AddCommonHeaders zl [])
      in s\<lparr>bd_sent := bd_sent s @ [WriteHead 200 init_hdrs, EndGenerator]\<rparr>)"

definition bd_Finish :: "Status \<Rightarrow> BidiStreamingCallState \<Rightarrow> BidiStreamingCallState" where
  "bd_Finish status s = (case sw_Finish status (bd_writer s) of
     (w, acts) \<Rightarrow> s\<lparr>bd_writer := w, bd_sent := bd_sent s @ acts\<rparr>)"

definition bd_Start :: "'z Zlib \<Rightarrow> int \<Rightarrow> HttpRequest \<Rightarrow> BidiStreamingCallState \<Rightarrow> BidiStreamingCallState" where
  "bd_Start zl now req s =
     (let (meta_status, client_meta) = Nghttp2HeadersToMetadata (rq_header req) [] (bd_max_metadata_size s)
      in if \<not> is_ok meta_status then bd_SendError zl meta_status s
         else
           let c0 = (bd_ctx s)\<lparr>sc_client_metadata := client_meta\<rparr>;
               (c, tmr) = arm_deadline now req (set_peer req (bd_peer_identity s) c0);
               s1 = bd_SendHeaders zl (s\<lparr>bd_ctx := c, bd_timer := tmr, bd_responded := True\<rparr>)
           in s1\<lparr>bd_on_data := True, bd_spawned := True\<rparr>)"

definition bd_OnTimer :: "bool \<Rightarrow> BidiStreamingCallState \<Rightarrow> BidiStreamingCallState" where
  "bd_OnTimer aborted s =
     (if aborted then s
      else
        let st = mk_status DEADLINE_EXCEEDED ''deadline exceeded'';
            s1 = s\<lparr>bd_ctx := trigger_cancel (bd_ctx s), bd_queue := q_SetError st (bd_queue s)\<rparr>
        in if \<not> sw_finished (bd_writer s1) then bd_Finish st s1 else s1)"

definition bd_Cancel :: "'z Zlib \<Rightarrow> Status \<Rightarrow> BidiStreamingCallState \<Rightarrow> BidiStreamingCallState" where
  "bd_Cancel zl status s =
     (if bd_closed s \<or> sw_finished (bd_writer s) then s
      else
        let s1 = s\<lparr>bd_ctx := trigger_cancel (bd_ctx s), bd_queue := q_SetError status (bd_queue s)\<rparr>
        in if bd_responded s1 then bd_Finish status s1 else bd_SendError zl status s1)"

definition bd_OnClose :: "BidiStreamingCallState \<Rightarrow> BidiStreamingCallState" where
  "bd_OnClose s =
     (if bd_closed s then s
      else
        let s1 = s\<lparr>bd_closed := True, bd_terminal := True, bd_timer := None\<rparr>
        in if \<not> sw_finished (bd_writer s1)
           then s1\<lparr>bd_ctx := trigger_cancel (bd_ctx s1),
                   bd_queue := q_SetError (mk_status CANCELLED ''client closed the stream'') (bd_queue s1),
                   bd_writer := (bd_writer s1)\<lparr>sw_finished := True\<rparr>\<rparr>
           else s1)"

definition bd_OnData :: "bytes \<Rightarrow> BidiStreamingCallState \<Rightarrow> BidiStreamingCallState option" where
  "bd_OnData data s =
     (if data = [] then Some (s\<lparr>bd_queue := SetEos (bd_queue s)\<rparr>)
      else
        case sp_loop (bd_parser s) data of
          None \<Rightarrow> None
        | Some (p, msgs, status) \<Rightarrow>
            let s1 = s\<lparr>bd_parser := p, bd_queue := fold Push msgs (bd_queue s)\<rparr>
            in Some (if \<not> is_ok status
                     then let s2 = s1\<lparr>bd_queue := q_SetError status (bd_queue s1)\<rparr>
                          in if \<not> sw_finished (bd_writer s2) then bd_Finish status s2 else s2
                     else s1))"

section \<open>The handler\<close>

definition bd_HandlerRead :: "BidiStreamingCallState \<Rightarrow> (Status \<times> bytes option) option \<times> BidiStreamingCallState" where
  "bd_HandlerRead s = (case RawServerReader_Read (bd_queue s) of (r, q) \<Rightarrow> (r, s\<lparr>bd_queue := q\<rparr>))"

definition bd_HandlerWrite :: "bytes \<Rightarrow> BidiStreamingCallState \<Rightarrow> Status \<times> BidiStreamingCallState" where
  "bd_HandlerWrite proto_bytes s = (case sw_Write proto_bytes (bd_writer s) of
     (st, w, acts) \<Rightarrow> (st, s\<lparr>bd_writer := w, bd_sent := bd_sent s @ acts\<rparr>))"

definition bd_HandlerDone :: "unit + Status \<Rightarrow> BidiStreamingCallState \<Rightarrow> BidiStreamingCallState" where
  "bd_HandlerDone result s =
     (let status = (case result of Inl _ \<Rightarrow> mk_status INTERNAL ''handler threw exception'' | Inr st \<Rightarrow> st);
          s1 = s\<lparr>bd_timer := None\<rparr>
      in if \<not> sw_finished (bd_writer s1) then bd_Finish status s1 else s1)"

definition bd_Generate :: "nat \<Rightarrow> BidiStreamingCallState \<Rightarrow> gen_result \<times> BidiStreamingCallState" where
  "bd_Generate len s =
     (case sw_generate (bd_writer s) len of
        (GTrailers t, w) \<Rightarrow> (GTrailers t, s\<lparr>bd_writer := w, bd_sent := bd_sent s @ [WriteTrailer t]\<rparr>)
      | (g, w) \<Rightarrow> (g, s\<lparr>bd_writer := w\<rparr>))"

section \<open>Steps\<close>

inductive bd_step :: "'z Zlib \<Rightarrow> BidiStreamingCallState \<Rightarrow> BidiStreamingCallState \<Rightarrow> bool" for zl where
  bd_data: "bd_on_data s \<Longrightarrow> bd_OnData data s = Some s' \<Longrightarrow> bd_step zl s s'"
| bd_timer: "bd_step zl s (bd_OnTimer aborted s)"
| bd_cancel: "bd_step zl s (bd_Cancel zl status s)"
| bd_close: "bd_step zl s (bd_OnClose s)"
| bd_read: "bd_spawned s \<Longrightarrow> bd_step zl s (snd (bd_HandlerRead s))"
| bd_write: "bd_spawned s \<Longrightarrow> bd_step zl s (snd (bd_HandlerWrite m s))"
| bd_finish: "bd_spawned s \<Longrightarrow> bd_step zl s (bd_Finish status s)"
| bd_handler: "bd_spawned s \<Longrightarrow> bd_step zl s (bd_HandlerDone result s)"
| bd_initial: "bd_spawned s \<Longrightarrow> AddInitialMetadata k v (bd_ctx s) = Inr c \<Longrightarrow> bd_step zl s (s\<lparr>bd_ctx := c\<rparr>)"
| bd_trailing: "bd_spawned s \<Longrightarrow> AddTrailingMetadata k v (bd_ctx s) = Inr c \<Longrightarrow> bd_step zl s (s\<lparr>bd_ctx := c\<rparr>)"
| bd_generate: "EndGenerator \<in> set (bd_sent s) \<Longrightarrow> bd_step zl s (snd (bd_Generate len s))"

definition bd_gate :: "BidiStreamingCallState \<Rightarrow> BidiStreamingCallState \<Rightarrow> bool" where
  "bd_gate s s' \<longleftrightarrow>
     (if bd_responded s then bd_responded s' \<and> resp_heads (bd_sent s') = resp_heads (bd_sent s)
      else resp_heads (bd_sent s') = resp_heads (bd_sent s)
        \<or> bd_responded s' \<and> (\<exists>h. resp_heads (bd_sent s') = resp_heads (bd_sent s) @ [h]))"

lemma bd_Finish_keeps [simp]:
  "bd_responded (bd_Finish st s) = bd_responded s" "resp_heads (bd_sent (bd_Finish st s)) = resp_heads (bd_sent s)"
  "bd_queue (bd_Finish st s) = bd_queue s" "bd_parser (bd_Finish st s) = bd_parser s"
  by (auto simp: bd_Finish_def split: prod.splits dest: sw_actions)

lemma bd_HandlerWrite_keeps [simp]:
  "bd_responded (snd (bd_HandlerWrite m s)) = bd_responded s"
  "resp_heads (bd_sent (snd (bd_HandlerWrite m s))) = resp_heads (bd_sent s)"
  by (auto simp: bd_HandlerWrite_def split: prod.splits dest: sw_actions)

lemma bd_gate_OnData: "bd_OnData data s = Some s' \<Longrightarrow> bd_gate s s'"
  by (auto simp: bd_OnData_def bd_gate_def Let_def split: if_splits option.splits)

lemma bd_step_gate: "bd_step zl s s' \<Longrightarrow> bd_gate s s'"
proof (induction rule: bd_step.induct)
  case (bd_data s data s')
  then show ?case by (simp add: bd_gate_OnData)
next
  case (bd_generate s len)
  then show ?case
    by (auto simp: bd_gate_def bd_Generate_def split: prod.splits gen_result.splits)
qed (auto simp: bd_gate_def bd_OnTimer_def bd_Cancel_def bd_OnClose_def bd_HandlerRead_def bd_HandlerDone_def
      bd_SendError_def Let_def split: prod.splits)

interpretation bidi_server: single_response "bd_step zl" bd_responded bd_sent for zl
  by unfold_locales (auto dest!: bd_step_gate simp: bd_gate_def)

section \<open>After a framing error\<close>

text \<open>The header of a message one byte above the limit, and the message itself in the next chunk.\<close>

lemma sp_oversized_header:
  assumes "m + 1 < 2 ^ 32"
  defines "h \<equiv> u8_char 0 # be32_bytes (of_nat (m + 1))"
  shows "sp_loop (new_StreamingFrameParser m) h =
    Some ((new_StreamingFrameParser m)\<lparr>sp_header_buf := h, sp_header_bytes := 5, sp_payload_len := of_nat (m + 1)\<rparr>, [],
      mk_status RESOURCE_EXHAUSTED ''message length exceeds limit'')"
proof -
  have "length h = 5" "be32 h = of_nat (m + 1)" "h ! 0 = u8_char 0" "h \<noteq> []"
    using be32_be32_bytes [of _ _ "[]"] by (simp_all add: h_def)
  moreover have "unat (of_nat (m + 1) :: u32) = m + 1" by (rule unat_of_nat_u32 [OF assms(1)])
  ultimately show ?thesis
    by (subst sp_loop.simps) (simp add: new_StreamingFrameParser_def Let_def memcpy_at_def del: of_nat_Suc of_nat_add)
qed

lemma sp_oversized_payload:
  assumes "m + 1 < 2 ^ 32" "length payload = m + 1"
  shows "\<exists>q. sp_loop ((new_StreamingFrameParser m)\<lparr>sp_header_buf := h, sp_header_bytes := 5, sp_payload_len := of_nat (m + 1)\<rparr>)
      payload = Some (q, [payload], status_ok)"
proof -
  have "unat (of_nat (m + 1) :: u32) = m + 1" by (rule unat_of_nat_u32 [OF assms(1)])
  then show ?thesis
    using assms(2)
    by (subst sp_loop.simps) (auto simp: new_StreamingFrameParser_def Let_def simp del: of_nat_Suc of_nat_add)
qed

section \<open>Properties\<close>

text \<open>
  A bidirectional call writes at most one response head in every interleaving of its
  callbacks, the handler's reads and writes, and the generator's pulls.
\<close>

theorem bidi_single_response:
  assumes "(bd_step zl)\<^sup>*\<^sup>* (bd_Start zl now req (new_BidiStreamingCallState mmsg mmeta mresp peer)) s"
  shows "length (resp_heads (bd_sent s)) = 1 \<and> bd_responded s"
proof -
  let ?s0 = "bd_Start zl now req (new_BidiStreamingCallState mmsg mmeta mresp peer)"
  have "bd_responded ?s0 \<and> length (resp_heads (bd_sent ?s0)) = 1"
    unfolding bd_Start_def
    by (auto simp: bd_SendError_def bd_SendHeaders_def new_BidiStreamingCallState_def Let_def split: prod.splits)
  then show ?thesis
    using bidi_server.responded_run [OF assms] by simp
qed

theorem bidi_single_response_witness:
  "length (resp_heads (bd_sent (bd_OnTimer False
     (bd_Start copy_zlib 0 \<lparr>rq_header = [], rq_host = []\<rparr> (new_BidiStreamingCallState 9 9 9 []))))) = 1"
  using bidi_single_response [of copy_zlib 0 "\<lparr>rq_header = [], rq_host = []\<rparr>" 9 9 9 "[]"]
    bd_step.bd_timer [where zl = copy_zlib] by (metis r_into_rtranclp)

text \<open>
  C37: A peer can pass a message above \<open>max_message_size\<close> to a bidirectional handler. The header
  of a message one byte too long is refused and recorded as an error, but the parser stays behind
  that header and \<open>OnData\<close> does not check for the error: the next chunk is taken as the payload
  and the oversized message is put into the queue, from which \<open>Read\<close> returns it before the error.
\<close>

theorem bidi_limit_bypass:
  assumes "m + 1 < 2 ^ 32" "length payload = m + 1"
    and "bd_parser s = new_StreamingFrameParser m" "q_buffer (bd_queue s) = []"
  shows "\<exists>s1 s2 s3. bd_OnData (u8_char 0 # be32_bytes (of_nat (m + 1))) s = Some s1
    \<and> q_error (bd_queue s1) = Some (mk_status RESOURCE_EXHAUSTED ''message length exceeds limit'')
    \<and> bd_OnData payload s1 = Some s2
    \<and> bd_HandlerRead s2 = (Some (status_ok, Some payload), s3)"
proof -
  let ?h = "u8_char 0 # be32_bytes (of_nat (m + 1))"
  let ?p = "(new_StreamingFrameParser m)\<lparr>sp_header_buf := ?h, sp_header_bytes := 5, sp_payload_len := of_nat (m + 1)\<rparr>"
  let ?st = "mk_status RESOURCE_EXHAUSTED ''message length exceeds limit''"
  obtain s1 where s1: "bd_OnData ?h s = Some s1" "bd_parser s1 = ?p" "q_error (bd_queue s1) = Some ?st"
    "q_buffer (bd_queue s1) = []"
    using sp_oversized_header [OF assms(1)] assms(3,4)
    by (simp add: bd_OnData_def Let_def del: of_nat_Suc of_nat_add)
  obtain q where "sp_loop ?p payload = Some (q, [payload], status_ok)"
    using sp_oversized_payload [OF assms(1,2)] by blast
  moreover have "payload \<noteq> []" using assms(2) by auto
  ultimately obtain s2 where s2: "bd_OnData payload s1 = Some s2" "q_buffer (bd_queue s2) = [payload]"
    using s1 by (simp add: bd_OnData_def)
  then have "bd_HandlerRead s2 = (Some (status_ok, Some payload), s2\<lparr>bd_queue := snd (Pop (bd_queue s2))\<rparr>)"
    by (simp add: bd_HandlerRead_def RawServerReader_Read_def Pop_def pr_ok_def pr_eos_def)
  then show ?thesis using s1 s2 by blast
qed

theorem bidi_limit_bypass_witness:
  "\<exists>s1 s2 s3. bd_OnData (u8_char 0 # be32_bytes (of_nat (2 + 1))) (new_BidiStreamingCallState 2 9 9 []) = Some s1
    \<and> bd_OnData ''abc'' s1 = Some s2 \<and> bd_HandlerRead s2 = (Some (status_ok, Some ''abc''), s3)"
  using bidi_limit_bypass [of 2 "''abc''" "new_BidiStreamingCallState 2 9 9 []"]
  by (auto simp: new_BidiStreamingCallState_def new_StreamMessageQueue_def)

end
