(* ===== verification/ServerImpl.thy ===== *)
theory ServerImpl
  imports BidiServer
begin

text \<open>
  \<open>src/server/server_impl.{h,cc}\<close> and the \<open>Server\<close> wrapper: routing of inbound requests, start
  and shutdown of the server.

  A \<open>weak_ptr\<close> to a call state is a number; \<open>sv_calls\<close> says which call states are alive. The
  calls on nghttp2's server object are recorded in \<open>sv_transport\<close>. What the operating system,
  OpenSSL and nghttp2 answer during \<open>Start\<close> (an error text where a call can fail, an exception
  where a call can throw) is the record \<open>StartEnv\<close>. User handlers are numbers.
\<close>

section \<open>Peer identity\<close>

text \<open>The subject alternative names of a certificate, as far as the loop tells them apart.\<close>

datatype general_name = GEN_URI string | GEN_DNS string | GEN_OTHER

fun san_loop :: "string \<Rightarrow> general_name list \<Rightarrow> string" where
  "san_loop first_dns_name [] = first_dns_name"
| "san_loop first_dns_name (GEN_URI u # names) = u"
| "san_loop first_dns_name (GEN_DNS d # names) =
     (if first_dns_name = [] then san_loop d names else san_loop first_dns_name names)"
| "san_loop first_dns_name (GEN_OTHER # names) = san_loop first_dns_name names"

text \<open>\<open>None\<close> is a null certificate, \<open>Some None\<close> one without the extension.\<close>

definition PeerIdentity :: "general_name list option option \<Rightarrow> string" where
  "PeerIdentity certificate = (case certificate of None \<Rightarrow> [] | Some None \<Rightarrow> [] | Some (Some names) \<Rightarrow> san_loop [] names)"

section \<open>State\<close>

record ServerOptions =
  so_num_threads :: nat
  so_server_cert_file :: string
  so_server_key_file :: string
  so_ca_cert_file :: string
  so_use_h2c :: bool
  so_grace_period :: int
  so_max_request_message_size :: nat
  so_max_response_message_size :: nat
  so_max_metadata_size :: nat

datatype ServerCall =
    UnaryCall ServerCallState
  | ServerStreamingCall ServerStreamingCallState
  | ClientStreamingCall ClientStreamingCallState
  | BidiCall BidiStreamingCallState

datatype transport_action = StopListening | StopServer

record ServerImpl =
  sv_opts :: ServerOptions
  sv_work_guard :: bool
  sv_ssl_context :: bool
  sv_handlers :: "string \<rightharpoonup> nat"
  sv_server_streaming_handlers :: "string \<rightharpoonup> nat"
  sv_client_streaming_handlers :: "string \<rightharpoonup> nat"
  sv_bidi_handlers :: "string \<rightharpoonup> nat"
  sv_threads :: nat
  sv_active_calls :: "nat list"
  sv_calls :: "nat \<rightharpoonup> ServerCall"
  sv_next_call :: nat
  sv_shutdown :: bool
  sv_started :: bool
  sv_listening :: bool
  sv_bound_port :: nat
  sv_posted_finish :: bool
  sv_shutdown_timer :: "int option"
  sv_transport :: "transport_action list"

definition new_ServerImpl :: "ServerOptions \<Rightarrow> ServerImpl" where
  "new_ServerImpl opts = \<lparr>sv_opts = opts, sv_work_guard = (so_num_threads opts \<noteq> 0), sv_ssl_context = False,
     sv_handlers = Map.empty, sv_server_streaming_handlers = Map.empty, sv_client_streaming_handlers = Map.empty,
     sv_bidi_handlers = Map.empty, sv_threads = 0, sv_active_calls = [], sv_calls = Map.empty, sv_next_call = 0,
     sv_shutdown = False, sv_started = False, sv_listening = False, sv_bound_port = 0,
     sv_posted_finish = False, sv_shutdown_timer = None, sv_transport = []\<rparr>"

definition RegisterUnaryRaw :: "string \<Rightarrow> nat \<Rightarrow> ServerImpl \<Rightarrow> ServerImpl" where
  "RegisterUnaryRaw path handler sv = sv\<lparr>sv_handlers := (sv_handlers sv)(path \<mapsto> handler)\<rparr>"

definition RegisterServerStreamingRaw :: "string \<Rightarrow> nat \<Rightarrow> ServerImpl \<Rightarrow> ServerImpl" where
  "RegisterServerStreamingRaw path handler sv =
     sv\<lparr>sv_server_streaming_handlers := (sv_server_streaming_handlers sv)(path \<mapsto> handler)\<rparr>"

definition RegisterClientStreamingRaw :: "string \<Rightarrow> nat \<Rightarrow> ServerImpl \<Rightarrow> ServerImpl" where
  "RegisterClientStreamingRaw path handler sv =
     sv\<lparr>sv_client_streaming_handlers := (sv_client_streaming_handlers sv)(path \<mapsto> handler)\<rparr>"

definition RegisterBidiRaw :: "string \<Rightarrow> nat \<Rightarrow> ServerImpl \<Rightarrow> ServerImpl" where
  "RegisterBidiRaw path handler sv = sv\<lparr>sv_bidi_handlers := (sv_bidi_handlers sv)(path \<mapsto> handler)\<rparr>"

section \<open>Calls\<close>

fun call_Cancel :: "'z Zlib \<Rightarrow> Status \<Rightarrow> ServerCall \<Rightarrow> ServerCall" where
  "call_Cancel zl st (UnaryCall s) = UnaryCall (us_Cancel zl st s)"
| "call_Cancel zl st (ServerStreamingCall s) = ServerStreamingCall (ss_Cancel zl st s)"
| "call_Cancel zl st (ClientStreamingCall s) = ClientStreamingCall (cs_Cancel zl st s)"
| "call_Cancel zl st (BidiCall s) = BidiCall (bd_Cancel zl st s)"

fun IsTerminal :: "ServerCall \<Rightarrow> bool" where
  "IsTerminal (UnaryCall s) = us_terminal s"
| "IsTerminal (ServerStreamingCall s) = ss_terminal s"
| "IsTerminal (ClientStreamingCall s) = cs_terminal s"
| "IsTerminal (BidiCall s) = bd_terminal s"

definition TrackCall :: "nat \<Rightarrow> ServerImpl \<Rightarrow> ServerImpl" where
  "TrackCall call sv =
     sv\<lparr>sv_active_calls := filter (\<lambda>i. sv_calls sv i \<noteq> None) (sv_active_calls sv) @ [call]\<rparr>"

text \<open>Creating a call state, tracking it and running its \<open>Start\<close>.\<close>

definition run_call :: "ServerCall \<Rightarrow> ServerCall \<Rightarrow> ServerImpl \<Rightarrow> ServerImpl" where
  "run_call state started sv =
     (let i = sv_next_call sv;
          sv1 = sv\<lparr>sv_calls := (sv_calls sv)(i \<mapsto> state), sv_next_call := i + 1\<rparr>;
          sv2 = TrackCall i sv1
      in sv2\<lparr>sv_calls := (sv_calls sv2)(i \<mapsto> started)\<rparr>)"

record ServerRequest = HttpRequest +
  rq_method :: string
  rq_path :: string
  rq_certificate :: "general_name list option option"

text \<open>
  \<open>HandleRequest\<close>: the calls it makes on the response itself (none when a call state takes over),
  and the server afterwards.
\<close>

definition HandleRequest ::
  "'z Zlib \<Rightarrow> int \<Rightarrow> ServerRequest \<Rightarrow> ServerImpl \<Rightarrow> resp_action list \<times> ServerImpl" where
  "HandleRequest zl now req sv =
     (let path = rq_path req; opts = sv_opts sv;
          mreq = so_max_request_message_size opts; mmeta = so_max_metadata_size opts;
          mresp = so_max_response_message_size opts
      in if sv_shutdown sv
         then ([WriteHead 200 (BuildTrailers (mk_status UNAVAILABLE ''server shutting down'') [] []), EndStream], sv)
         else if rq_method req \<noteq> ''POST'' then ([WriteHead 405 [], EndStream], sv)
         else if (case mm_find (rq_header req) ''content-type'' of None \<Rightarrow> True
                  | Some hv \<Rightarrow> \<not> str_contains ''application/grpc'' (hv_value hv))
         then ([WriteHead 415 [], EndStream], sv)
         else if (case mm_find (rq_header req) ''te'' of None \<Rightarrow> True
                  | Some hv \<Rightarrow> \<not> str_contains ''trailers'' (hv_value hv))
         then ([WriteHead 200 (BuildTrailers (mk_status UNIMPLEMENTED ''missing te: trailers'') [] []), EndStream], sv)
         else
           let peer_identity = PeerIdentity (rq_certificate req);
               hreq = HttpRequest.truncate req
           in if sv_handlers sv path \<noteq> None then
                let s = new_ServerCallState mreq mmeta mresp peer_identity
                in ([], run_call (UnaryCall s) (UnaryCall (us_Start zl now hreq s)) sv)
              else if sv_server_streaming_handlers sv path \<noteq> None then
                let s = new_ServerStreamingCallState mreq mmeta mresp peer_identity
                in ([], run_call (ServerStreamingCall s) (ServerStreamingCall (ss_Start zl now hreq s)) sv)
              else if sv_client_streaming_handlers sv path \<noteq> None then
                let s = new_ClientStreamingCallState mreq mmeta mresp peer_identity
                in ([], run_call (ClientStreamingCall s) (ClientStreamingCall (cs_Start zl now hreq s)) sv)
              else if sv_bidi_handlers sv path \<noteq> None then
                let s = new_BidiStreamingCallState mreq mmeta mresp peer_identity
                in ([], run_call (BidiCall s) (BidiCall (bd_Start zl now hreq s)) sv)
              else ([WriteHead 200 (BuildTrailers (mk_status UNIMPLEMENTED (''unknown method: '' @ path)) [] []), EndStream], sv))"

section \<open>Shutdown\<close>

definition StopTransport :: "ServerImpl \<Rightarrow> ServerImpl" where
  "StopTransport sv =
     (let sv1 = sv\<lparr>sv_shutdown_timer := None\<rparr>;
          sv2 = (if sv_listening sv1
                 then sv1\<lparr>sv_listening := False, sv_transport := sv_transport sv1 @ [StopServer]\<rparr> else sv1)
      in sv2\<lparr>sv_work_guard := False\<rparr>)"

definition Wait :: "ServerImpl \<Rightarrow> ServerImpl" where
  "Wait sv = sv\<lparr>sv_threads := 0\<rparr>"

definition FinishShutdown :: "int \<Rightarrow> int \<Rightarrow> ServerImpl \<Rightarrow> ServerImpl" where
  "FinishShutdown now deadline sv =
     (let sv1 = sv\<lparr>sv_active_calls := filter (\<lambda>i. case sv_calls sv i of None \<Rightarrow> False | Some c \<Rightarrow> \<not> IsTerminal c)
                    (sv_active_calls sv)\<rparr>;
          has_active_calls = (sv_active_calls sv1 \<noteq> [])
      in if \<not> has_active_calls \<or> now \<ge> deadline then StopTransport sv1
         else sv1\<lparr>sv_shutdown_timer := Some deadline\<rparr>)"

text \<open>
  \<open>Shutdown\<close>; the argument says whether the \<open>io_context\<close> is stopped. The task it posts is
  \<open>RunPosted\<close>, the timer callback of \<open>FinishShutdown\<close> is \<open>ShutdownTimer\<close>.
\<close>

definition Shutdown :: "'z Zlib \<Rightarrow> bool \<Rightarrow> ServerImpl \<Rightarrow> ServerImpl" where
  "Shutdown zl ioc_stopped sv =
     (if sv_shutdown sv then sv
      else
        let sv1 = sv\<lparr>sv_shutdown := True\<rparr>;
            sv2 = (if sv_listening sv1 then sv1\<lparr>sv_transport := sv_transport sv1 @ [StopListening]\<rparr> else sv1);
            calls = filter (\<lambda>i. sv_calls sv2 i \<noteq> None) (sv_active_calls sv2);
            sv3 = sv2\<lparr>sv_active_calls := []\<rparr>;
            st = mk_status UNAVAILABLE ''server shutting down'';
            sv4 = sv3\<lparr>sv_calls := (\<lambda>i. if i \<in> set calls then map_option (call_Cancel zl st) (sv_calls sv3 i)
                                       else sv_calls sv3 i)\<rparr>
        in if \<not> sv_listening sv4 then sv4\<lparr>sv_work_guard := False\<rparr>
           else if ioc_stopped then StopTransport sv4
           else sv4\<lparr>sv_posted_finish := True\<rparr>)"

definition RunPosted :: "int \<Rightarrow> ServerImpl \<Rightarrow> ServerImpl" where
  "RunPosted now sv =
     (if sv_posted_finish sv
      then FinishShutdown now (now + so_grace_period (sv_opts sv)) (sv\<lparr>sv_posted_finish := False\<rparr>) else sv)"

definition ShutdownTimer :: "int \<Rightarrow> bool \<Rightarrow> ServerImpl \<Rightarrow> ServerImpl" where
  "ShutdownTimer now error sv =
     (case sv_shutdown_timer sv of
        None \<Rightarrow> sv
      | Some deadline \<Rightarrow> if error then sv\<lparr>sv_shutdown_timer := None\<rparr>
                         else FinishShutdown now deadline (sv\<lparr>sv_shutdown_timer := None\<rparr>))"

section \<open>Start\<close>

datatype start_exn = SystemError string | StdException string | OtherException

record StartEnv =
  se_open :: "string option"
  se_reuse_address :: "string option"
  se_bind :: "string option"
  se_local_endpoint :: "string option"
  se_close :: "string option"
  se_ephemeral_port :: nat
  se_certificate :: "string option"
  se_private_key :: "string option"
  se_ca_file :: "string option"
  se_listen :: "string option"
  se_setup_throws :: "start_exn option"
  se_thread_throws :: "nat \<Rightarrow> start_exn option"

definition ResolvePort :: "StartEnv \<Rightarrow> nat \<Rightarrow> Status + nat" where
  "ResolvePort env port =
     (if port \<noteq> 0 then Inr port
      else case se_open env of
        Some e \<Rightarrow> Inl (mk_status UNAVAILABLE (''ephemeral port socket open failed: '' @ e))
      | None \<Rightarrow>
      case se_reuse_address env of
        Some e \<Rightarrow> Inl (mk_status UNAVAILABLE (''ephemeral port socket configuration failed: '' @ e))
      | None \<Rightarrow>
      case se_bind env of
        Some e \<Rightarrow> Inl (mk_status UNAVAILABLE (''ephemeral port bind failed: '' @ e))
      | None \<Rightarrow>
      case se_local_endpoint env of
        Some e \<Rightarrow> Inl (mk_status UNAVAILABLE (''ephemeral port lookup failed: '' @ e))
      | None \<Rightarrow>
      case se_close env of
        Some e \<Rightarrow> Inl (mk_status UNAVAILABLE (''ephemeral port socket close failed: '' @ e))
      | None \<Rightarrow> Inr (se_ephemeral_port env))"

text \<open>The worker threads: \<open>n\<close> to go, \<open>i\<close> started so far.\<close>

fun start_threads :: "StartEnv \<Rightarrow> nat \<Rightarrow> nat \<Rightarrow> start_exn option \<times> nat" where
  "start_threads env 0 i = (None, i)"
| "start_threads env (Suc n) i = (case se_thread_throws env i of Some e \<Rightarrow> (Some e, i) | None \<Rightarrow> start_threads env n (i + 1))"

text \<open>
  \<open>StartImpl\<close> returns a status or throws; in both cases with the state it leaves. The first
  exception point stands for \<open>handle\<close> and the construction of the TLS context.
\<close>

definition uses_tls :: "ServerOptions \<Rightarrow> bool" where
  "uses_tls opts \<longleftrightarrow> so_server_cert_file opts \<noteq> [] \<and> \<not> so_use_h2c opts"

definition tls_error :: "StartEnv \<Rightarrow> ServerOptions \<Rightarrow> string option" where
  "tls_error env opts =
     (if \<not> uses_tls opts then None
      else case se_certificate env of
        Some e \<Rightarrow> Some (''server cert file: '' @ e)
      | None \<Rightarrow>
      case se_private_key env of
        Some e \<Rightarrow> Some (''server key file: '' @ e)
      | None \<Rightarrow>
        if so_ca_cert_file opts \<noteq> []
        then map_option (\<lambda>e. ''CA cert file: '' @ e) (se_ca_file env) else None)"

definition listen_and_run :: "StartEnv \<Rightarrow> ServerImpl \<Rightarrow> (start_exn + Status) \<times> ServerImpl" where
  "listen_and_run env sv =
     (case se_listen env of
        Some e \<Rightarrow> (Inr (mk_status UNAVAILABLE (''server listen failed: '' @ e)), sv)
      | None \<Rightarrow>
          let sv1 = sv\<lparr>sv_listening := True\<rparr>
          in case start_threads env (so_num_threads (sv_opts sv)) 0 of
               (Some e, n) \<Rightarrow> (Inl e, sv1\<lparr>sv_threads := sv_threads sv1 + n\<rparr>)
             | (None, n) \<Rightarrow> (Inr status_ok, sv1\<lparr>sv_threads := sv_threads sv1 + n\<rparr>))"

definition StartImpl :: "StartEnv \<Rightarrow> nat \<Rightarrow> ServerImpl \<Rightarrow> (start_exn + Status) \<times> ServerImpl" where
  "StartImpl env port sv =
     (case ResolvePort env port of
        Inl st \<Rightarrow> (Inr st, sv)
      | Inr p \<Rightarrow>
          let sv1 = sv\<lparr>sv_bound_port := p\<rparr>
          in case se_setup_throws env of
               Some e \<Rightarrow> (Inl e, sv1)
             | None \<Rightarrow>
                 let sv2 = (if uses_tls (sv_opts sv) then sv1\<lparr>sv_ssl_context := True\<rparr> else sv1)
                 in case tls_error env (sv_opts sv) of
                      Some msg \<Rightarrow> (Inr (mk_status INVALID_ARGUMENT msg), sv2)
                    | None \<Rightarrow> listen_and_run env sv2)"

definition CleanupFailedStart :: "ServerImpl \<Rightarrow> ServerImpl" where
  "CleanupFailedStart sv = (Wait (StopTransport sv))\<lparr>sv_ssl_context := False\<rparr>"

definition Start :: "StartEnv \<Rightarrow> nat \<Rightarrow> ServerImpl \<Rightarrow> Status \<times> ServerImpl" where
  "Start env port sv =
     (if sv_started sv
      then (mk_status FAILED_PRECONDITION ''Server::Start called more than once'', sv)
      else
        case StartImpl env port (sv\<lparr>sv_started := True\<rparr>) of
          (Inr status, sv1) \<Rightarrow> (status, if \<not> is_ok status then CleanupFailedStart sv1 else sv1)
        | (Inl (SystemError what), sv1) \<Rightarrow>
            (mk_status UNAVAILABLE (''server startup failed: '' @ what), CleanupFailedStart sv1)
        | (Inl (StdException what), sv1) \<Rightarrow>
            (mk_status INTERNAL (''server startup failed: '' @ what), CleanupFailedStart sv1)
        | (Inl OtherException, sv1) \<Rightarrow>
            (mk_status UNKNOWN ''server startup failed with an unknown error'', CleanupFailedStart sv1))"

section \<open>Lemmas\<close>

lemma StopTransport_sel [simp]:
  "\<not> sv_listening (StopTransport sv)" "\<not> sv_work_guard (StopTransport sv)" "sv_shutdown_timer (StopTransport sv) = None"
  "sv_shutdown (StopTransport sv) = sv_shutdown sv" "sv_started (StopTransport sv) = sv_started sv"
  "sv_transport (StopTransport sv) = (if sv_listening sv then sv_transport sv @ [StopServer] else sv_transport sv)"
  by (simp_all add: StopTransport_def Let_def)

lemma CleanupFailedStart_sel [simp]:
  "\<not> sv_listening (CleanupFailedStart sv)" "sv_threads (CleanupFailedStart sv) = 0"
  "\<not> sv_ssl_context (CleanupFailedStart sv)" "sv_started (CleanupFailedStart sv) = sv_started sv"
  by (simp_all add: CleanupFailedStart_def Wait_def)

lemma start_threads_all: "start_threads env n i = (None, k) \<Longrightarrow> k = i + n"
  by (induction n arbitrary: i) (fastforce split: option.splits)+

lemma listen_and_run_ok:
  "listen_and_run env sv = (Inr st, sv') \<Longrightarrow> is_ok st \<Longrightarrow>
     sv_listening sv' \<and> sv_threads sv' = sv_threads sv + so_num_threads (sv_opts sv) \<and> sv_bound_port sv' = sv_bound_port sv"
  by (auto simp: listen_and_run_def Let_def split: option.splits prod.splits dest!: start_threads_all)

lemma ResolvePort_error: "ResolvePort env port = Inl st \<Longrightarrow> \<not> is_ok st"
  by (auto simp: ResolvePort_def split: if_splits option.splits)

lemma StartImpl_ok:
  "StartImpl env port sv = (Inr st, sv') \<Longrightarrow> is_ok st \<Longrightarrow>
     sv_listening sv' \<and> sv_threads sv' = sv_threads sv + so_num_threads (sv_opts sv)
     \<and> ResolvePort env port = Inr (sv_bound_port sv')"
  by (auto simp: StartImpl_def Let_def split: sum.splits option.splits if_splits
      dest!: listen_and_run_ok ResolvePort_error)

lemma StartImpl_started: "sv_started (snd (StartImpl env port sv)) = sv_started sv"
  by (auto simp: StartImpl_def listen_and_run_def Let_def split: sum.split option.split prod.split)

lemma run_call_sel [simp]:
  "sv_calls (run_call c c' sv) = (sv_calls sv)(sv_next_call sv \<mapsto> c')"
  "sv_next_call sv \<in> set (sv_active_calls (run_call c c' sv))"
  "sv_shutdown (run_call c c' sv) = sv_shutdown sv"
  by (simp_all add: run_call_def TrackCall_def Let_def)

fun uri_names :: "general_name list \<Rightarrow> string list" where
  "uri_names [] = []"
| "uri_names (GEN_URI u # names) = u # uri_names names"
| "uri_names (_ # names) = uri_names names"

fun dns_names :: "general_name list \<Rightarrow> string list" where
  "dns_names [] = []"
| "dns_names (GEN_DNS d # names) = d # dns_names names"
| "dns_names (_ # names) = dns_names names"

lemma san_loop_spec:
  "san_loop d names = hd (uri_names names @ filter (\<lambda>x. x \<noteq> []) (d # dns_names names) @ [[]])"
  by (induction d names rule: san_loop.induct) (auto simp: hd_append)

lemma trailers_only_head:
  "ExtractTrailerStatus (BuildTrailers st [] []) = st"
  "mm_find (BuildTrailers st [] []) ''content-type'' = None"
  by (simp_all add: Extract_BuildTrailers BuildTrailers_find(4))

definition sample_options :: ServerOptions where
  "sample_options = \<lparr>so_num_threads = 2, so_server_cert_file = [], so_server_key_file = [], so_ca_cert_file = [],
     so_use_h2c = True, so_grace_period = 30, so_max_request_message_size = 4194304,
     so_max_response_message_size = 4194304, so_max_metadata_size = 8192\<rparr>"

definition sample_call :: ServerCallState where
  "sample_call = new_ServerCallState 4194304 8192 4194304 []"

definition sample_server :: ServerImpl where
  "sample_server = (new_ServerImpl sample_options)\<lparr>sv_listening := True, sv_active_calls := [0],
     sv_calls := [0 \<mapsto> UnaryCall sample_call], sv_next_call := 1\<rparr>"

section \<open>Properties\<close>

text \<open>
  The routing of requests, stated apart from the code: the checks in their order, each with the
  answer to a request that fails it (an HTTP status, and the gRPC status of a 200 answer), and the
  kinds of call a path is registered for, in the order of their precedence.
\<close>

datatype rpc_kind = Unary | ServerStreams | ClientStreams | Bidi

definition header_has :: "ServerRequest \<Rightarrow> string \<Rightarrow> string \<Rightarrow> bool" where
  "header_has req name part \<longleftrightarrow> (\<exists>hv. mm_find (rq_header req) name = Some hv \<and> str_contains part (hv_value hv))"

definition registered :: "ServerImpl \<Rightarrow> string \<Rightarrow> rpc_kind list" where
  "registered sv path = map fst (filter (\<lambda>(k, table). path \<in> dom table)
     [(Unary, sv_handlers sv), (ServerStreams, sv_server_streaming_handlers sv),
      (ClientStreams, sv_client_streaming_handlers sv), (Bidi, sv_bidi_handlers sv)])"

definition refusals :: "ServerRequest \<Rightarrow> ServerImpl \<Rightarrow> (int \<times> Status option) list" where
  "refusals req sv = map snd (filter fst
     [(sv_shutdown sv, 200, Some (mk_status UNAVAILABLE ''server shutting down'')),
      (rq_method req \<noteq> ''POST'', 405, None),
      (\<not> header_has req ''content-type'' ''application/grpc'', 415, None),
      (\<not> header_has req ''te'' ''trailers'', 200, Some (mk_status UNIMPLEMENTED ''missing te: trailers'')),
      (registered sv (rq_path req) = [], 200, Some (mk_status UNIMPLEMENTED (''unknown method: '' @ rq_path req)))])"

text \<open>The call a request of each kind becomes: created with the server's limits and the peer's identity, and started.\<close>

definition started_call :: "'z Zlib \<Rightarrow> int \<Rightarrow> ServerRequest \<Rightarrow> ServerImpl \<Rightarrow> rpc_kind \<Rightarrow> ServerCall" where
  "started_call zl now req sv kind =
     (let mreq = so_max_request_message_size (sv_opts sv); mmeta = so_max_metadata_size (sv_opts sv);
          mresp = so_max_response_message_size (sv_opts sv); pid = PeerIdentity (rq_certificate req); hreq = HttpRequest.truncate req
      in case kind of
           Unary \<Rightarrow> UnaryCall (us_Start zl now hreq (new_ServerCallState mreq mmeta mresp pid))
         | ServerStreams \<Rightarrow> ServerStreamingCall (ss_Start zl now hreq (new_ServerStreamingCallState mreq mmeta mresp pid))
         | ClientStreams \<Rightarrow> ClientStreamingCall (cs_Start zl now hreq (new_ClientStreamingCallState mreq mmeta mresp pid))
         | Bidi \<Rightarrow> BidiCall (bd_Start zl now hreq (new_BidiStreamingCallState mreq mmeta mresp pid)))"

lemma registered_Nil:
  "registered sv path = [] \<longleftrightarrow> sv_handlers sv path = None \<and> sv_server_streaming_handlers sv path = None
     \<and> sv_client_streaming_handlers sv path = None \<and> sv_bidi_handlers sv path = None"
  by (auto simp: registered_def)

lemma registered_first:
  "sv_handlers sv path \<noteq> None \<Longrightarrow> hd (registered sv path) = Unary"
  "sv_handlers sv path = None \<Longrightarrow> sv_server_streaming_handlers sv path \<noteq> None \<Longrightarrow> hd (registered sv path) = ServerStreams"
  "sv_handlers sv path = None \<Longrightarrow> sv_server_streaming_handlers sv path = None \<Longrightarrow> sv_client_streaming_handlers sv path \<noteq> None
     \<Longrightarrow> hd (registered sv path) = ClientStreams"
  "sv_handlers sv path = None \<Longrightarrow> sv_server_streaming_handlers sv path = None \<Longrightarrow> sv_client_streaming_handlers sv path = None
     \<Longrightarrow> sv_bidi_handlers sv path \<noteq> None \<Longrightarrow> hd (registered sv path) = Bidi"
  by (auto simp: registered_def domIff)

lemma refusals_Nil:
  "refusals req sv = [] \<longleftrightarrow> \<not> sv_shutdown sv \<and> rq_method req = ''POST'' \<and> header_has req ''content-type'' ''application/grpc''
     \<and> header_has req ''te'' ''trailers'' \<and> registered sv (rq_path req) \<noteq> []"
  by (auto simp: refusals_def)

lemma run_call_eq:
  "run_call state started sv = sv\<lparr>sv_calls := (sv_calls sv)(sv_next_call sv \<mapsto> started), sv_next_call := sv_next_call sv + 1,
     sv_active_calls := filter (\<lambda>i. i = sv_next_call sv \<or> sv_calls sv i \<noteq> None) (sv_active_calls sv) @ [sv_next_call sv]\<rparr>"
  by (cases sv) (auto simp: run_call_def TrackCall_def Let_def fun_eq_iff intro!: filter_cong)

lemma header_has_case:
  "(case mm_find (rq_header req) name of None \<Rightarrow> True | Some hv \<Rightarrow> \<not> str_contains part (hv_value hv)) \<longleftrightarrow> \<not> header_has req name part"
  by (auto simp: header_has_def split: option.split)

lemma HandleRequest_dispatches:
  assumes "refusals req sv = []"
  shows "HandleRequest zl now req sv = ([], sv\<lparr>
    sv_calls := (sv_calls sv)(sv_next_call sv \<mapsto> started_call zl now req sv (hd (registered sv (rq_path req)))),
    sv_next_call := sv_next_call sv + 1,
    sv_active_calls := filter (\<lambda>i. i = sv_next_call sv \<or> sv_calls sv i \<noteq> None) (sv_active_calls sv) @ [sv_next_call sv]\<rparr>)"
proof -
  have "\<not> sv_shutdown sv" "rq_method req = ''POST''" "header_has req ''content-type'' ''application/grpc''"
    "header_has req ''te'' ''trailers''" "registered sv (rq_path req) \<noteq> []"
    using assms by (simp_all add: refusals_Nil)
  then show ?thesis
    using registered_first [of sv "rq_path req"] unfolding HandleRequest_def Let_def header_has_case
    by (auto simp: registered_Nil run_call_eq started_call_def)
qed

text \<open>
  C24: How a request is routed. A request that fails no check becomes exactly one new call: of the first
  kind its path is registered for (unary, server-streaming, client-streaming, bidirectional), created with
  the server's limits and the identity of the peer's certificate, started, and tracked behind the calls
  that are still alive; nothing else of the server changes. A request that fails a check is answered at once
  with what belongs to the first check it fails (UNAVAILABLE after \<open>Shutdown\<close>, HTTP 405 for another method than
  POST, HTTP 415 for another content type, UNIMPLEMENTED for a missing \<open>te: trailers\<close> or an unknown path), and
  leaves the server as it was.
\<close>

theorem HandleRequest_routes:
  assumes "HandleRequest zl now req sv = (acts, sv')"
  shows "if refusals req sv = []
    then acts = [] \<and> sv' = sv\<lparr>sv_calls := (sv_calls sv)(sv_next_call sv \<mapsto> started_call zl now req sv (hd (registered sv (rq_path req)))),
        sv_next_call := sv_next_call sv + 1,
        sv_active_calls := filter (\<lambda>i. i = sv_next_call sv \<or> sv_calls sv i \<noteq> None) (sv_active_calls sv) @ [sv_next_call sv]\<rparr>
    else sv' = sv \<and> (\<exists>code st h. hd (refusals req sv) = (code, st) \<and> acts = [WriteHead code h, EndStream]
        \<and> (case st of None \<Rightarrow> h = [] | Some st \<Rightarrow> mm_find h ''grpc-status'' \<noteq> None \<and> ExtractTrailerStatus h = st))"
proof (cases "refusals req sv = []")
  case True
  then show ?thesis using assms HandleRequest_dispatches [OF True, of zl now] by simp
next
  case False
  have status: "\<exists>y. mm_find (BuildTrailers st [] []) ''grpc-status'' = Some y" for st
    by (simp add: BuildTrailers_find(1))
  show ?thesis
    using False assms unfolding HandleRequest_def Let_def header_has_case
    by (auto simp: refusals_def registered_Nil trailers_only_head status split: if_splits)
qed

theorem HandleRequest_routes_witness:
  "\<exists>call. sv_calls (snd (HandleRequest copy_zlib 0 \<lparr>rq_header = [(''content-type'', plain_value ''application/grpc''), (''te'', plain_value ''trailers'')],
       rq_host = [], rq_method = ''POST'', rq_path = ''/x'', rq_certificate = None\<rparr> (sample_server\<lparr>sv_bidi_handlers := [''/x'' \<mapsto> 0]\<rparr>))) 1 = Some (BidiCall call)"
proof -
  let ?req = "\<lparr>rq_header = [(''content-type'', plain_value ''application/grpc''), (''te'', plain_value ''trailers'')], rq_host = [],
    rq_method = ''POST'', rq_path = ''/x'', rq_certificate = None\<rparr>"
  let ?sv = "sample_server\<lparr>sv_bidi_handlers := [''/x'' \<mapsto> 0]\<rparr>"
  have "refusals ?req ?sv = []" "registered ?sv ''/x'' = [Bidi]" "sv_next_call ?sv = 1"
    by (simp_all add: refusals_Nil registered_def header_has_def mm_find_def plain_value_def sample_server_def new_ServerImpl_def)
  then show ?thesis
    using HandleRequest_routes [of copy_zlib 0 ?req ?sv, OF prod.collapse [symmetric]]
    by (simp add: started_call_def Let_def)
qed

text \<open>
  The peer identity a handler sees comes from the verified certificate only: the first URI
  name among the subject alternative names, otherwise the first non-empty DNS name, and nothing
  for a connection without a certificate, without such names or without that extension.
\<close>

theorem PeerIdentity_spec:
  "PeerIdentity certificate =
     (case certificate of
        Some (Some names) \<Rightarrow> hd (uri_names names @ filter (\<lambda>d. d \<noteq> []) (dns_names names) @ [[]])
      | _ \<Rightarrow> [])"
  by (simp add: PeerIdentity_def san_loop_spec split: option.split)

text \<open>
  C25: \<open>Server::Start\<close> always returns a status and never leaves a half-started server. On
  success it listens on the requested (or the resolved ephemeral) port with the configured
  number of worker threads; on any failure or exception inside it the server neither listens nor
  has threads or a TLS context; a second call is refused and changes nothing.
\<close>

theorem Start_outcome:
  assumes "Start env port sv = (st, sv')" "sv_threads sv = 0"
  shows "if sv_started sv then status_code st = FAILED_PRECONDITION \<and> sv' = sv
    else sv_started sv'
      \<and> (if is_ok st then sv_listening sv' \<and> sv_threads sv' = so_num_threads (sv_opts sv)
           \<and> ResolvePort env port = Inr (sv_bound_port sv')
         else \<not> sv_listening sv' \<and> sv_threads sv' = 0 \<and> \<not> sv_ssl_context sv')"
proof (cases "sv_started sv")
  case False
  obtain r sv1 where r: "StartImpl env port (sv\<lparr>sv_started := True\<rparr>) = (r, sv1)" by fastforce
  have started: "sv_started sv1"
    using StartImpl_started [of env port "sv\<lparr>sv_started := True\<rparr>"] r by simp
  show ?thesis
  proof (cases r)
    case (Inl e)
    then show ?thesis using assms(1) False r started by (cases e) (auto simp: Start_def)
  next
    case (Inr st')
    then show ?thesis
      using assms False r started StartImpl_ok [of env port "sv\<lparr>sv_started := True\<rparr>" st' sv1]
      by (auto simp: Start_def split: if_splits)
  qed
qed (use assms in \<open>auto simp: Start_def\<close>)

theorem Start_outcome_witness:
  "sv_threads (snd (Start \<lparr>se_open = None, se_reuse_address = None, se_bind = None, se_local_endpoint = None,
       se_close = None, se_ephemeral_port = 50051, se_certificate = None, se_private_key = None, se_ca_file = None,
       se_listen = Some ''in use'', se_setup_throws = None, se_thread_throws = (\<lambda>_. None)\<rparr> 0 (new_ServerImpl sample_options))) = 0"
  using Start_outcome [of "\<lparr>se_open = None, se_reuse_address = None, se_bind = None, se_local_endpoint = None,
       se_close = None, se_ephemeral_port = 50051, se_certificate = None, se_private_key = None, se_ca_file = None,
       se_listen = Some ''in use'', se_setup_throws = None, se_thread_throws = (\<lambda>_. None)\<rparr>" 0 "new_ServerImpl sample_options",
       OF prod.collapse [symmetric]]
  by (auto simp: Start_def StartImpl_def ResolvePort_def listen_and_run_def tls_error_def uses_tls_def
      new_ServerImpl_def sample_options_def)

text \<open>
  C39: \<open>grace_period\<close> has no effect. \<open>Shutdown\<close> empties the list of active calls before the task
  it posts looks at that list, so that task stops the transport the first time it runs, even when
  tracked calls are not terminal and the whole grace period is still ahead.
\<close>

theorem shutdown_ignores_grace_period:
  assumes "\<not> sv_shutdown sv" "sv_listening sv"
  shows "\<not> sv_listening (RunPosted now (Shutdown zl False sv))
    \<and> StopServer \<in> set (sv_transport (RunPosted now (Shutdown zl False sv)))
    \<and> sv_shutdown_timer (RunPosted now (Shutdown zl False sv)) = None"
  using assms by (simp add: RunPosted_def Shutdown_def FinishShutdown_def Let_def)

theorem shutdown_ignores_grace_period_witness:
  "\<not> sv_listening (RunPosted 0 (Shutdown copy_zlib False sample_server))
   \<and> (\<exists>c. sv_calls (RunPosted 0 (Shutdown copy_zlib False sample_server)) 0 = Some c \<and> \<not> IsTerminal c)"
  using shutdown_ignores_grace_period [of sample_server 0 copy_zlib]
  by (simp add: RunPosted_def Shutdown_def FinishShutdown_def StopTransport_def Let_def sample_server_def new_ServerImpl_def
      us_Cancel_def us_SendError_def sample_call_def new_ServerCallState_def)

text \<open>
  C26: \<open>Shutdown\<close> cancels every tracked call that is still alive with UNAVAILABLE. In particular
  a unary call that has neither answered nor been closed gets a trailers-only head with that
  status and a cancelled context; calls that have answered are left alone. A second \<open>Shutdown\<close>
  does nothing.
\<close>

theorem shutdown_cancels_calls:
  assumes "\<not> sv_shutdown sv" "i \<in> set (sv_active_calls sv)" "sv_calls sv i = Some c"
  shows "sv_calls (Shutdown zl stopped sv) i = Some (call_Cancel zl (mk_status UNAVAILABLE ''server shutting down'') c)
    \<and> Shutdown zl stopped' (Shutdown zl stopped sv) = Shutdown zl stopped sv
    \<and> (case c of UnaryCall s \<Rightarrow>
         (if us_closed s \<or> us_responded s then sv_calls (Shutdown zl stopped sv) i = Some c
          else \<exists>s' h. sv_calls (Shutdown zl stopped sv) i = Some (UnaryCall s') \<and> sc_cancelled (us_ctx s')
            \<and> us_sent s' = us_sent s @ [WriteHead 200 h, EndStream]
            \<and> ExtractTrailerStatus h = mk_status UNAVAILABLE ''server shutting down'')
       | _ \<Rightarrow> True)"
proof -
  let ?st = "mk_status UNAVAILABLE ''server shutting down''"
  have calls: "sv_calls (Shutdown zl stopped sv) i = Some (call_Cancel zl ?st c)"
    using assms by (simp add: Shutdown_def StopTransport_def Let_def)
  moreover have "sv_shutdown (Shutdown zl stopped sv)"
    using assms(1) by (simp add: Shutdown_def Let_def)
  moreover have "us_Cancel zl ?st s = (if us_closed s \<or> us_responded s then s
      else s\<lparr>us_ctx := trigger_cancel (us_ctx s), us_responded := True, us_timer := None,
             us_sent := us_sent s @ [WriteHead 200 (error_head zl ?st), EndStream]\<rparr>)" for s
    by (simp add: us_Cancel_def us_SendError_def)
  ultimately show ?thesis
    by (auto simp: Shutdown_def [of zl stopped'] trigger_cancel_def split: ServerCall.splits)
qed

theorem shutdown_cancels_calls_witness:
  "sv_calls (Shutdown copy_zlib True sample_server) 0
     = Some (UnaryCall (us_Cancel copy_zlib (mk_status UNAVAILABLE ''server shutting down'') sample_call))"
  using shutdown_cancels_calls [of sample_server 0 "UnaryCall sample_call" copy_zlib True True]
  by (simp add: sample_server_def new_ServerImpl_def)

end
