(* ===== verification/TypedApi.thy ===== *)
theory TypedApi
  imports BidiClient ClientStreamingServer
begin

text \<open>
  The typed layer: the templates of \<open>include/rpcpio/channel.h\<close> and \<open>server.h\<close> and the typed handles
  \<open>client_reader.h\<close>, \<open>client_writer.h\<close>, \<open>bidi_stream.h\<close>, \<open>server_reader.h\<close> and \<open>server_writer.h\<close>.

  A generated protobuf message class is a parameter, the record \<open>Codec\<close> of the members the
  templates call; \<open>codec_ok\<close> is what protobuf documents of them. A size passed as \<open>int\<close> is
  converted as C++ converts it. A typed handler is the function from its request to what its
  coroutine returns; \<open>Inl\<close> is an exception that escapes it.
\<close>

section \<open>Messages\<close>

record 'm Codec =
  pb_ByteSizeLong :: "'m \<Rightarrow> nat"
  pb_SerializeToArray :: "'m \<Rightarrow> int \<Rightarrow> bytes option"
  pb_SerializeToString :: "'m \<Rightarrow> bytes option"
  pb_ParseFromArray :: "bytes \<Rightarrow> int \<Rightarrow> 'm option"
  pb_ParseFromString :: "bytes \<Rightarrow> 'm option"

definition int_max :: nat where
  "int_max = 2 ^ 31 - 1"

definition static_cast_int :: "nat \<Rightarrow> int" where
  "static_cast_int n = sint (of_nat n :: 32 word)"

lemma static_cast_int_small [simp]: "n \<le> int_max \<Longrightarrow> static_cast_int n = int n"
  by (simp add: static_cast_int_def int_max_def signed_of_nat signed_take_bit_int_eq_self)

text \<open>Serializing gives the announced number of bytes and parsing them gives the message back.\<close>

definition codec_ok :: "'m Codec \<Rightarrow> bool" where
  "codec_ok pb \<longleftrightarrow>
     (\<forall>m bs. pb_SerializeToArray pb m (int (pb_ByteSizeLong pb m)) = Some bs
        \<longrightarrow> length bs = pb_ByteSizeLong pb m \<and> pb_ParseFromArray pb bs (int (length bs)) = Some m \<and> pb_ParseFromString pb bs = Some m)
     \<and> (\<forall>m bs. pb_SerializeToString pb m = Some bs
        \<longrightarrow> pb_ParseFromString pb bs = Some m \<and> pb_ParseFromArray pb bs (int (length bs)) = Some m)"

section \<open>Client calls\<close>

definition UnaryCall_request :: "'q Codec \<Rightarrow> 'q \<Rightarrow> Status + bytes" where
  "UnaryCall_request pb req =
     (let request_size = pb_ByteSizeLong pb req
      in if request_size > int_max then Inl (mk_status RESOURCE_EXHAUSTED ''request serialization exceeds int range'')
         else case pb_SerializeToArray pb req (static_cast_int request_size) of
           None \<Rightarrow> Inl (mk_status INTERNAL ''request serialization failed'')
         | Some req_bytes \<Rightarrow> Inr req_bytes)"

definition UnaryCall_result :: "'p Codec \<Rightarrow> UnaryResultRaw \<Rightarrow> 'p UnaryResult" where
  "UnaryCall_result pb raw =
     (let result = \<lparr>ur_status = rr_status raw, ur_response = None, ur_initial_metadata = rr_initial_metadata raw,
            ur_trailing_metadata = rr_trailing_metadata raw\<rparr>
      in if is_ok (rr_status raw) \<and> rr_has_response raw then
           (case pb_ParseFromArray pb (rr_response_bytes raw) (static_cast_int (length (rr_response_bytes raw))) of
              None \<Rightarrow> result\<lparr>ur_status := mk_status INTERNAL ''response deserialization failed''\<rparr>
            | Some m \<Rightarrow> result\<lparr>ur_response := Some m\<rparr>)
         else if is_ok (rr_status raw) then result\<lparr>ur_status := mk_status INTERNAL ''missing response message''\<rparr>
         else result)"

definition UnaryCall_failed :: "Status \<Rightarrow> 'p UnaryResult" where
  "UnaryCall_failed st = \<lparr>ur_status = st, ur_response = None, ur_initial_metadata = [], ur_trailing_metadata = []\<rparr>"

text \<open>\<open>raw\<close> stands for the awaited \<open>UnaryCallRaw\<close> of the serialized request.\<close>

definition typed_UnaryCall :: "'q Codec \<Rightarrow> 'p Codec \<Rightarrow> (bytes \<Rightarrow> UnaryResultRaw) \<Rightarrow> 'q \<Rightarrow> 'p UnaryResult" where
  "typed_UnaryCall qpb ppb raw req =
     (case UnaryCall_request qpb req of
        Inl st \<Rightarrow> UnaryCall_failed st
      | Inr req_bytes \<Rightarrow> UnaryCall_result ppb (raw req_bytes))"

definition ServerStreamingCall_request :: "'q Codec \<Rightarrow> 'q \<Rightarrow> bytes" where
  "ServerStreamingCall_request pb req = (case pb_SerializeToString pb req of None \<Rightarrow> [] | Some bs \<Rightarrow> bs)"

section \<open>Typed handles\<close>

text \<open>\<open>StatusOr<std::optional<M>>\<close> from what a raw \<open>Read\<close> returned; \<open>what\<close> is the message of a parse failure.\<close>

definition typed_read :: "'m Codec \<Rightarrow> string \<Rightarrow> Status \<times> bytes option \<Rightarrow> 'm option StatusOr" where
  "typed_read pb what r =
     (if \<not> is_ok (fst r) then \<lparr>so_value = None, so_status = fst r\<rparr>
      else case snd r of
        None \<Rightarrow> statusor_of_value None
      | Some data \<Rightarrow>
          (case pb_ParseFromString pb data of
             None \<Rightarrow> \<lparr>so_value = None, so_status = mk_status INTERNAL what\<rparr>
           | Some msg \<Rightarrow> statusor_of_value (Some msg)))"

definition ClientReader_Read :: "'p Codec \<Rightarrow> RawClientReaderImpl \<Rightarrow> 'p option StatusOr option \<times> RawClientReaderImpl" where
  "ClientReader_Read pb r = (case RawClientReader_Read r of
     (res, r') \<Rightarrow> (map_option (typed_read pb ''ClientReader: parse failed'') res, r'))"

definition BidiStream_Read :: "'p Codec \<Rightarrow> RawClientReaderImpl \<Rightarrow> 'p option StatusOr option \<times> RawClientReaderImpl" where
  "BidiStream_Read pb r = (case RawClientReader_Read r of
     (res, r') \<Rightarrow> (map_option (typed_read pb ''BidiStream::Read parse failed'') res, r'))"

definition ServerReader_Read :: "'q Codec \<Rightarrow> StreamMessageQueue \<Rightarrow> 'q option StatusOr option \<times> StreamMessageQueue" where
  "ServerReader_Read pb q = (case RawServerReader_Read q of
     (res, q') \<Rightarrow> (map_option (typed_read pb ''ServerReader: parse failed'') res, q'))"

definition ClientWriter_Write :: "'q Codec \<Rightarrow> 'q \<Rightarrow> RawClientWriterImpl \<Rightarrow> Status \<times> RawClientWriterImpl" where
  "ClientWriter_Write pb msg w = (case pb_SerializeToString pb msg of
     None \<Rightarrow> (mk_status INTERNAL ''ClientWriter: serialization failed'', w)
   | Some bs \<Rightarrow> Enqueue bs w)"

definition BidiStream_Write :: "'q Codec \<Rightarrow> 'q \<Rightarrow> RawClientWriterImpl \<Rightarrow> Status \<times> RawClientWriterImpl" where
  "BidiStream_Write pb msg w = (case pb_SerializeToString pb msg of
     None \<Rightarrow> (mk_status INTERNAL ''BidiStream::Write serialization failed'', w)
   | Some bs \<Rightarrow> Enqueue bs w)"

definition ServerWriter_Write :: "'p Codec \<Rightarrow> 'p \<Rightarrow> RawServerWriterImpl \<Rightarrow> Status \<times> RawServerWriterImpl \<times> resp_action list" where
  "ServerWriter_Write pb msg w = (case pb_SerializeToString pb msg of
     None \<Rightarrow> (mk_status INTERNAL ''ServerWriter: serialization failed'', w, [])
   | Some bs \<Rightarrow> sw_Write bs w)"

text \<open>\<open>None\<close> while \<open>Finish\<close> polls.\<close>

definition FinishAndGetResponse :: "'p Codec \<Rightarrow> RawClientWriterImpl \<Rightarrow> 'p UnaryResult option" where
  "FinishAndGetResponse pb w =
     (case RawClientWriter_Finish w of
        None \<Rightarrow> None
      | Some s \<Rightarrow>
          Some (if is_ok s then
                  if \<not> cw_has_response w
                  then UnaryCall_failed (mk_status INTERNAL ''client-streaming: missing server response'')
                  else case pb_ParseFromString pb (cw_response_bytes w) of
                    None \<Rightarrow> UnaryCall_failed (mk_status INTERNAL ''client-streaming: response parse failed'')
                  | Some m \<Rightarrow> (UnaryCall_failed s)\<lparr>ur_response := Some m\<rparr>
                else UnaryCall_failed s))"

section \<open>Server adapters\<close>

text \<open>
  The type-erased handlers \<open>RegisterUnary\<close>, \<open>RegisterServerStreaming\<close> and \<open>RegisterClientStreaming\<close>
  install, as their coroutine's outcome in the form \<open>us_HandlerDone\<close>, \<open>ss_HandlerDone\<close> and
  \<open>cs_HandlerDone\<close> take it. What \<open>resp_bytes\<close> holds beside an error status is never sent, and is
  empty here. An OK \<open>StatusOr\<close> without a value, whose \<open>operator->\<close> is a null pointer, cannot be
  constructed (\<open>typed_results_wellformed\<close>); it stands for an exception.
\<close>

definition RegisterUnary :: "'q Codec \<Rightarrow> 'p Codec \<Rightarrow> ('q \<Rightarrow> unit + 'p StatusOr) \<Rightarrow> bytes \<Rightarrow> unit + Status \<times> bytes" where
  "RegisterUnary qpb ppb h req_bytes =
     (case pb_ParseFromArray qpb req_bytes (static_cast_int (length req_bytes)) of
        None \<Rightarrow> Inr (mk_status INVALID_ARGUMENT ''failed to parse request'', [])
      | Some req \<Rightarrow>
        (case h req of
           Inl e \<Rightarrow> Inl e
         | Inr result \<Rightarrow>
           if \<not> is_ok (so_status result) then Inr (so_status result, [])
           else case so_value result of
             None \<Rightarrow> Inl ()
           | Some v \<Rightarrow>
             (if pb_ByteSizeLong ppb v > int_max
              then Inr (mk_status RESOURCE_EXHAUSTED ''response serialization exceeds int range'', [])
              else case pb_SerializeToArray ppb v (static_cast_int (pb_ByteSizeLong ppb v)) of
                None \<Rightarrow> Inr (mk_status INTERNAL ''failed to serialize response'', [])
              | Some resp_bytes \<Rightarrow> Inr (status_ok, resp_bytes))))"

definition RegisterServerStreaming :: "'q Codec \<Rightarrow> ('q \<Rightarrow> unit + Status) \<Rightarrow> bytes \<Rightarrow> unit + Status" where
  "RegisterServerStreaming qpb h req_bytes =
     (case pb_ParseFromArray qpb req_bytes (static_cast_int (length req_bytes)) of
        None \<Rightarrow> Inr (mk_status INVALID_ARGUMENT ''failed to parse request'')
      | Some req \<Rightarrow> h req)"

definition RegisterClientStreaming :: "'p Codec \<Rightarrow> unit + 'p StatusOr \<Rightarrow> unit + Status \<times> bytes" where
  "RegisterClientStreaming ppb outcome' =
     (case outcome' of
        Inl e \<Rightarrow> Inl e
      | Inr result \<Rightarrow>
        if \<not> is_ok (so_status result) then Inr (so_status result, [])
        else case so_value result of
          None \<Rightarrow> Inl ()
        | Some v \<Rightarrow>
          (case pb_SerializeToString ppb v of
             None \<Rightarrow> Inr (mk_status INTERNAL ''failed to serialize response'', [])
           | Some resp_bytes \<Rightarrow> Inr (status_ok, resp_bytes)))"

section \<open>Properties\<close>

definition statusor_ok :: "'a StatusOr \<Rightarrow> bool" where
  "statusor_ok r \<longleftrightarrow> (so_value r \<noteq> None) = is_ok (so_status r)"

lemma statusor_ok_intros [simp]:
  "statusor_ok (statusor_of_value v)" "\<not> is_ok st \<Longrightarrow> statusor_ok \<lparr>so_value = None, so_status = st\<rparr>"
  by (simp_all add: statusor_ok_def statusor_of_value_def)

lemma typed_read_ok: "statusor_ok (typed_read pb what r)"
  by (simp add: typed_read_def split: option.split)

text \<open>
  C32: The typed results are well formed whatever bytes and statuses arrive and whatever the message
  classes do: a \<open>StatusOr\<close> of a typed read has a value exactly when it is OK, so reading it never
  dereferences an empty optional; a typed unary or client-streaming result is OK exactly when it
  carries a response, so an OK call always has its message and a failed one never has.
\<close>

theorem typed_results_wellformed:
  "(case ClientReader_Read pb r of (None, _) \<Rightarrow> True | (Some x, _) \<Rightarrow> statusor_ok x)
   \<and> (case BidiStream_Read pb r of (None, _) \<Rightarrow> True | (Some x, _) \<Rightarrow> statusor_ok x)
   \<and> (case ServerReader_Read qpb q of (None, _) \<Rightarrow> True | (Some y, _) \<Rightarrow> statusor_ok y)
   \<and> (is_ok (ur_status (typed_UnaryCall qpb pb raw req)) = (ur_response (typed_UnaryCall qpb pb raw req) \<noteq> None))
   \<and> (case FinishAndGetResponse pb w of None \<Rightarrow> True | Some u \<Rightarrow> is_ok (ur_status u) = (ur_response u \<noteq> None))"
  by (auto simp: ClientReader_Read_def BidiStream_Read_def ServerReader_Read_def typed_read_ok typed_UnaryCall_def
      UnaryCall_request_def UnaryCall_result_def UnaryCall_failed_def FinishAndGetResponse_def Let_def
      split: option.splits sum.splits prod.splits if_splits)

text \<open>
  A request that cannot be serialized is not rejected. \<open>ServerStreamingCall\<close> sends an empty
  message in its place, and since the empty byte string is a valid protobuf message, the server's
  adapter parses it as the default message and runs the handler on that.
\<close>

theorem unserializable_request_runs_handler:
  assumes "pb_SerializeToString pb m = None" "pb_ParseFromArray pb [] 0 = Some dflt"
  shows "RegisterServerStreaming pb h (ServerStreamingCall_request pb m) = h dflt"
  using assms by (simp add: RegisterServerStreaming_def ServerStreamingCall_request_def int_max_def)

text \<open>A message class of flags whose \<open>None\<close> lacks a required field.\<close>

definition flag_codec :: "bool option Codec" where
  "flag_codec = \<lparr>pb_ByteSizeLong = (\<lambda>m. if m = Some True then 1 else 0),
     pb_SerializeToArray = (\<lambda>m n. map_option (\<lambda>b. if b then ''1'' else []) m),
     pb_SerializeToString = map_option (\<lambda>b. if b then ''1'' else []),
     pb_ParseFromArray = (\<lambda>bs n. if bs = [] then Some (Some False) else if bs = ''1'' then Some (Some True) else None),
     pb_ParseFromString = (\<lambda>bs. if bs = [] then Some (Some False) else if bs = ''1'' then Some (Some True) else None)\<rparr>"

lemma flag_codec_ok: "codec_ok flag_codec"
  by (auto simp: codec_ok_def flag_codec_def split: if_splits)

theorem unserializable_request_runs_handler_witness:
  "RegisterServerStreaming flag_codec (\<lambda>m. Inr (mk_status OK (if m = Some False then ''default'' else []))) (ServerStreamingCall_request flag_codec None)
     = Inr (mk_status OK ''default'')"
  using unserializable_request_runs_handler [of flag_codec None "Some False" "\<lambda>m. Inr (mk_status OK (if m = Some False then ''default'' else []))"]
  by (simp add: flag_codec_def)

end
