(* ===== verification/BidiRun.thy ===== *)
theory BidiRun
  imports BidiServer
begin

text \<open>
  A bidirectional server call while it is undisturbed: the DATA chunks of the client, the reads and
  writes of the handler, its completion and nghttp2's pulls, in any order. What the handler has read
  and what nghttp2 has been given are recorded beside the state of the call.
\<close>

datatype bd_event = BdData bytes | BdRead | BdWrite bytes | BdPull nat | BdDone "unit + Status"

record BidiRun =
  br_reads :: "bytes list"
  br_out :: bytes
  br_trailers :: "header_map list"
  br_state :: BidiStreamingCallState

fun bidi_event :: "bd_event \<Rightarrow> BidiRun \<Rightarrow> BidiRun option" where
  "bidi_event (BdData data) r = map_option (\<lambda>s. r\<lparr>br_state := s\<rparr>) (bd_OnData data (br_state r))"
| "bidi_event BdRead r =
     (case bd_HandlerRead (br_state r) of (res, s) \<Rightarrow>
        Some (r\<lparr>br_state := s, br_reads := br_reads r @ (case res of Some (_, Some m) \<Rightarrow> [m] | _ \<Rightarrow> [])\<rparr>))"
| "bidi_event (BdWrite m) r = Some (r\<lparr>br_state := snd (bd_HandlerWrite m (br_state r))\<rparr>)"
| "bidi_event (BdPull len) r =
     (case bd_Generate len (br_state r) of
        (GData bs, s) \<Rightarrow> Some (r\<lparr>br_state := s, br_out := br_out r @ bs\<rparr>)
      | (GTrailers t, s) \<Rightarrow> Some (r\<lparr>br_state := s, br_trailers := br_trailers r @ [t]\<rparr>)
      | (_, s) \<Rightarrow> Some (r\<lparr>br_state := s\<rparr>))"
| "bidi_event (BdDone result) r = Some (r\<lparr>br_state := bd_HandlerDone result (br_state r)\<rparr>)"

primrec bidi_run :: "bd_event list \<Rightarrow> BidiRun \<Rightarrow> BidiRun option" where
  "bidi_run [] r = Some r"
| "bidi_run (e # es) r = Option.bind (bidi_event e r) (bidi_run es)"

definition bidi_started :: "BidiStreamingCallState \<Rightarrow> BidiRun" where
  "bidi_started s = \<lparr>br_reads = [], br_out = [], br_trailers = [], br_state = s\<rparr>"

text \<open>What the events say: the chunks received, the messages written before the handler was done, and its status.\<close>

fun data_chunks :: "bd_event list \<Rightarrow> bytes list" where
  "data_chunks [] = []"
| "data_chunks (BdData c # es) = c # data_chunks es"
| "data_chunks (_ # es) = data_chunks es"

fun handler_writes :: "bd_event list \<Rightarrow> bytes list" where
  "handler_writes [] = []"
| "handler_writes (BdWrite m # es) = m # handler_writes es"
| "handler_writes (BdDone _ # es) = []"
| "handler_writes (_ # es) = handler_writes es"

fun handler_status :: "bd_event list \<Rightarrow> Status option" where
  "handler_status [] = None"
| "handler_status (BdDone result # es) =
     Some (case result of Inl _ \<Rightarrow> mk_status INTERNAL ''handler threw exception'' | Inr st \<Rightarrow> st)"
| "handler_status (_ # es) = handler_status es"

lemma bidi_run_append [simp]: "bidi_run (es @ fs) r = Option.bind (bidi_run es r) (bidi_run fs)"
proof (induction es arbitrary: r)
  case (Cons e es)
  then show ?case by (cases "bidi_event e r") simp_all
qed simp

lemma data_chunks_append [simp]: "data_chunks (es @ fs) = data_chunks es @ data_chunks fs"
  by (induction es rule: data_chunks.induct) simp_all

lemma handler_snoc [simp]:
  "handler_writes (es @ [e]) = handler_writes es @ (if handler_status es = None then handler_writes [e] else [])"
  "handler_status (es @ [e]) = (if handler_status es = None then handler_status [e] else handler_status es)"
  by (induction es rule: handler_writes.induct) simp_all

section \<open>Two halves of an invariant\<close>

text \<open>The receiving half follows the parser, the sending half follows the writer.\<close>

definition receiving :: "nat \<Rightarrow> bytes list \<Rightarrow> BidiRun \<Rightarrow> bool" where
  "receiving m chunks r \<longleftrightarrow>
     (\<exists>st. feeds (stream_feed sp_loop) (new_StreamingFrameParser m, [], status_ok) chunks
         = Some (bd_parser (br_state r), br_reads r @ q_buffer (bd_queue (br_state r)), st) \<and> is_ok st)
     \<and> q_error (bd_queue (br_state r)) = None \<and> q_eos (bd_queue (br_state r)) = ([] \<in> set chunks)"

definition sending :: "nat \<Rightarrow> bytes list \<Rightarrow> Status option \<Rightarrow> BidiRun \<Rightarrow> bool" where
  "sending m msgs status r \<longleftrightarrow>
     sw_inv (bd_writer (br_state r)) \<and> sw_max_response_size (bd_writer (br_state r)) = m
     \<and> br_out r @ sw_rest (bd_writer (br_state r)) = framed msgs
     \<and> (case status of
          None \<Rightarrow> \<not> sw_finished (bd_writer (br_state r)) \<and> sw_trail_hdrs (bd_writer (br_state r)) = [] \<and> br_trailers r = []
        | Some st \<Rightarrow> sw_finished (bd_writer (br_state r)) \<and> sw_trail_hdrs (bd_writer (br_state r)) = BuildTrailers st [] []
            \<and> list_all (\<lambda>t. t = BuildTrailers st [] [] \<and> sw_rest (bd_writer (br_state r)) = []) (br_trailers r))"

text \<open>An event touches only one half, or preserves the other.\<close>

lemma receiving_cong:
  "bd_parser (br_state r') = bd_parser (br_state r) \<Longrightarrow> bd_queue (br_state r') = bd_queue (br_state r) \<Longrightarrow>
     br_reads r' = br_reads r \<Longrightarrow> receiving m chunks r' = receiving m chunks r"
  by (simp add: receiving_def)

lemma sending_cong:
  "bd_writer (br_state r') = bd_writer (br_state r) \<Longrightarrow> br_out r' = br_out r \<Longrightarrow> br_trailers r' = br_trailers r \<Longrightarrow>
     sending m msgs st r' = sending m msgs st r"
  by (simp add: sending_def split: option.split)

lemma receiving_data:
  assumes "receiving m chunks r" "feeds (stream_feed sp_loop) (new_StreamingFrameParser m, [], status_ok) (chunks @ [c]) = Some (p, ms, st)"
    and "is_ok st"
  shows "\<exists>s. bd_OnData c (br_state r) = Some s \<and> receiving m (chunks @ [c]) (r\<lparr>br_state := s\<rparr>) \<and> bd_writer s = bd_writer (br_state r)"
proof -
  obtain st0 where st0: "feeds (stream_feed sp_loop) (new_StreamingFrameParser m, [], status_ok) chunks
      = Some (bd_parser (br_state r), br_reads r @ q_buffer (bd_queue (br_state r)), st0)" "is_ok st0"
    using assms(1) by (auto simp: receiving_def)
  then obtain ms' where loop: "sp_loop (bd_parser (br_state r)) c = Some (p, ms', st)"
    "ms = br_reads r @ q_buffer (bd_queue (br_state r)) @ ms'"
    using assms(2) by (auto simp: feeds_append stream_feed_def)
  then show ?thesis
    using assms st0 by (cases "c = []") (auto simp: receiving_def bd_OnData_def sp_loop.simps [of _ "[]"])
qed

lemma receiving_read:
  assumes "receiving m chunks r" "bidi_event BdRead r = Some r'"
  shows "receiving m chunks r' \<and> bd_writer (br_state r') = bd_writer (br_state r) \<and> br_out r' = br_out r \<and> br_trailers r' = br_trailers r"
  using assms
  by (cases "q_buffer (bd_queue (br_state r))")
    (auto simp: receiving_def bd_HandlerRead_def RawServerReader_Read_def Pop_def pr_ok_def pr_eos_def)

lemma sending_write:
  assumes "sending m msgs status r" "status = None \<Longrightarrow> length b \<le> m \<and> length b < 2 ^ 32"
    and "r' = r\<lparr>br_state := snd (bd_HandlerWrite b (br_state r))\<rparr>"
  shows "sending m (msgs @ (if status = None then [b] else [])) status r' \<and> bd_parser (br_state r') = bd_parser (br_state r)
    \<and> bd_queue (br_state r') = bd_queue (br_state r)"
proof (cases status)
  case None
  then obtain w' where "sw_Write b (bd_writer (br_state r)) = (status_ok, w', [Resume])" "sw_inv w'" "\<not> sw_finished w'"
    "sw_max_response_size w' = m" "sw_trail_hdrs w' = []" "sw_rest w' = sw_rest (bd_writer (br_state r)) @ framed [b]"
    using sw_Write_frame [of "bd_writer (br_state r)" b] assms(1,2) by (auto simp: sending_def)
  then show ?thesis
    using assms(1,3) None by (simp add: sending_def bd_HandlerWrite_def framed_append)
next
  case (Some st)
  then show ?thesis
    using assms(1,3) by (simp add: sending_def bd_HandlerWrite_def sw_Write_def)
qed

lemma sending_done:
  assumes "sending m msgs status r" "r' = r\<lparr>br_state := bd_HandlerDone result (br_state r)\<rparr>"
  shows "sending m msgs (if status = None then handler_status [BdDone result] else status) r'
    \<and> bd_parser (br_state r') = bd_parser (br_state r) \<and> bd_queue (br_state r') = bd_queue (br_state r)"
  using assms
  by (auto simp: sending_def bd_HandlerDone_def bd_Finish_def sw_Finish_def Let_def split: option.splits sum.splits)

lemma sending_pull:
  assumes "sending m msgs status r" "bidi_event (BdPull n) r = Some r'"
  shows "sending m msgs status r' \<and> bd_parser (br_state r') = bd_parser (br_state r) \<and> bd_queue (br_state r') = bd_queue (br_state r)
    \<and> br_reads r' = br_reads r"
proof (cases "sw_rest (bd_writer (br_state r)) = []")
  case True
  then have "sw_pending (bd_writer (br_state r)) = []"
    using assms(1) by (simp add: sending_def frames_rest_Nil)
  then show ?thesis
    using assms True by (auto simp: sending_def bd_Generate_def sw_generate_def split: option.splits if_splits)
next
  case False
  then obtain bs w' where w': "sw_generate (bd_writer (br_state r)) n = (GData bs, w')" "sw_inv w'"
    "sw_rest (bd_writer (br_state r)) = bs @ sw_rest w'"
    using server_writer.pull_data [of "bd_writer (br_state r)" n] assms(1) by (auto simp: sending_def)
  moreover have "sw_max_response_size w' = sw_max_response_size (bd_writer (br_state r))"
    "sw_finished w' = sw_finished (bd_writer (br_state r))" "sw_trail_hdrs w' = sw_trail_hdrs (bd_writer (br_state r))"
    using w'(1) by (auto simp: sw_generate_def Let_def split: list.splits if_splits)
  moreover have "br_trailers r = []"
    using assms(1) False by (cases status; cases "br_trailers r") (auto simp: sending_def)
  ultimately show ?thesis
    using assms by (auto simp: sending_def bd_Generate_def split: option.splits)
qed

section \<open>All interleavings\<close>

lemma bidi_run_halves:
  assumes "feeds (stream_feed sp_loop) (new_StreamingFrameParser m, [], status_ok) (data_chunks es) = Some (p, ms, st)" "is_ok st"
    and "list_all (\<lambda>b. length b \<le> mresp \<and> length b < 2 ^ 32) (handler_writes es)"
    and "receiving m [] r0" "sending mresp [] None r0"
  shows "\<exists>r. bidi_run es r0 = Some r \<and> receiving m (data_chunks es) r \<and> sending mresp (handler_writes es) (handler_status es) r"
  using assms(1-3)
proof (induction es arbitrary: p ms st rule: rev_induct)
  case Nil
  then show ?case using assms(4,5) by simp
next
  case (snoc e es)
  obtain p1 ms1 st1 where run1: "feeds (stream_feed sp_loop) (new_StreamingFrameParser m, [], status_ok) (data_chunks es) = Some (p1, ms1, st1)"
    using snoc.prems(1) by (auto simp: feeds_append bind_eq_Some_conv)
  moreover have "is_ok st1"
    using snoc.prems(1,2) run1 stream_feed_error_stays [of st1 sp_loop p1 ms1 "data_chunks [e]"] by (auto simp: feeds_append)
  ultimately obtain r where r: "bidi_run es r0 = Some r" "receiving m (data_chunks es) r"
    "sending mresp (handler_writes es) (handler_status es) r"
    using snoc.IH snoc.prems(3) by auto
  show ?case
  proof (cases e)
    case (BdData c)
    then show ?thesis
      using receiving_data [OF r(2), of c p ms st] snoc.prems(1,2) r by (auto simp: sending_def)
  next
    case BdRead
    obtain r' where r': "bidi_event BdRead r = Some r'" by (cases "bd_HandlerRead (br_state r)") simp
    then show ?thesis
      using BdRead r receiving_read [OF r(2) r'] sending_cong [of r' r] by (cases "handler_status es") auto
  next
    case (BdWrite b)
    let ?r = "r\<lparr>br_state := snd (bd_HandlerWrite b (br_state r))\<rparr>"
    have "handler_status es = None \<Longrightarrow> length b \<le> mresp \<and> length b < 2 ^ 32"
      using snoc.prems(3) BdWrite by simp
    from sending_write [OF r(3) this refl] have s: "sending mresp (handler_writes (es @ [e])) (handler_status (es @ [e])) ?r"
      "bd_parser (br_state ?r) = bd_parser (br_state r)" "bd_queue (br_state ?r) = bd_queue (br_state r)"
      using BdWrite by (cases "handler_status es"; simp)+
    then show ?thesis
      using BdWrite r receiving_cong [of ?r r] by simp
  next
    case (BdPull n)
    obtain r' where r': "bidi_event (BdPull n) r = Some r'"
      by (cases "bd_Generate n (br_state r)"; cases "fst (bd_Generate n (br_state r))") auto
    then show ?thesis
      using BdPull r sending_pull [OF r(3) r'] receiving_cong [of r' r] by (cases "handler_status es") auto
  next
    case (BdDone result)
    let ?r = "r\<lparr>br_state := bd_HandlerDone result (br_state r)\<rparr>"
    have "sending mresp (handler_writes (es @ [e])) (handler_status (es @ [e])) ?r"
      "bd_parser (br_state ?r) = bd_parser (br_state r)" "bd_queue (br_state ?r) = bd_queue (br_state r)"
      using sending_done [OF r(3), of ?r result] BdDone by (cases "handler_status es"; simp)+
    then show ?thesis
      using BdDone r receiving_cong [of ?r r] by simp
  qed
qed

lemma bd_Start_halves:
  assumes "s = bd_Start zl now req (new_BidiStreamingCallState m mmeta mresp pid)" "bd_spawned s"
  shows "receiving m [] (bidi_started s)" "sending mresp [] None (bidi_started s)"
    "\<exists>imd. bd_sent s = [WriteHead 200 (MetadataToNghttp2Headers imd (AddCommonHeaders zl [])), EndGenerator]"
  using assms unfolding bd_Start_def
  by (auto simp: new_BidiStreamingCallState_def bd_SendError_def bd_SendHeaders_def receiving_def sending_def bidi_started_def
      new_StreamMessageQueue_def framed_def Let_def split: prod.splits if_splits)

section \<open>Properties\<close>

text \<open>
  C16: A bidirectional call keeps its two directions apart and in order, in every interleaving of
  the client's DATA chunks, the handler's reads and writes, its completion and nghttp2's pulls: the
  callbacks return; the messages the handler has read, followed by those it can still read, are
  exactly the messages the received bytes contain; the bytes given to nghttp2, followed by those still
  queued, are exactly the frames of the messages written before the handler was done; and trailers
  are sent only when all of those bytes are, with the handler's status.
\<close>

theorem bidi_server_interleaved:
  assumes "s = bd_Start zl now req (new_BidiStreamingCallState m mmeta mresp pid)" "bd_spawned s"
    and "lpm_spec sp_accept m (concat (data_chunks es)) = (msgs, Rest partial)"
    and "list_all (\<lambda>b. length b \<le> mresp \<and> length b < 2 ^ 32) (handler_writes es)"
  shows "\<exists>r. bidi_run es (bidi_started s) = Some r
    \<and> br_reads r @ q_buffer (bd_queue (br_state r)) = msgs
    \<and> br_out r @ sw_rest (bd_writer (br_state r)) = framed (handler_writes es)
    \<and> (\<forall>t\<in>set (br_trailers r). handler_status es = Some (ExtractTrailerStatus t) \<and> br_out r = framed (handler_writes es))"
proof -
  obtain p st where f: "feeds (stream_feed sp_loop) (new_StreamingFrameParser m, [], status_ok) (data_chunks es) = Some (p, msgs, st)"
    "is_ok st"
    using sp_stream [of m "data_chunks es"] assms(3) by (auto simp: stream_view_def)
  obtain r where r: "bidi_run es (bidi_started s) = Some r" "receiving m (data_chunks es) r"
    "sending mresp (handler_writes es) (handler_status es) r"
    using bidi_run_halves [OF f assms(4) bd_Start_halves(1,2) [OF assms(1,2)]] by blast
  show ?thesis
  proof (intro exI conjI)
    show "bidi_run es (bidi_started s) = Some r" by (rule r(1))
    show "br_reads r @ q_buffer (bd_queue (br_state r)) = msgs" using r(2) f(1) by (auto simp: receiving_def)
    show "br_out r @ sw_rest (bd_writer (br_state r)) = framed (handler_writes es)" using r(3) by (simp add: sending_def)
    show "\<forall>t\<in>set (br_trailers r). handler_status es = Some (ExtractTrailerStatus t) \<and> br_out r = framed (handler_writes es)"
      using r(3) by (auto simp: sending_def list_all_iff Extract_BuildTrailers split: option.splits)
  qed
qed

theorem bidi_server_interleaved_witness:
  "\<exists>r. bidi_run [BdData (framed [''hi'']), BdRead, BdWrite ''ho'', BdPull 20] (bidi_started
       (bd_Start copy_zlib 0 \<lparr>rq_header = [], rq_host = []\<rparr> (new_BidiStreamingCallState 9 9 9 []))) = Some r
     \<and> br_reads r @ q_buffer (bd_queue (br_state r)) = [''hi'']"
proof -
  let ?s = "bd_Start copy_zlib 0 \<lparr>rq_header = [], rq_host = []\<rparr> (new_BidiStreamingCallState 9 9 9 [])"
  have started: "bd_spawned ?s"
    by (simp add: bd_Start_def new_BidiStreamingCallState_def arm_deadline_def mm_find_def Nghttp2HeadersToMetadata_def Let_def)
  have "lpm_spec sp_accept 9 (framed [''hi''] @ []) = ([''hi''], Rest [])"
    by (subst lpm_spec_framed) (simp_all add: sp_accept_def lpm_spec_short)
  then show ?thesis
    using bidi_server_interleaved [OF refl started, of "[BdData (framed [''hi'']), BdRead, BdWrite ''ho'', BdPull 20]" "[''hi'']" "[]"] by auto
qed

end
