(* ===== verification/EndToEnd.thy ===== *)
theory EndToEnd
  imports ChannelProperties ServerImpl TypedApi BidiRun
begin

text \<open>
  Where the two sides meet: the client's view of the heads, bodies and trailers the server sends, and
  the server's view of the headers and frames the client sends.
\<close>

section \<open>Heads\<close>

lemma reserved_grpc_keys [simp]: "IsReservedKey ''grpc-encoding''" "IsReservedKey ''te''"
  by (simp_all add: IsReservedKey_def)

lemma AddCommonHeaders_no_encoding [simp]: "mm_find (AddCommonHeaders zl []) ''grpc-encoding'' = None"
  unfolding AddCommonHeaders_def by (simp add: mm_find_emplace del: mm_emplace.simps)

lemma str_contains_self: "str_contains ''application/grpc'' ''application/grpc+proto''"
  by simp

text \<open>A head without status opens the call, a trailers-only head completes it with its status.\<close>

lemma server_head_opens:
  assumes h: "h = MetadataToNghttp2Headers imd (AddCommonHeaders zl [])"
  shows "\<not> uc_completed (uc_Attach zl' 200 h (new_ClientCallState ctx))"
    "uc_response_encoding (uc_Attach zl' 200 h (new_ClientCallState ctx)) = None"
    "xs_attached (xs_Attach 200 h (new_ServerStreamingClientCallState ctx))"
proof -
  have find: "mm_find h ''content-type'' = Some (plain_value ''application/grpc+proto'')" "mm_find h ''grpc-encoding'' = None"
    "mm_find h ''grpc-status'' = None"
    by (simp_all add: h find_reserved)
  show opened: "\<not> uc_completed (uc_Attach zl' 200 h (new_ClientCallState ctx))"
    by (simp add: uc_Attach_def is_grpc_head_def find str_contains_self new_ClientCallState_def Let_def)
  show "uc_response_encoding (uc_Attach zl' 200 h (new_ClientCallState ctx)) = None"
    using uc_Attach_open(7) [OF opened] by (simp add: find)
  show "xs_attached (xs_Attach 200 h (new_ServerStreamingClientCallState ctx))"
    by (simp add: xs_Attach_def is_grpc_head_def find str_contains_self new_ServerStreamingClientCallState_def)
qed

lemma trailers_only_completes:
  assumes "mm_find h ''content-type'' = Some (plain_value ''application/grpc+proto'')" "mm_find h ''grpc-encoding'' = None"
    "mm_find h ''grpc-status'' \<noteq> None"
  shows "\<exists>r. uc_completions (uc_Attach zl 200 h (new_ClientCallState ctx)) = [r] \<and> rr_status r = ExtractTrailerStatus h
    \<and> \<not> rr_has_response r"
  using assms by (auto simp: uc_Attach_def is_grpc_head_def str_contains_self new_ClientCallState_def Let_def)

section \<open>Unary calls\<close>

text \<open>What the server sends when the handler has answered, as the client reads it.\<close>

lemma server_answers_error:
  assumes "\<not> us_responded s" "\<not> is_ok st" "result = Inl () \<and> st = mk_status INTERNAL ''handler threw exception'' \<or> result = Inr (st, bs)"
  shows "\<exists>h r. us_sent (us_HandlerDone zl result s) = us_sent s @ [WriteHead 200 h, EndStream]
    \<and> uc_completions (uc_Attach zl' 200 h (new_ClientCallState ctx)) = [r] \<and> rr_status r = st \<and> \<not> rr_has_response r"
proof -
  let ?h = "BuildTrailers st (sc_trailing_metadata (us_ctx s)) (MetadataToNghttp2Headers (sc_initial_metadata (us_ctx s)) (AddCommonHeaders zl []))"
  have "us_sent (us_HandlerDone zl result s) = us_sent s @ [WriteHead 200 ?h, EndStream]"
    using assms by (auto simp: us_HandlerDone_def us_SendResponse_def Let_def)
  moreover have "mm_find ?h ''grpc-encoding'' = None" "mm_find ?h ''grpc-status'' \<noteq> None"
    by (simp_all add: BuildTrailers_find find_reserved)
  ultimately show ?thesis
    using trailers_only_completes [OF head_content_type, of st] head_status by metis
qed

lemma server_answers_value:
  assumes "\<not> us_responded s" "is_ok st" "length bs \<le> us_max_response_size s" "us_max_response_size s < 2 ^ 32"
    and "list_all (\<lambda>n. 0 < n) bufs" "5 + us_max_response_size s < length bufs"
  shows "\<exists>h g g' t. us_sent (us_HandlerDone zl (Inr (st, bs)) s) = us_sent s @ [WriteHead 200 h, EndGenerator]
    \<and> us_gen (us_HandlerDone zl (Inr (st, bs)) s) = Some g
    \<and> pulls response_generate g bufs = (framed [bs], Some (GTrailers t), g') \<and> ExtractTrailerStatus t = st
    \<and> t = BuildTrailers st (sc_trailing_metadata (us_ctx s)) [] \<and> h = MetadataToNghttp2Headers (sc_initial_metadata (us_ctx s)) (AddCommonHeaders zl [])"
proof -
  let ?t = "BuildTrailers st (sc_trailing_metadata (us_ctx s)) []"
  obtain g' where "pulls response_generate
      \<lparr>rg_frame = case EncodeFrame 0 bs of None \<Rightarrow> [] | Some f \<Rightarrow> f, rg_offset = 0, rg_trail_hdrs = ?t\<rparr> bufs
    = (framed [bs], Some (GTrailers ?t), g')"
    using response_pulls [OF _ assms(5), of bs ?t] assms(3,4,6) by auto
  then show ?thesis
    using assms(1-3) by (auto simp: us_HandlerDone_def us_SendResponse_def Let_def Extract_BuildTrailers)
qed

lemma framed_single:
  assumes "length bs < 2 ^ 32"
  shows "EncodeFrame 0 bs = Some (framed [bs])"
  using assms EncodeFrame_Some [of 0 bs] by (auto simp: framed_def)

text \<open>The client reads back the message the server framed.\<close>

lemma client_receives_value:
  assumes "h = MetadataToNghttp2Headers imd (AddCommonHeaders zl [])" "length bs < 2 ^ 32" "length bs \<le> recv_limit ctx"
    and "concat chunks = framed [bs]" "list_all (\<lambda>c. c \<noteq> []) chunks" "is_ok (ExtractTrailerStatus t)"
  shows "\<exists>c r. uc_exchange zl' (uc_Attach zl' 200 h (new_ClientCallState ctx)) chunks eos t = Some c \<and> uc_completions c = [r]
    \<and> rr_status r = ExtractTrailerStatus t \<and> rr_has_response r \<and> rr_response_bytes r = bs
    \<and> rr_initial_metadata r = snd (Nghttp2HeadersToMetadata h [] kMaxMetadataSize)
    \<and> rr_trailing_metadata r = snd (Nghttp2HeadersToMetadata t [] kMaxMetadataSize)"
proof -
  note opened = server_head_opens(1,2) [OF assms(1), of zl' ctx]
  have spec: "decode_spec (recv_limit ctx) (concat chunks) = Message 0 bs"
    using decode_spec_EncodeFrame [OF framed_single [OF assms(2)], of "recv_limit ctx"] assms(3,4) by simp
  show ?thesis
    using uc_exchange_answer [of "uc_Attach zl' 200 h (new_ClientCallState ctx)" chunks eos t zl'] opened(1,2) uc_Attach_open [OF opened(1)]
      assms(5,6) spec
    by (auto simp: response_spec_def uc_answer_def)
qed

text \<open>The server hands the handler the message the client framed, whatever encoding was negotiated.\<close>

lemma us_OnData_limits: "us_OnData zl data s = Some s' \<Longrightarrow> us_max_response_size s' = us_max_response_size s"
  by (auto simp: us_OnData_def us_OnRequestEnd_def us_SendError_def TakePayload_def Let_def split: if_splits option.splits)

lemma us_feeds_limits: "feeds (\<lambda>s data. us_OnData zl data s) s chunks = Some s' \<Longrightarrow> us_max_response_size s' = us_max_response_size s"
  by (induction chunks arbitrary: s) (auto simp: bind_eq_Some_conv dest: us_OnData_limits)

lemma server_receives_request:
  assumes "\<not> us_responded s" "us_decoder s = new_FrameDecoder (us_max_request_size s)" "length req \<le> us_max_request_size s"
    and "length req < 2 ^ 32" "concat chunks = framed [req]" "list_all (\<lambda>c. c \<noteq> []) chunks"
  shows "\<exists>s'. us_receive zl s chunks = Some s' \<and> \<not> us_responded s' \<and> us_sent s' = us_sent s \<and> us_spawned s' = us_spawned s @ [req]
    \<and> us_max_response_size s' = us_max_response_size s"
proof -
  have "decode_spec (us_max_request_size s) (concat chunks) = Message 0 req"
    using decode_spec_EncodeFrame [OF framed_single [OF assms(4)], of "us_max_request_size s"] assms(3,5) by simp
  then have "request_spec zl (us_request_encoding s) (us_max_request_size s) (concat chunks) = Deliver req"
    by (simp add: request_spec_def)
  then show ?thesis
    using us_receive_outcome [OF assms(1,2,6), of zl] by (auto simp: us_after_request_def dest: us_feeds_limits)
qed

section \<open>Typed messages\<close>

lemma codec_array:
  assumes "codec_ok pb" "pb_ByteSizeLong pb m \<le> int_max" "pb_SerializeToArray pb m (int (pb_ByteSizeLong pb m)) = Some bs"
  shows "length bs = pb_ByteSizeLong pb m" "length bs \<le> int_max" "length bs < 2 ^ 32"
    "pb_ParseFromArray pb bs (static_cast_int (length bs)) = Some m"
proof -
  show len: "length bs = pb_ByteSizeLong pb m"
    using assms(1,3) by (simp add: codec_ok_def)
  then show "length bs \<le> int_max" "length bs < 2 ^ 32"
    using assms(2) by (simp_all add: int_max_def)
  show "pb_ParseFromArray pb bs (static_cast_int (length bs)) = Some m"
    using assms len codec_ok_def [of pb] by (metis static_cast_int_small)
qed

lemma codec_string:
  assumes "codec_ok pb" "pb_SerializeToString pb m = Some bs"
  shows "pb_ParseFromString pb bs = Some m" "length bs \<le> int_max \<Longrightarrow> pb_ParseFromArray pb bs (static_cast_int (length bs)) = Some m"
  using assms by (simp_all add: codec_ok_def)

lemma UnaryCall_request_codec:
  assumes "codec_ok pb" "UnaryCall_request pb m = Inr req"
  shows "length req < 2 ^ 32" "pb_ParseFromArray pb req (static_cast_int (length req)) = Some m"
  using assms codec_array [of pb m req] by (auto simp: UnaryCall_request_def Let_def split: if_splits option.splits)

text \<open>Calling a typed \<open>Read\<close> until it returns no message: the messages, and the status of the last call.\<close>

fun read_until_end :: "('s \<Rightarrow> 'm option StatusOr option \<times> 's) \<Rightarrow> nat \<Rightarrow> 's \<Rightarrow> 'm list \<times> Status option" where
  "read_until_end read 0 r = ([], None)"
| "read_until_end read (Suc n) r =
     (case read r of
        (None, r') \<Rightarrow> ([], None)
      | (Some res, r') \<Rightarrow>
          (case so_value res of
             Some (Some m) \<Rightarrow> (case read_until_end read n r' of (ms, e) \<Rightarrow> (m # ms, e))
           | _ \<Rightarrow> ([], Some (so_status res))))"

lemma RawClientReader_Read_data: "RawClientReader_Read r = (Some (st, Some m), r') \<Longrightarrow> st = status_ok"
  by (auto simp: RawClientReader_Read_def split: prod.splits option.splits if_splits)

lemma RawClientReader_Read_end: "RawClientReader_Read r = (Some (st, None), r') \<Longrightarrow> is_ok st \<Longrightarrow> st = status_ok"
  by (auto simp: RawClientReader_Read_def Pop_def pr_ok_def Let_def split: prod.splits option.splits if_splits list.splits)

lemma typed_reads_messages:
  assumes "\<And>r. read r = (case RawClientReader_Read r of (res, r') \<Rightarrow> (map_option (typed_read pb what) res, r'))"
  shows "read_all n r = (bss, Some st) \<Longrightarrow> map (pb_ParseFromString pb) bss = map Some ms \<Longrightarrow> read_until_end read n r = (ms, Some st)"
proof (induction n arbitrary: r bss ms)
  case (Suc n)
  obtain res r' where r: "RawClientReader_Read r = (res, r')" by fastforce
  show ?case
  proof (cases res)
    case None
    then show ?thesis using Suc.prems r by simp
  next
    case (Some x)
    obtain st' d where x: "x = (st', d)" by fastforce
    show ?thesis
    proof (cases d)
      case None
      then show ?thesis
        using Suc.prems r Some x RawClientReader_Read_end [of r st' r']
        by (cases "is_ok st'") (auto simp: assms typed_read_def statusor_of_value_def)
    next
      case d: (Some m)
      obtain bss' e where rest: "read_all n r' = (bss', e)" by fastforce
      then have bss: "bss = m # bss'" "e = Some st" using Suc.prems(1) r Some x d by auto
      then obtain m' ms' where ms: "ms = m' # ms'" "pb_ParseFromString pb m = Some m'" "map (pb_ParseFromString pb) bss' = map Some ms'"
        using Suc.prems(2) by (cases ms) auto
      have "st' = status_ok" using RawClientReader_Read_data [of r st' m r'] r Some x d by simp
      then show ?thesis
        using Suc.IH [OF rest [unfolded bss(2)] ms(3)] r Some x d ms
        by (simp add: assms typed_read_def statusor_of_value_def)
    qed
  qed
qed simp

lemmas client_reads_messages = typed_reads_messages [OF ClientReader_Read_def] typed_reads_messages [OF BidiStream_Read_def]

lemma server_reads_messages:
  assumes "q_error q = None" "q_eos q" "map (pb_ParseFromString pb) (q_buffer q) = map Some ms" "length ms < n"
  shows "read_until_end (ServerReader_Read pb) n q = (ms, Some status_ok)"
  using assms
proof (induction n arbitrary: q ms)
  case (Suc n)
  then show ?case
    by (cases "q_buffer q"; cases ms)
      (auto simp: ServerReader_Read_def RawServerReader_Read_def Pop_def pr_ok_def pr_eos_def typed_read_def statusor_of_value_def)
qed simp

section \<open>Server calls that have been started\<close>

lemma us_Start_open:
  assumes "s = us_Start zl now req (new_ServerCallState mreq mmeta mresp pid)" "\<not> us_responded s"
  shows "us_decoder s = new_FrameDecoder (us_max_request_size s)" "us_max_request_size s = mreq" "us_max_response_size s = mresp"
    "us_sent s = []" "us_spawned s = []"
  using assms unfolding us_Start_def
  by (auto simp: new_ServerCallState_def us_SendError_def Let_def split: prod.splits option.splits if_splits)

lemma ss_Start_open:
  assumes "s = ss_Start zl now req (new_ServerStreamingCallState mreq mmeta mresp pid)" "\<not> ss_responded s"
  shows "ss_decoder s = new_FrameDecoder mreq" "ss_writer s = new_RawServerWriterImpl mresp" "ss_sent s = []" "ss_spawned s = []"
  using assms unfolding ss_Start_def
  by (auto simp: new_ServerStreamingCallState_def ss_SendError_def Let_def split: prod.splits)

lemma cs_Start_open:
  assumes "s = cs_Start zl now req (new_ClientStreamingCallState mreq mmeta mresp pid)" "\<not> cs_responded s"
  shows "cs_parser s = new_StreamingFrameParser mreq" "cs_queue s = new_StreamMessageQueue" "cs_max_response_size s = mresp" "cs_sent s = []"
    "cs_spawned s"
  using assms unfolding cs_Start_def
  by (auto simp: new_ClientStreamingCallState_def cs_SendError_def Let_def split: prod.splits)

section \<open>Server-streaming calls\<close>

lemma ss_receives_request:
  assumes "\<not> ss_responded s" "ss_decoder s = new_FrameDecoder m" "length req \<le> m" "length req < 2 ^ 32"
    and "concat chunks = framed [req]" "list_all (\<lambda>c. c \<noteq> []) chunks"
  shows "\<exists>s'. ss_receive zl s chunks = Some s' \<and> ss_spawned s' = ss_spawned s @ [req] \<and> ss_writer s' = ss_writer s
    \<and> ss_sent s' = ss_sent s @ [WriteHead 200 (MetadataToNghttp2Headers (sc_initial_metadata (ss_ctx s)) (AddCommonHeaders zl [])), EndGenerator]"
proof -
  obtain d where d: "decode_spec m (concat chunks) = outcome (MarkEos d)"
    "ss_receive zl s chunks = Some (if fd_error d then ss_SendError zl (framing_error d) (s\<lparr>ss_decoder := d\<rparr>)
       else ss_OnRequestEnd zl (s\<lparr>ss_decoder := MarkEos d\<rparr>))"
    using ss_receive_run [OF assms(1,2,6)] .
  moreover have "decode_spec m (concat chunks) = Message 0 req"
    using decode_spec_EncodeFrame [OF framed_single [OF assms(4)], of m] assms(3,5) by simp
  ultimately show ?thesis
    using assms(1)
    by (auto simp: outcome_def MarkEos_def ss_OnRequestEnd_def ss_SendHeaders_def Let_def split: if_splits)
qed

text \<open>The handler's typed writes on the call's writer.\<close>

definition ss_TypedWrite :: "'p Codec \<Rightarrow> 'p \<Rightarrow> ServerStreamingCallState \<Rightarrow> ServerStreamingCallState" where
  "ss_TypedWrite pb m s = (case ServerWriter_Write pb m (ss_writer s) of
     (st, w, acts) \<Rightarrow> s\<lparr>ss_writer := w, ss_sent := ss_sent s @ acts\<rparr>)"

lemma ss_TypedWrites:
  "list_all2 (\<lambda>m bs. pb_SerializeToString pb m = Some bs) ms bss \<Longrightarrow>
     ss_writer (fold (ss_TypedWrite pb) ms s) = snd (sw_Writes bss (ss_writer s))"
proof (induction arbitrary: s rule: list_all2_induct)
  case (Cons m ms bs bss)
  then show ?case
    by (cases "sw_Write bs (ss_writer s)") (simp add: ss_TypedWrite_def ServerWriter_Write_def case_prod_unfold)
qed simp

lemma finished_writer_pulls:
  assumes "sw_inv w" "\<not> sw_finished w" "sw_trail_hdrs w = []" "sw_rest w = framed bss"
    and "list_all (\<lambda>n. 0 < n) bufs" "length (framed bss) < length bufs"
  shows "\<exists>t w'. pulls sw_generate (fst (sw_Finish st w)) bufs = (framed bss, Some (GTrailers t), w') \<and> ExtractTrailerStatus t = st"
proof -
  let ?w = "fst (sw_Finish st w)"
  have "sw_inv ?w" "sw_rest ?w = framed bss" "sw_finished ?w" "sw_trail_hdrs ?w = BuildTrailers st [] []"
    using assms(1-4) by (auto simp: sw_Finish_def)
  then show ?thesis
    using server_writer.pulls_all [of ?w bufs] assms(5,6) by (auto simp: Extract_BuildTrailers)
qed

lemma handler_stream_sent:
  assumes "ss_writer s = new_RawServerWriterImpl m" "list_all2 (\<lambda>m bs. pb_SerializeToString pb m = Some bs) ms bss"
    and "list_all (\<lambda>b. length b \<le> m \<and> length b < 2 ^ 32) bss"
    and "list_all (\<lambda>n. 0 < n) bufs" "length (framed bss) < length bufs"
  shows "\<exists>t w. pulls sw_generate (ss_writer (ss_HandlerDone (Inr st) (fold (ss_TypedWrite pb) ms s))) bufs = (framed bss, Some (GTrailers t), w)
    \<and> ExtractTrailerStatus t = st"
proof -
  obtain w where w: "sw_Writes bss (ss_writer s) = (map (\<lambda>_. status_ok) bss, w)" "sw_inv w" "\<not> sw_finished w" "sw_trail_hdrs w = []"
    "sw_rest w = framed bss"
    using sw_Writes_frames [of "new_RawServerWriterImpl m" bss] assms(1,3) by auto
  moreover have "ss_writer (ss_HandlerDone (Inr st) (fold (ss_TypedWrite pb) ms s)) = fst (sw_Finish st w)"
    using w(1,3) ss_TypedWrites [OF assms(2), of s] by (simp add: ss_HandlerDone_def ss_Finish_def case_prod_unfold)
  ultimately show ?thesis
    using finished_writer_pulls [OF w(2-5) assms(4,5)] by simp
qed

lemma lpm_spec_frames:
  assumes "list_all (\<lambda>p. length p \<le> m \<and> length p < 2 ^ 32) msgs" "accept 0"
  shows "lpm_spec accept m (framed msgs) = (msgs, Rest [])"
  using lpm_spec_framed [OF assms(1), of accept "[]"] assms(2) by (simp add: lpm_spec_short)

lemma serialized_parse:
  assumes "codec_ok pb" "list_all2 (\<lambda>m bs. pb_SerializeToString pb m = Some bs) ms bss"
  shows "map (pb_ParseFromString pb) bss = map Some ms"
  using assms(2) by (induction rule: list_all2_induct) (auto dest: codec_string [OF assms(1)])

lemma client_reads_stream:
  assumes "codec_ok pb" "list_all2 (\<lambda>m bs. pb_SerializeToString pb m = Some bs) ms bss"
    and "head = MetadataToNghttp2Headers imd (AddCommonHeaders zl [])" "list_all (\<lambda>b. length b \<le> recv_limit ctx \<and> length b < 2 ^ 32) bss"
    and "concat chunks = framed bss" "list_all (\<lambda>c. c \<noteq> []) chunks" "length ms < n" "st = ExtractTrailerStatus t"
  shows "\<exists>c. feeds (\<lambda>s copy. xs_OnData copy s) (xs_Attach 200 head (new_ServerStreamingClientCallState ctx)) chunks = Some c
    \<and> read_until_end (ClientReader_Read pb) n (xs_reader (xs_OnTrailers t c)) = (ms, Some (if is_ok st then status_ok else st))
    \<and> RawClientReader_Finish (xs_reader (xs_OnTrailers t c)) = Some st"
proof -
  have "length bss < n" using assms(2,7) list_all2_lengthD [of _ ms bss] by auto
  then obtain c where "feeds (\<lambda>s copy. xs_OnData copy s) (xs_Attach 200 head (new_ServerStreamingClientCallState ctx)) chunks = Some c"
    "read_all n (xs_reader (xs_OnTrailers t c)) = (bss, Some (if is_ok st then status_ok else st))"
    "RawClientReader_Finish (xs_reader (xs_OnTrailers t c)) = Some st"
    using xs_receives [OF refl server_head_opens(3) [OF assms(3)] assms(6), of ctx bss "Rest []" n st t] assms(5,8)
      lpm_spec_frames [OF assms(4), of "\<lambda>_. True"] by auto
  then show ?thesis
    using client_reads_messages(1) [OF _ serialized_parse [OF assms(1,2)]] by blast
qed

section \<open>Client-streaming calls\<close>

text \<open>A request stream that has ended carries everything written before \<open>WritesDone\<close>.\<close>

lemma client_stream_sent:
  assumes "cw_run es = (out, w)" "fst (cw_Pull n w) = GEnd" "before_done es = written es"
  shows "out = framed (written es)"
proof -
  have good: "cw_good es (out, w)" using cw_run_good [of es] assms(1) by simp
  have "cw_pending w = []" "cw_writes_done w"
    using assms(2) by (auto simp: cw_Pull_def ClientWriterGenerator_def Let_def split: list.splits if_splits)
  then show ?thesis
    using good assms(3) by (auto simp: cw_good_def frames_rest_def split: if_splits)
qed

lemma written_short: "list_all (\<lambda>b. length b < 2 ^ 32) (written es)"
  by (induction es rule: written.induct) simp_all

lemma server_queue_messages:
  assumes "\<not> cs_responded s" "cs_parser s = new_StreamingFrameParser m" "cs_queue s = new_StreamMessageQueue"
    and "list_all (\<lambda>b. length b \<le> m \<and> length b < 2 ^ 32) bss" "concat chunks = framed bss" "list_all (\<lambda>c. c \<noteq> []) chunks"
    and "map (pb_ParseFromString pb) bss = map Some ms" "length ms < n"
  shows "\<exists>s'. feeds (\<lambda>s data. cs_OnData zl data s) s (chunks @ [[]]) = Some s' \<and> \<not> cs_responded s' \<and> cs_sent s' = cs_sent s
    \<and> cs_max_response_size s' = cs_max_response_size s
    \<and> read_until_end (ServerReader_Read pb) n (cs_queue s') = (ms, Some status_ok)"
proof -
  have "lpm_spec sp_accept m (concat chunks) = (bss, Rest [])"
    using lpm_spec_frames [OF assms(4)] assms(5) by (simp add: sp_accept_def)
  then obtain p where "feeds (\<lambda>s data. cs_OnData zl data s) s (chunks @ [[]])
      = Some (s\<lparr>cs_parser := p, cs_queue := SetEos (fold Push bss (cs_queue s))\<rparr>)"
    using cs_receives [OF assms(1,2,6)] by blast
  then show ?thesis
    using assms(1,3,7,8) server_reads_messages [of "SetEos (fold Push bss new_StreamMessageQueue)" pb ms n]
    by (simp add: new_StreamMessageQueue_def)
qed

lemma server_stream_answer:
  assumes "\<not> cs_responded s" "is_ok st" "length bs \<le> cs_max_response_size s" "cs_max_response_size s < 2 ^ 32"
    and "list_all (\<lambda>n. 0 < n) bufs" "5 + cs_max_response_size s < length bufs"
  shows "\<exists>g g' t. cs_sent (cs_HandlerDone zl (Inr (st, bs)) s)
      = cs_sent s @ [WriteHead 200 (MetadataToNghttp2Headers (sc_initial_metadata (cs_ctx s)) (AddCommonHeaders zl [])), EndGenerator]
    \<and> cs_gen (cs_HandlerDone zl (Inr (st, bs)) s) = Some g
    \<and> pulls response_generate g bufs = (framed [bs], Some (GTrailers t), g') \<and> ExtractTrailerStatus t = st"
proof -
  let ?t = "BuildTrailers st (sc_trailing_metadata (cs_ctx s)) []"
  obtain g' where "pulls response_generate
      \<lparr>rg_frame = case EncodeFrame 0 bs of None \<Rightarrow> [] | Some f \<Rightarrow> f, rg_offset = 0, rg_trail_hdrs = ?t\<rparr> bufs
    = (framed [bs], Some (GTrailers ?t), g')"
    using response_pulls [OF _ assms(5), of bs ?t] assms(3,4,6) by auto
  then show ?thesis
    using assms(1-3) by (auto simp: cs_HandlerDone_def cs_SendResponse_def AddCommonHeadersCS_eq Let_def Extract_BuildTrailers)
qed

lemma client_stream_response:
  assumes "head = MetadataToNghttp2Headers imd (AddCommonHeaders zl [])" "\<not> xc_closed call" "xc_lpm call = new_ClientLpm"
    and "length bs \<le> recv_limit (xc_ctx call)" "length bs < 2 ^ 32" "pb_ParseFromString pb bs = Some v"
    and "concat chunks = framed [bs]" "list_all (\<lambda>c. c \<noteq> []) chunks" "is_ok (ExtractTrailerStatus t)"
  shows "\<exists>call' u. Option.bind (feeds (\<lambda>s copy. xc_OnData copy s) (xc_Attach 200 head call) chunks) (\<lambda>s'. Some (xc_OnTrailers t s')) = Some call'
    \<and> FinishAndGetResponse pb (xc_writer call') = Some u \<and> ur_status u = ExtractTrailerStatus t \<and> ur_response u = Some v"
proof -
  have "mm_find head ''content-type'' = Some (plain_value ''application/grpc+proto'')" "mm_find head ''grpc-status'' = None"
    by (simp_all add: assms(1) find_reserved)
  then have att: "xc_Attach 200 head call = call\<lparr>xc_attached := True\<rparr>"
    by (simp add: xc_Attach_def is_grpc_head_def str_contains_self)
  obtain call' where call': "Option.bind (feeds (\<lambda>s copy. xc_OnData copy s) (xc_Attach 200 head call) chunks) (\<lambda>s'. Some (xc_OnTrailers t s')) = Some call'"
    "xc_writer call' = cw_SetFinalStatus (ExtractTrailerStatus t) (fold set_response [bs] (xc_writer call))"
    using xc_receives [of "xc_Attach 200 head call" chunks "[bs]" "[]" t] assms(2-5,7,8) lpm_spec_frames [of "recv_limit (xc_ctx call)" "[bs]" "\<lambda>_. True"]
    by (auto simp: att)
  then show ?thesis
    using assms(6,9)
    by (intro exI [of _ call']) (simp add: FinishAndGetResponse_def RawClientWriter_Finish_def cw_SetFinalStatus_def UnaryCall_failed_def)
qed

lemma client_streaming_answered:
  assumes "codec_ok ppb" "pb_SerializeToString ppb v = Some resp" "\<not> cs_responded s" "cs_sent s = []" "cs_max_response_size s = mresp"
    and "length resp \<le> mresp" "mresp < 2 ^ 32" "list_all (\<lambda>n. 0 < n) bufs" "5 + mresp < length bufs"
  shows "\<exists>head g wire t g'.
      cs_sent (cs_HandlerDone zl (RegisterClientStreaming ppb (Inr (statusor_of_value v))) s) = [WriteHead 200 head, EndGenerator]
    \<and> cs_gen (cs_HandlerDone zl (RegisterClientStreaming ppb (Inr (statusor_of_value v))) s) = Some g
    \<and> pulls response_generate g bufs = (wire, Some (GTrailers t), g')
    \<and> (\<forall>call chunks'. \<not> xc_closed call \<and> xc_lpm call = new_ClientLpm \<and> length resp \<le> recv_limit (xc_ctx call)
          \<and> concat chunks' = wire \<and> list_all (\<lambda>c. c \<noteq> []) chunks' \<longrightarrow>
         (\<exists>call' u. Option.bind (feeds (\<lambda>s copy. xc_OnData copy s) (xc_Attach 200 head call) chunks') (\<lambda>s'. Some (xc_OnTrailers t s')) = Some call'
            \<and> FinishAndGetResponse ppb (xc_writer call') = Some u \<and> ur_status u = status_ok \<and> ur_response u = Some v))"
proof -
  let ?head = "MetadataToNghttp2Headers (sc_initial_metadata (cs_ctx s)) (AddCommonHeaders zl [])"
  have h: "RegisterClientStreaming ppb (Inr (statusor_of_value v)) = Inr (status_ok, resp)"
    using assms(2) by (simp add: RegisterClientStreaming_def statusor_of_value_def)
  obtain g g' t where g: "cs_sent (cs_HandlerDone zl (Inr (status_ok, resp)) s) = [WriteHead 200 ?head, EndGenerator]"
    "cs_gen (cs_HandlerDone zl (Inr (status_ok, resp)) s) = Some g"
    "pulls response_generate g bufs = (framed [resp], Some (GTrailers t), g')" "ExtractTrailerStatus t = status_ok"
    using server_stream_answer [of s status_ok resp bufs zl] assms(3-9) by auto
  have "length resp < 2 ^ 32" using assms(6,7) by linarith
  then show ?thesis
    unfolding h using g client_stream_response [OF refl, of _ resp ppb v _ t "sc_initial_metadata (cs_ctx s)" zl] codec_string(1) [OF assms(1,2)]
    by (intro exI [of _ ?head] exI [of _ g] exI [of _ "framed [resp]"] exI [of _ t] exI [of _ g']) auto
qed

section \<open>Bidirectional calls\<close>

lemma xb_Attach_opens:
  "xb_Attach 200 (MetadataToNghttp2Headers imd (AddCommonHeaders zl [])) call = call\<lparr>xb_attached := True\<rparr>"
  by (simp add: xb_Attach_def is_grpc_head_def str_contains_self find_reserved)

lemma bidi_client_reads:
  assumes "codec_ok pb" "list_all2 (\<lambda>m bs. pb_SerializeToString pb m = Some bs) ms bss"
    and "head = MetadataToNghttp2Headers imd (AddCommonHeaders zl [])" "\<not> xb_closed call" "xb_lpm call = new_ClientLpm"
    and "xb_reader call = new_RawClientReaderImpl" "list_all (\<lambda>b. length b \<le> recv_limit (xb_ctx call) \<and> length b < 2 ^ 32) bss"
    and "concat chunks = framed bss" "list_all (\<lambda>c. c \<noteq> []) chunks" "length ms < n" "st = ExtractTrailerStatus t"
  shows "\<exists>call'. feeds (\<lambda>s copy. xb_OnData copy s) (xb_Attach 200 head call) chunks = Some call'
    \<and> read_until_end (BidiStream_Read pb) n (xb_reader (xb_OnTrailers t call')) = (ms, Some (if is_ok st then status_ok else st))
    \<and> RawClientReader_Finish (xb_reader (xb_OnTrailers t call')) = Some st
    \<and> RawClientWriter_Finish (xb_writer (xb_OnTrailers t call')) = Some st"
proof -
  note att = xb_Attach_opens [of imd zl call, folded assms(3)]
  have len: "length bss < n" using assms(2,10) list_all2_lengthD [of _ ms bss] by auto
  obtain call' where call': "feeds (\<lambda>s copy. xb_OnData copy s) (xb_Attach 200 head call) chunks = Some call'"
    "xb_reader (xb_OnTrailers t call') = reader_status st ((xb_reader call)\<lparr>cr_msg_queue := fold Push bss (cr_msg_queue (xb_reader call))\<rparr>)"
    "xb_writer (xb_OnTrailers t call') = cw_SetFinalStatus st (xb_writer call)"
    using xb_receives [of "xb_Attach 200 head call" chunks bss "[]" t] assms(4,5,8,9,11) lpm_spec_frames [OF assms(7), of "\<lambda>_. True"]
    by (auto simp: att)
  moreover have "read_all n (xb_reader (xb_OnTrailers t call')) = (bss, Some (if is_ok st then status_ok else st))"
    using len by (subst read_all_queue) (simp_all add: call'(2) assms(6) reader_status_def cr_SetFinalStatus_def
        new_RawClientReaderImpl_def new_StreamMessageQueue_def)
  ultimately show ?thesis
    using client_reads_messages(2) [OF _ serialized_parse [OF assms(1,2)]]
    by (intro exI [of _ call']) (auto simp: reader_status_def cr_SetFinalStatus_def cw_SetFinalStatus_def
        RawClientReader_Finish_def RawClientWriter_Finish_def)
qed

section \<open>Request headers\<close>

lemma client_headers:
  assumes "BuildStreamingGrpcHeaders now opts ctx = Inr hdrs"
  shows "mm_find hdrs ''content-type'' = Some (plain_value ''application/grpc+proto'')" "mm_find hdrs ''te'' = Some (plain_value ''trailers'')"
    and "mm_find hdrs ''grpc-timeout'' = (case ctx of
           Some c \<Rightarrow> if cc_deadline c \<noteq> None \<and> FormatTimeout (deadline_from_now now c) \<noteq> []
             then Some (plain_value (FormatTimeout (deadline_from_now now c))) else None
         | None \<Rightarrow> None)"
  using assms unfolding BuildStreamingGrpcHeaders_def Let_def
  by (auto simp: find_reserved mm_find_emplace IsReservedKey_def simp del: mm_emplace.simps split: option.splits if_splits)

lemma client_encoding:
  assumes "BuildStreamingGrpcHeaders now opts ctx = Inr hdrs"
  shows "mm_find hdrs ''grpc-encoding'' = (case ctx of
      Some c \<Rightarrow> if cc_compression_algorithm c \<noteq> ''identity'' then Some (plain_value (cc_compression_algorithm c)) else None
    | None \<Rightarrow> None)"
  using assms unfolding BuildStreamingGrpcHeaders_def Let_def
  by (auto simp: find_reserved mm_find_emplace IsReservedKey_def simp del: mm_emplace.simps split: option.splits if_splits)

text \<open>A call that its \<open>Start\<close> has not rejected.\<close>

fun accepted :: "ServerCall \<Rightarrow> bool" where
  "accepted (UnaryCall s) \<longleftrightarrow> \<not> us_responded s"
| "accepted (ServerStreamingCall s) \<longleftrightarrow> \<not> ss_responded s"
| "accepted (ClientStreamingCall s) \<longleftrightarrow> \<not> cs_responded s"
| "accepted (BidiCall s) \<longleftrightarrow> bd_spawned s"

lemma metadata_fits: "is_ok (fst (Nghttp2HeadersToMetadata h [] m)) \<longleftrightarrow> TotalSize (received h) \<le> m"
  using received_metadata [of h m] by blast

lemma started_call_accepted:
  "accepted (started_call zl now req sv kind) \<longleftrightarrow> TotalSize (received (rq_header req)) \<le> so_max_metadata_size (sv_opts sv)
     \<and> (kind = Unary \<longrightarrow> (case mm_find (rq_header req) ''grpc-encoding'' of None \<Rightarrow> True
          | Some hv \<Rightarrow> hv_value hv = ''identity'' \<or> ParseEncoding zl (hv_value hv) \<noteq> None))"
  unfolding metadata_fits [symmetric]
  by (cases kind) (auto simp: started_call_def us_Start_def ss_Start_def cs_Start_def bd_Start_def new_ServerCallState_def
      new_ServerStreamingCallState_def new_ClientStreamingCallState_def new_BidiStreamingCallState_def us_SendError_def ss_SendError_def
      cs_SendError_def bd_SendError_def bd_SendHeaders_def HttpRequest.defs Let_def case_prod_unfold split: option.splits if_splits)

end
