(* ===== verification/MetadataExchange.thy ===== *)
theory MetadataExchange
  imports EndToEnd
begin

text \<open>
  Application metadata from end to end: what one side adds to its context is what the other side
  finds in its own, past the headers the two protocol layers add.
\<close>

section \<open>Header maps that carry metadata\<close>

lemma values_received:
  "mm_values (received h) k = (if visible k then map (\<lambda>hv. app_value k (hv_value hv)) (mm_values h k) else [])"
  by (induction h) (auto simp: received_def mm_values_def)

lemma values_sendable: "mm_values (filter (sendable \<circ> fst) md) k = (if sendable k then mm_values md k else [])"
  by (induction md) (auto simp: mm_values_def)

lemma values_sent:
  assumes "mm_sorted out"
  shows "mm_values (MetadataToNghttp2Headers md out) k
    = mm_values out k @ (if sendable k then map (\<lambda>v. plain_value (wire_value k v)) (mm_values md k) else [])"
proof -
  have "map snd (filter (\<lambda>e. fst e = k) (map (\<lambda>(k, v). (k, plain_value (wire_value k v))) (filter (sendable \<circ> fst) md)))
      = (if sendable k then map (\<lambda>v. plain_value (wire_value k v)) (mm_values md k) else [])"
    by (induction md) (auto simp: mm_values_def)
  then show ?thesis
    by (simp add: MetadataToNghttp2Headers_fold mm.vals_fold [OF assms])
qed

lemma sorted_sent: "mm_sorted out \<Longrightarrow> mm_sorted (MetadataToNghttp2Headers md out)"
  by (simp add: MetadataToNghttp2Headers_fold mm.invar_fold)

lemma sorted_received: "mm_sorted h \<Longrightarrow> mm_sorted (received h)"
  by (simp add: received_def mm_sorted_map_values [where f = "\<lambda>k hv. app_value k (hv_value hv)"] mm_sorted_filter)

text \<open>Headers the application cannot see do not disturb the metadata sent beside them.\<close>

lemma received_sent:
  assumes "mm_sorted md" "mm_sorted out" "\<And>k. visible k \<Longrightarrow> mm_find out k = None"
  shows "received (MetadataToNghttp2Headers md out) = filter (sendable \<circ> fst) md"
proof (rule mm_eqI)
  show "mm_sorted (received (MetadataToNghttp2Headers md out))" "mm_sorted (filter (sendable \<circ> fst) md)"
    by (simp_all add: sorted_received sorted_sent assms mm_sorted_filter)
  fix k
  have "mm_values out k = []" if "visible k"
    using assms(3) [OF that] by (simp add: mm_find_values split: list.splits)
  then show "mm_values (received (MetadataToNghttp2Headers md out)) k = mm_values (filter (sendable \<circ> fst) md) k"
    by (auto simp: values_received values_sent [OF assms(2)] values_sendable [unfolded comp_def] comp_def sendable_visible)
qed

lemma metadata_arrives:
  assumes "mm_sorted md" "mm_sorted out" "\<And>k. visible k \<Longrightarrow> mm_find out k = None" "TotalSize (filter (sendable \<circ> fst) md) \<le> m"
  shows "Nghttp2HeadersToMetadata (MetadataToNghttp2Headers md out) [] m = (status_ok, filter (sendable \<circ> fst) md)"
  using headers_loop_ok [of 0 "MetadataToNghttp2Headers md out" m "[]"] assms
  by (simp add: Nghttp2HeadersToMetadata_def received_sent mm_insert_all_sorted mm_sorted_filter)

lemma protocol_keys_invisible:
  "\<not> visible ''grpc-accept-encoding''" "\<not> visible ''content-type''" "\<not> visible ''grpc-status''" "\<not> visible ''grpc-message''"
  "\<not> visible ''grpc-status-details-bin''" "\<not> visible ''te''" "\<not> visible ''grpc-timeout''" "\<not> visible ''grpc-encoding''"
  by (simp_all add: visible_def IsGrpcInternal_def kSkip_def)

lemma common_headers_invisible: "visible k \<Longrightarrow> mm_find (AddCommonHeaders zl []) k = None"
  unfolding AddCommonHeaders_def using protocol_keys_invisible
  by (auto simp: mm_find_emplace simp del: mm_emplace.simps split: if_splits)

lemma status_headers_invisible:
  assumes "mm_sorted out" "mm_sorted md" "\<And>k. visible k \<Longrightarrow> mm_find out k = None" "TotalSize (filter (sendable \<circ> fst) md) \<le> m"
  shows "Nghttp2HeadersToMetadata (BuildTrailers st md out) [] m = (status_ok, filter (sendable \<circ> fst) md)"
  unfolding BuildTrailers_def Let_def using assms protocol_keys_invisible
  by (intro metadata_arrives) (auto simp: mm_find_emplace simp del: mm_emplace.simps split: if_splits)

section \<open>Both directions\<close>

lemma head_metadata:
  assumes "mm_sorted imd" "TotalSize (filter (sendable \<circ> fst) imd) \<le> m"
  shows "Nghttp2HeadersToMetadata (MetadataToNghttp2Headers imd (AddCommonHeaders zl [])) [] m = (status_ok, filter (sendable \<circ> fst) imd)"
  using assms by (intro metadata_arrives common_headers_invisible) simp_all

text \<open>The headers of a request that the application can see are its metadata and \<open>user-agent\<close>.\<close>

lemma request_metadata:
  assumes "BuildStreamingGrpcHeaders now opts (Some c) = Inr hdrs" "k \<noteq> ''user-agent''"
  shows "mm_values (received hdrs) k = (if sendable k then mm_values (cc_send_metadata c) k else [])"
proof -
  define h1 where "h1 = mm_emplace ''user-agent'' (plain_value (co_user_agent opts))
    (mm_emplace ''te'' (plain_value ''trailers'') (mm_emplace ''content-type'' (plain_value ''application/grpc+proto'') []))"
  define h2 where "h2 = (if cc_deadline c \<noteq> None \<and> FormatTimeout (deadline_from_now now c) \<noteq> []
    then mm_emplace ''grpc-timeout'' (plain_value (FormatTimeout (deadline_from_now now c))) h1 else h1)"
  define out where "out = (if cc_compression_algorithm c \<noteq> ''identity''
    then mm_emplace ''grpc-encoding'' (plain_value (cc_compression_algorithm c)) h2 else h2)"
  have "hdrs = MetadataToNghttp2Headers (cc_send_metadata c) out"
    using assms(1) by (auto simp: BuildStreamingGrpcHeaders_def h1_def h2_def out_def Let_def simp del: mm_emplace.simps split: if_splits)
  moreover have "mm_sorted h1" "mm_sorted h2" "mm_sorted out"
    by (simp_all add: h1_def h2_def out_def del: mm_emplace.simps)
  moreover have "mm_find h1 k = None" "mm_find h2 k = None" "mm_find out k = None" if "visible k"
  proof -
    show h1: "mm_find h1 k = None"
      using that assms(2) protocol_keys_invisible by (auto simp: h1_def mm_find_emplace simp del: mm_emplace.simps)
    show h2: "mm_find h2 k = None"
      using that protocol_keys_invisible h1 \<open>mm_sorted h1\<close> by (auto simp: h2_def mm_find_emplace simp del: mm_emplace.simps)
    show "mm_find out k = None"
      using that protocol_keys_invisible h2 \<open>mm_sorted h2\<close> by (auto simp: out_def mm_find_emplace simp del: mm_emplace.simps)
  qed
  ultimately have out: "hdrs = MetadataToNghttp2Headers (cc_send_metadata c) out" "mm_sorted out" "visible k \<Longrightarrow> mm_find out k = None"
    by blast+
  have "mm_values out k = []" if "visible k"
    using out(3) [OF that] by (simp add: mm_find_values split: list.splits)
  then show ?thesis
    by (auto simp: out(1) values_received values_sent [OF out(2)] comp_def sendable_visible)
qed

lemma server_sees_metadata:
  assumes "BuildStreamingGrpcHeaders now opts (Some c) = Inr hdrs" "rq_header req = hdrs" "k \<noteq> ''user-agent''"
    and "s = us_Start zl now' req (new_ServerCallState mreq mmeta mresp pid)" "\<not> us_responded s"
  shows "mm_values (sc_client_metadata (us_ctx s)) k = (if sendable k then mm_values (cc_send_metadata c) k else [])"
proof -
  obtain st md where conv: "Nghttp2HeadersToMetadata (rq_header req) [] mmeta = (st, md)" by fastforce
  have "is_ok st" "sc_client_metadata (us_ctx s) = md"
    using assms(4,5) conv unfolding us_Start_def
    by (auto simp: new_ServerCallState_def us_SendError_def set_peer_def Let_def case_prod_unfold split: option.splits if_splits)
  then show ?thesis
    using received_metadata [of "rq_header req" mmeta k] request_metadata [OF assms(1,3)] assms(2) conv by simp
qed

text \<open>Maps that only \<open>ValidateAndAdd\<close> has filled: every entry may be sent.\<close>

definition api_metadata :: "MetadataMap \<Rightarrow> bool" where
  "api_metadata md \<longleftrightarrow> mm_sorted md \<and> list_all (sendable \<circ> fst) md"

lemma api_metadata_Nil [simp]: "api_metadata []"
  by (simp add: api_metadata_def)

lemma api_metadata_add: "api_metadata m \<Longrightarrow> ValidateAndAdd m k v = Inr m' \<Longrightarrow> api_metadata m'"
  by (auto simp: api_metadata_def ValidateAndAdd_def sendable_def list_all_iff simp del: mm_emplace.simps split: if_splits)

lemma api_metadata_filter: "api_metadata md \<Longrightarrow> filter (sendable \<circ> fst) md = md"
  by (simp add: api_metadata_def list_all_iff)

lemma api_metadata_values: "api_metadata md \<Longrightarrow> (if sendable k then mm_values md k else []) = mm_values md k"
  using values_sendable [of md k] by (simp add: api_metadata_filter)

lemma us_OnData_client_metadata: "us_OnData zl data s = Some s' \<Longrightarrow> sc_client_metadata (us_ctx s') = sc_client_metadata (us_ctx s)"
  by (auto simp: us_OnData_def us_OnRequestEnd_def us_SendError_def TakePayload_def Let_def split: if_splits option.splits)

lemma us_feeds_client_metadata:
  "feeds (\<lambda>s data. us_OnData zl data s) s chunks = Some s' \<Longrightarrow> sc_client_metadata (us_ctx s') = sc_client_metadata (us_ctx s)"
  by (induction chunks arbitrary: s) (auto simp: bind_eq_Some_conv dest: us_OnData_client_metadata)

section \<open>Properties\<close>

text \<open>
  C6: Metadata from end to end: on a unary call the handler's context holds, for every key but the
  channel's own \<open>user-agent\<close>, exactly the values the caller added, in order; and the initial and
  trailing metadata the handler added are those of the one result the caller gets, however the bodies
  are cut. The metadata of either side is any that \<open>ValidateAndAdd\<close> accepts, within the receiver's limit.
\<close>

theorem metadata_end_to_end:
  assumes "BuildStreamingGrpcHeaders now opts (Some cl) = Inr hdrs" "rq_header hreq = hdrs" "api_metadata (cc_send_metadata cl)"
    and "s = us_Start zl now' hreq (new_ServerCallState mreq mmeta mresp pid)" "\<not> us_responded s"
    and "length req \<le> mreq" "length req < 2 ^ 32" "concat chunks = framed [req]" "list_all (\<lambda>c. c \<noteq> []) chunks"
    and "api_metadata (sc_initial_metadata c)" "TotalSize (sc_initial_metadata c) \<le> kMaxMetadataSize"
    and "api_metadata (sc_trailing_metadata c)" "TotalSize (sc_trailing_metadata c) \<le> kMaxMetadataSize"
    and "length resp \<le> mresp" "mresp < 2 ^ 32" "length resp \<le> recv_limit ctx" "list_all (\<lambda>n. 0 < n) bufs" "5 + mresp < length bufs"
  shows "\<exists>s' head g wire t g'. us_receive zl s chunks = Some s' \<and> us_spawned s' = [req]
    \<and> (\<forall>k. k \<noteq> ''user-agent'' \<longrightarrow> mm_values (sc_client_metadata (us_ctx s')) k = mm_values (cc_send_metadata cl) k)
    \<and> us_sent (us_HandlerDone zl (Inr (status_ok, resp)) (s'\<lparr>us_ctx := c\<rparr>)) = [WriteHead 200 head, EndGenerator]
    \<and> us_gen (us_HandlerDone zl (Inr (status_ok, resp)) (s'\<lparr>us_ctx := c\<rparr>)) = Some g
    \<and> pulls response_generate g bufs = (wire, Some (GTrailers t), g')
    \<and> (\<forall>chunks'. concat chunks' = wire \<and> list_all (\<lambda>c. c \<noteq> []) chunks' \<longrightarrow>
         (\<exists>call raw. uc_exchange zl' (uc_Attach zl' 200 head (new_ClientCallState ctx)) chunks' eos t = Some call \<and> uc_completions call = [raw]
            \<and> rr_initial_metadata raw = sc_initial_metadata c \<and> rr_trailing_metadata raw = sc_trailing_metadata c))"
proof -
  note start = us_Start_open [OF assms(4,5)]
  obtain s' where s': "us_receive zl s chunks = Some s'" "\<not> us_responded s'" "us_sent s' = []" "us_spawned s' = [req]"
    "us_max_response_size s' = mresp"
    using server_receives_request [OF assms(5) start(1) _ assms(7-9), of zl] start assms(6) by auto
  have seen: "mm_values (sc_client_metadata (us_ctx s')) k = mm_values (cc_send_metadata cl) k" if "k \<noteq> ''user-agent''" for k
    using server_sees_metadata [OF assms(1,2) that assms(4,5)] us_feeds_client_metadata [OF s'(1)] api_metadata_values [OF assms(3), of k]
    by simp
  let ?head = "MetadataToNghttp2Headers (sc_initial_metadata c) (AddCommonHeaders zl [])"
  let ?t = "BuildTrailers status_ok (sc_trailing_metadata c) []"
  obtain g g' where sent: "us_sent (us_HandlerDone zl (Inr (status_ok, resp)) (s'\<lparr>us_ctx := c\<rparr>)) = [WriteHead 200 ?head, EndGenerator]"
    "us_gen (us_HandlerDone zl (Inr (status_ok, resp)) (s'\<lparr>us_ctx := c\<rparr>)) = Some g"
    "pulls response_generate g bufs = (framed [resp], Some (GTrailers ?t), g')"
    using server_answers_value [of "s'\<lparr>us_ctx := c\<rparr>" status_ok resp bufs zl] s' assms(14,15,17,18) by auto
  have "snd (Nghttp2HeadersToMetadata ?head [] kMaxMetadataSize) = sc_initial_metadata c"
    using head_metadata [of "sc_initial_metadata c" kMaxMetadataSize zl] assms(10,11) by (simp add: api_metadata_filter api_metadata_def [of "sc_initial_metadata c"])
  moreover have "snd (Nghttp2HeadersToMetadata ?t [] kMaxMetadataSize) = sc_trailing_metadata c"
    using status_headers_invisible [of "[]" "sc_trailing_metadata c" kMaxMetadataSize status_ok] assms(12,13)
    by (simp add: api_metadata_filter api_metadata_def [of "sc_trailing_metadata c"])
  moreover have "length resp < 2 ^ 32" using assms(14,15) by linarith
  ultimately have "\<exists>call raw. uc_exchange zl' (uc_Attach zl' 200 ?head (new_ClientCallState ctx)) chunks' eos ?t = Some call \<and> uc_completions call = [raw]
      \<and> rr_initial_metadata raw = sc_initial_metadata c \<and> rr_trailing_metadata raw = sc_trailing_metadata c"
    if "concat chunks' = framed [resp]" "list_all (\<lambda>c. c \<noteq> []) chunks'" for chunks'
    using client_receives_value [OF refl _ assms(16) that, where t = ?t and imd = "sc_initial_metadata c" and zl = zl and zl' = zl' and eos = eos] by (auto simp: Extract_BuildTrailers)
  then show ?thesis
    using s'(1,4) seen sent
    by (intro exI [of _ s'] exI [of _ ?head] exI [of _ g] exI [of _ "framed [resp]"] exI [of _ ?t] exI [of _ g']) simp
qed

theorem metadata_end_to_end_witness:
  "\<exists>s'. us_receive copy_zlib (us_Start copy_zlib 0 \<lparr>rq_header = mm_emplace ''x-id'' (plain_value ''7'')
         (mm_emplace ''user-agent'' (plain_value (co_user_agent default_ChannelOptions))
         (mm_emplace ''te'' (plain_value ''trailers'') (mm_emplace ''content-type'' (plain_value ''application/grpc+proto'') []))),
       rq_host = []\<rparr> (new_ServerCallState 9 99 9 [])) [framed [''q'']] = Some s'
     \<and> mm_values (sc_client_metadata (us_ctx s')) ''x-id'' = [''7'']"
proof -
  let ?hdrs = "mm_emplace ''x-id'' (plain_value ''7'') (mm_emplace ''user-agent'' (plain_value (co_user_agent default_ChannelOptions))
         (mm_emplace ''te'' (plain_value ''trailers'') (mm_emplace ''content-type'' (plain_value ''application/grpc+proto'') [])))"
  let ?cl = "new_ClientContext\<lparr>cc_send_metadata := [(''x-id'', ''7'')]\<rparr>"
  let ?s = "us_Start copy_zlib 0 \<lparr>rq_header = ?hdrs, rq_host = []\<rparr> (new_ServerCallState 9 99 9 [])"
  have md: "api_metadata [(''x-id'', ''7'')]"
    by (simp add: api_metadata_def mm_sorted_def sendable_def IsValidKey_def IsReservedKey_def key_char_def)
  have hdrs: "BuildStreamingGrpcHeaders 0 default_ChannelOptions (Some ?cl) = Inr ?hdrs"
    using md by (simp add: BuildStreamingGrpcHeaders_def new_ClientContext_def MetadataToNghttp2Headers_fold api_metadata_def wire_value_def IsBinaryKey_def del: mm_emplace.simps)
  have started: "\<not> us_responded ?s"
  proof -
    have "TotalSize (received ?hdrs) \<le> 99"
      by (simp add: received_def visible_def IsGrpcInternal_def IsHttp2Pseudo_def kSkip_def app_value_def IsBinaryKey_def TotalSize_def
          default_ChannelOptions_def)
    then have "is_ok (fst (Nghttp2HeadersToMetadata ?hdrs [] 99))" using received_metadata [of ?hdrs 99] by simp
    moreover have "mm_find ?hdrs ''grpc-encoding'' = None" by (simp add: mm_find_emplace del: mm_emplace.simps)
    ultimately show ?thesis
      by (simp add: us_Start_def new_ServerCallState_def Let_def case_prod_unfold del: mm_emplace.simps)
  qed
  have "framed [''q''] \<noteq> []" by (simp add: framed_def EncodeFrame_def Let_def)
  then obtain s' where s': "us_receive copy_zlib ?s [framed [''q'']] = Some s'"
    "\<forall>k. k \<noteq> ''user-agent'' \<longrightarrow> mm_values (sc_client_metadata (us_ctx s')) k = mm_values (cc_send_metadata ?cl) k"
    using metadata_end_to_end [OF hdrs, of "\<lparr>rq_header = ?hdrs, rq_host = []\<rparr>", OF _ _ refl started, of "''q''" "[framed [''q'']]" new_ServerContext "[]" None
        "replicate 20 1" copy_zlib True] md
    by (auto simp: new_ServerContext_def recv_limit_def list_all_iff simp del: mm_emplace.simps)
  have "mm_values (sc_client_metadata (us_ctx s')) ''x-id'' = [''7'']"
    using s'(2) by (simp add: mm_values_def)
  with s'(1) show ?thesis by blast
qed

end
