(* ===== verification/Examples.thy ===== *)
theory Examples
  imports MetadataExchange
begin

text \<open>
  The services and clients of \<open>examples/\<close>, on top of the modelled library: the greeter
  (\<open>examples/helloworld\<close>), the counter service with its three kinds of stream (\<open>examples/streaming\<close>),
  the metadata echo (\<open>examples/metadata\<close>) and the slow echo (\<open>examples/deadline\<close>).

  A message is the record of its fields; the generated class stays a parameter of the kind \<open>Codec\<close>.
  A handler is a function on the reader's queue and the writer it is given; \<open>None\<close> as its result is
  a suspension, from which it goes on with the state it left. What a program prints is a list of lines.
  The chat, whose client and handler wait for each other, is joined in \<open>ChatExample\<close>.
\<close>

section \<open>Messages\<close>

record HelloRequest = hq_name :: string
record HelloReply = hp_message :: string
record CountRequest = cq_start :: int
record CountResponse = cr_value :: int
record SumRequest = sr_value :: int
record SumResponse = sp_total :: int
record ChatMessage = cm_text :: string
record EchoRequest = eq_message :: string
record EchoResponse = er_message :: string

text \<open>\<open>int32_t\<close> arithmetic wraps (in C++ the overflow is undefined; two's complement is what the targets do).\<close>

definition int32 :: "int \<Rightarrow> int" where
  "int32 x = sint (of_int x :: 32 word)"

lemma int32_add [simp]: "int32 (int32 x + y) = int32 (x + y)"
proof -
  have "(of_int (int32 x) :: 32 word) = of_int x" by (simp add: int32_def)
  then show ?thesis by (simp add: int32_def)
qed

lemma int32_small: "- (2 ^ 31) \<le> x \<Longrightarrow> x < 2 ^ 31 \<Longrightarrow> int32 x = x"
  unfolding int32_def signed_of_int by (simp add: signed_take_bit_int_eq_self)

section \<open>Handlers\<close>

definition SayHello :: "HelloRequest \<Rightarrow> unit + HelloReply StatusOr" where
  "SayHello request = Inr (statusor_of_value \<lparr>hp_message = ''Hello, '' @ hq_name request @ ''!''\<rparr>)"

function CountDown_loop :: "CountResponse Codec \<Rightarrow> int \<Rightarrow> RawServerWriterImpl \<times> resp_action list
    \<Rightarrow> Status \<times> RawServerWriterImpl \<times> resp_action list" where
  "CountDown_loop pb i wa =
     (if i \<ge> 1 then
        (case ServerWriter_Write pb \<lparr>cr_value = i\<rparr> (fst wa) of (s, w, acts) \<Rightarrow>
           if \<not> is_ok s then (s, w, snd wa @ acts) else CountDown_loop pb (i - 1) (w, snd wa @ acts))
      else (status_ok, fst wa, snd wa))"
  by pat_completeness auto
termination by (relation "measure (\<lambda>(pb, i, wa). nat i)") auto

declare CountDown_loop.simps [simp del]

definition CountDown :: "CountResponse Codec \<Rightarrow> CountRequest \<Rightarrow> RawServerWriterImpl \<Rightarrow> Status \<times> RawServerWriterImpl \<times> resp_action list" where
  "CountDown pb req writer = CountDown_loop pb (cq_start req) (writer, [])"

text \<open>A read that returns a message takes it from the queue, so the loops below end or suspend.\<close>

lemma ServerReader_Read_shorter:
  assumes "ServerReader_Read pb q = (Some item, q')" "so_value item = Some (Some m)"
  shows "length (q_buffer q') < length (q_buffer q)"
  using assms
  by (auto simp: ServerReader_Read_def RawServerReader_Read_def Pop_def typed_read_def statusor_of_value_def
      split: prod.splits list.splits option.splits if_splits)

function Sum_loop :: "SumRequest Codec \<Rightarrow> int \<Rightarrow> StreamMessageQueue \<Rightarrow> SumResponse StatusOr option \<times> int \<times> StreamMessageQueue" where
  "Sum_loop pb tot q =
     (case ServerReader_Read pb q of
        (None, q') \<Rightarrow> (None, tot, q')
      | (Some item, q') \<Rightarrow>
          if \<not> is_ok (so_status item) then (Some \<lparr>so_value = None, so_status = so_status item\<rparr>, tot, q')
          else (case so_value item of
             Some (Some m) \<Rightarrow> Sum_loop pb (int32 (tot + sr_value m)) q'
           | _ \<Rightarrow> (Some (statusor_of_value \<lparr>sp_total = tot\<rparr>), tot, q')))"
  by pat_completeness auto
termination
  by (relation "measure (\<lambda>(pb, tot, q). length (q_buffer q))") (auto dest!: sym [of _ "ServerReader_Read _ _"] intro: ServerReader_Read_shorter)

declare Sum_loop.simps [simp del]

definition Sum :: "SumRequest Codec \<Rightarrow> StreamMessageQueue \<Rightarrow> SumResponse StatusOr option \<times> int \<times> StreamMessageQueue" where
  "Sum pb reader = Sum_loop pb 0 reader"

function Chat :: "ChatMessage Codec \<Rightarrow> StreamMessageQueue \<Rightarrow> RawServerWriterImpl
    \<Rightarrow> Status option \<times> StreamMessageQueue \<times> RawServerWriterImpl \<times> resp_action list" where
  "Chat pb q w =
     (case ServerReader_Read pb q of
        (None, q') \<Rightarrow> (None, q', w, [])
      | (Some item, q') \<Rightarrow>
          if \<not> is_ok (so_status item) then (Some (so_status item), q', w, [])
          else (case so_value item of
             Some (Some m) \<Rightarrow>
               (case ServerWriter_Write pb \<lparr>cm_text = ''echo: '' @ cm_text m\<rparr> w of (s, w', acts) \<Rightarrow>
                  if \<not> is_ok s then (Some s, q', w', acts)
                  else (case Chat pb q' w' of (r, q'', w'', acts') \<Rightarrow> (r, q'', w'', acts @ acts')))
           | _ \<Rightarrow> (Some status_ok, q', w, [])))"
  by pat_completeness auto
termination
  by (relation "measure (\<lambda>(pb, q, w). length (q_buffer q))") (auto dest!: sym [of _ "ServerReader_Read _ _"] intro: ServerReader_Read_shorter)

declare Chat.simps [simp del]

text \<open>\<open>Echo\<close> prints, adds metadata to its context (which may throw) and answers.\<close>

definition Echo :: "EchoRequest \<Rightarrow> ServerContext \<Rightarrow> string list \<times> (unit + EchoResponse StatusOr) \<times> ServerContext" where
  "Echo request ctx =
     (let out = (case mm_find (sc_client_metadata ctx) ''x-request-id'' of
             None \<Rightarrow> [] | Some v \<Rightarrow> [''Server received x-request-id: '' @ v])
           @ [''Server received authority: '' @ sc_authority ctx]
      in case AddInitialMetadata ''x-server-name'' ''metadata-example'' ctx of
           Inl e \<Rightarrow> (out, Inl (), ctx)
         | Inr ctx1 \<Rightarrow>
           (case AddTrailingMetadata ''x-call-status'' ''processed'' ctx1 of
              Inl e \<Rightarrow> (out, Inl (), ctx1)
            | Inr ctx2 \<Rightarrow> (out, Inr (statusor_of_value \<lparr>er_message = eq_message request\<rparr>), ctx2)))"

text \<open>\<open>SlowEcho\<close> after its two seconds, or when the context's cancellation has aborted the wait.\<close>

definition SlowEcho :: "bool \<Rightarrow> EchoRequest \<Rightarrow> unit + EchoResponse StatusOr" where
  "SlowEcho aborted request =
     Inr (if aborted then \<lparr>so_value = None, so_status = mk_status CANCELLED ''deadline exceeded''\<rparr>
          else statusor_of_value \<lparr>er_message = eq_message request\<rparr>)"

section \<open>Clients\<close>

definition RunGreeter :: "HelloReply UnaryResult \<Rightarrow> string" where
  "RunGreeter result =
     (if \<not> is_ok (ur_status result) then ''RPC failed: '' @ DebugString (ur_status result)
      else case ur_response result of Some r \<Rightarrow> ''Greeter received: '' @ hp_message r | None \<Rightarrow> [])"

text \<open>The context of the metadata demo and what it prints of the result.\<close>

definition metadata_context :: "cpp_exception + ClientContext" where
  "metadata_context = (case AddMetadata ''x-request-id'' ''abc-123'' new_ClientContext of
     Inl e \<Rightarrow> Inl e | Inr ctx \<Rightarrow> AddMetadata ''x-client-version'' ''1.0'' ctx)"

definition RunMetadataDemo :: "EchoResponse UnaryResult \<Rightarrow> string list" where
  "RunMetadataDemo result =
     (if \<not> is_ok (ur_status result) then [''RPC failed: '' @ DebugString (ur_status result)]
      else [case ur_response result of Some r \<Rightarrow> ''Reply: '' @ er_message r | None \<Rightarrow> [], [], ''Initial metadata:'']
        @ map (\<lambda>(key, val). ''  '' @ key @ '': '' @ val) (ur_initial_metadata result)
        @ [[], ''Trailing metadata:'']
        @ map (\<lambda>(key, val). ''  '' @ key @ '': '' @ val) (ur_trailing_metadata result))"

text \<open>The reading loop of the \<open>CountDown\<close> client and the writes of the \<open>Sum\<close> client.\<close>

fun print_counts :: "CountResponse Codec \<Rightarrow> nat \<Rightarrow> RawClientReaderImpl \<Rightarrow> string list" where
  "print_counts pb 0 reader = []"
| "print_counts pb (Suc n) reader =
     (case ClientReader_Read pb reader of
        (None, reader') \<Rightarrow> []
      | (Some item, reader') \<Rightarrow>
          if \<not> is_ok (so_status item) then [''Read error: '' @ DebugString (so_status item)]
          else (case so_value item of
             Some (Some m) \<Rightarrow> (''  '' @ int_to_string (cr_value m)) # print_counts pb n reader'
           | _ \<Rightarrow> []))"

fun write_sums :: "SumRequest Codec \<Rightarrow> int list \<Rightarrow> RawClientWriterImpl \<Rightarrow> string list \<times> RawClientWriterImpl" where
  "write_sums pb [] writer = ([], MarkWritesDone writer)"
| "write_sums pb (i # ns) writer =
     (case ClientWriter_Write pb \<lparr>sr_value = i\<rparr> writer of
        (s, writer') \<Rightarrow> if \<not> is_ok s then ([''Write error: '' @ DebugString s], MarkWritesDone writer')
                        else write_sums pb ns writer')"

definition report_sum :: "SumResponse UnaryResult \<Rightarrow> string" where
  "report_sum result =
     (if is_ok (ur_status result)
      then (case ur_response result of Some r \<Rightarrow> ''Sum = '' @ int_to_string (sp_total r) | None \<Rightarrow> [])
      else ''Error: '' @ DebugString (ur_status result))"

text \<open>
  The loop of the \<open>Chat\<close> client, one step per resumption: it writes a message, waits for the answer,
  prints it and goes on; after the last message or an error it half-closes and awaits \<open>Finish\<close>.
\<close>

datatype ChatClient = ChatWriting "string list" | ChatReading "string list" | ChatFinishing

fun chat_resume :: "ChatMessage Codec \<Rightarrow> ChatClient \<Rightarrow> RawClientReaderImpl \<Rightarrow> RawClientWriterImpl
    \<Rightarrow> string list \<times> ChatClient \<times> RawClientReaderImpl \<times> RawClientWriterImpl" where
  "chat_resume pb (ChatWriting []) r w = ([], ChatFinishing, r, MarkWritesDone w)"
| "chat_resume pb (ChatWriting (text # messages)) r w =
     (case BidiStream_Write pb \<lparr>cm_text = text\<rparr> w of (ws, w') \<Rightarrow>
        if \<not> is_ok ws then ([''Write error: '' @ DebugString ws], ChatFinishing, r, MarkWritesDone w')
        else ([], ChatReading messages, r, w'))"
| "chat_resume pb (ChatReading messages) r w =
     (case BidiStream_Read pb r of
        (None, r') \<Rightarrow> ([], ChatReading messages, r', w)
      | (Some reply, r') \<Rightarrow>
          if \<not> is_ok (so_status reply) then ([''Read error: '' @ DebugString (so_status reply)], ChatFinishing, r', MarkWritesDone w)
          else (case so_value reply of
             Some (Some m) \<Rightarrow> ([''  '' @ cm_text m], ChatWriting messages, r', w)
           | _ \<Rightarrow> ([], ChatFinishing, r', MarkWritesDone w)))"
| "chat_resume pb ChatFinishing r w = ([], ChatFinishing, r, w)"

text \<open>What the two calls of the deadline demo print.\<close>

definition report_tight :: "EchoResponse UnaryResult \<Rightarrow> string" where
  "report_tight result =
     (if \<not> is_ok (ur_status result) then ''Expected failure: '' @ DebugString (ur_status result)
      else case ur_response result of Some r \<Rightarrow> ''Reply: '' @ er_message r | None \<Rightarrow> [])"

definition report_patient :: "EchoResponse UnaryResult \<Rightarrow> string" where
  "report_patient result =
     (if is_ok (ur_status result) then (case ur_response result of Some r \<Rightarrow> ''Reply: '' @ er_message r | None \<Rightarrow> [])
      else ''Unexpected error: '' @ DebugString (ur_status result))"

section \<open>What the handlers do\<close>

lemma typed_write_frame:
  assumes "sw_inv w" "\<not> sw_finished w" "pb_SerializeToString pb m = Some b" "length b \<le> sw_max_response_size w" "length b < 2 ^ 32"
  obtains w' where "ServerWriter_Write pb m w = (status_ok, w', [Resume])" "sw_inv w'" "\<not> sw_finished w'"
    "sw_max_response_size w' = sw_max_response_size w" "sw_trail_hdrs w' = sw_trail_hdrs w" "sw_rest w' = sw_rest w @ framed [b]"
  using sw_Write_frame [OF assms(1,2,4,5)] assms(3) by (auto simp: ServerWriter_Write_def)

text \<open>The count from \<open>i\<close> down to 1.\<close>

definition countdown :: "int \<Rightarrow> CountResponse list" where
  "countdown i = map (\<lambda>k. \<lparr>cr_value = k\<rparr>) (rev [1..i])"

lemma countdown_rec: "countdown i = (if i \<ge> 1 then \<lparr>cr_value = i\<rparr> # countdown (i - 1) else [])"
  by (simp add: countdown_def upto_rec2)

lemma CountDown_loop_writes:
  assumes "sw_inv w" "\<not> sw_finished w" "list_all2 (\<lambda>m bs. pb_SerializeToString pb m = Some bs) (countdown i) bss"
    and "list_all (\<lambda>b. length b \<le> sw_max_response_size w \<and> length b < 2 ^ 32) bss"
  shows "\<exists>w' acts'. CountDown_loop pb i (w, acts) = (status_ok, w', acts') \<and> sw_inv w' \<and> \<not> sw_finished w'
    \<and> sw_trail_hdrs w' = sw_trail_hdrs w \<and> sw_rest w' = sw_rest w @ framed bss"
  using assms
proof (induction "nat i" arbitrary: i w acts bss)
  case 0
  then show ?case by (subst CountDown_loop.simps) (simp add: countdown_rec [of i] framed_def)
next
  case (Suc n)
  then have i: "i \<ge> 1" "n = nat (i - 1)" by auto
  obtain b bs where bss: "bss = b # bs" "pb_SerializeToString pb \<lparr>cr_value = i\<rparr> = Some b"
    "list_all2 (\<lambda>m bs. pb_SerializeToString pb m = Some bs) (countdown (i - 1)) bs"
    using Suc.prems(3) i(1) by (auto simp: countdown_rec [of i] list_all2_Cons1)
  have len: "length b \<le> sw_max_response_size w" "length b < 2 ^ 32" using Suc.prems(4) by (simp_all add: bss(1))
  obtain w1 where w1: "ServerWriter_Write pb \<lparr>cr_value = i\<rparr> w = (status_ok, w1, [Resume])" "sw_inv w1" "\<not> sw_finished w1"
    "sw_max_response_size w1 = sw_max_response_size w" "sw_trail_hdrs w1 = sw_trail_hdrs w" "sw_rest w1 = sw_rest w @ framed [b]"
    by (rule typed_write_frame [OF Suc.prems(1,2) bss(2) len])
  obtain w2 acts2 where "CountDown_loop pb (i - 1) (w1, acts @ [Resume]) = (status_ok, w2, acts2)" "sw_inv w2" "\<not> sw_finished w2"
    "sw_trail_hdrs w2 = sw_trail_hdrs w1" "sw_rest w2 = sw_rest w1 @ framed bs"
    using Suc.hyps(1) [OF i(2) w1(2,3) bss(3), of "acts @ [Resume]"] Suc.prems(4) by (auto simp: bss(1) w1(4))
  then show ?case
    using i(1) w1 by (subst CountDown_loop.simps) (simp add: bss(1) framed_append [of "[b]" bs, simplified])
qed

text \<open>What a read returns from a queue without error.\<close>

lemma ServerReader_Read_cases:
  assumes "q_error q = None" "map (pb_ParseFromString pb) (q_buffer q) = map Some ms"
  shows "ServerReader_Read pb q = (case ms of
      m # rest \<Rightarrow> (Some (statusor_of_value (Some m)), q\<lparr>q_buffer := tl (q_buffer q), q_wake := NoWait\<rparr>)
    | [] \<Rightarrow> if q_eos q then (Some (statusor_of_value None), q\<lparr>q_wake := NoWait\<rparr>) else (None, q\<lparr>q_wake := Waiting\<rparr>))"
  using assms
  by (cases "q_buffer q"; cases ms)
    (auto simp: ServerReader_Read_def RawServerReader_Read_def Pop_def pr_ok_def pr_eos_def typed_read_def statusor_of_value_def)

lemma statusor_sel [simp]: "so_value (statusor_of_value v) = Some v" "is_ok (so_status (statusor_of_value v))"
  by (simp_all add: statusor_of_value_def)

lemma Sum_loop_total:
  assumes "q_error q = None" "q_eos q" "map (pb_ParseFromString pb) (q_buffer q) = map Some ms"
  shows "fst (Sum_loop pb (int32 x) q) = Some (statusor_of_value \<lparr>sp_total = int32 (x + sum_list (map sr_value ms))\<rparr>)"
  using assms
proof (induction ms arbitrary: x q)
  case Nil
  then show ?case
    using ServerReader_Read_cases [of q pb "[]"] by (subst Sum_loop.simps) simp
next
  case (Cons m ms)
  let ?q = "q\<lparr>q_buffer := tl (q_buffer q), q_wake := NoWait\<rparr>"
  have "map (pb_ParseFromString pb) (q_buffer ?q) = map Some ms"
    using Cons.prems(3) by (cases "q_buffer q") auto
  then have "fst (Sum_loop pb (int32 (x + sr_value m)) ?q) = Some (statusor_of_value \<lparr>sp_total = int32 (x + sr_value m + sum_list (map sr_value ms))\<rparr>)"
    using Cons.IH [of ?q "x + sr_value m"] Cons.prems(1,2) by simp
  then show ?case
    using ServerReader_Read_cases [of q pb "m # ms"] Cons.prems(1,3) by (subst Sum_loop.simps) (simp add: add.assoc)
qed

definition echoed :: "ChatMessage \<Rightarrow> ChatMessage" where
  "echoed m = \<lparr>cm_text = ''echo: '' @ cm_text m\<rparr>"

text \<open>\<open>Chat\<close> answers everything it can read, and then returns at the end of the stream or waits for more.\<close>

lemma Chat_runs:
  assumes "q_error q = None" "map (pb_ParseFromString pb) (q_buffer q) = map Some ms" "sw_inv w" "\<not> sw_finished w"
    and "list_all2 (\<lambda>m bs. pb_SerializeToString pb m = Some bs) (map echoed ms) bss"
    and "list_all (\<lambda>b. length b \<le> sw_max_response_size w \<and> length b < 2 ^ 32) bss"
  shows "\<exists>q' w'. Chat pb q w = (if q_eos q then Some status_ok else None, q', w', replicate (length ms) Resume)
    \<and> q_buffer q' = [] \<and> q_error q' = None \<and> q_eos q' = q_eos q \<and> q_wake q' = (if q_eos q then NoWait else Waiting)
    \<and> sw_inv w' \<and> \<not> sw_finished w' \<and> sw_max_response_size w' = sw_max_response_size w
    \<and> sw_trail_hdrs w' = sw_trail_hdrs w \<and> sw_rest w' = sw_rest w @ framed bss"
  using assms
proof (induction ms arbitrary: q w bss)
  case Nil
  then show ?case
    using ServerReader_Read_cases [of q pb "[]"] by (subst Chat.simps) (auto simp: framed_def)
next
  case (Cons m ms)
  let ?q = "q\<lparr>q_buffer := tl (q_buffer q), q_wake := NoWait\<rparr>"
  have parse: "map (pb_ParseFromString pb) (q_buffer ?q) = map Some ms"
    using Cons.prems(2) by (cases "q_buffer q") auto
  obtain b bs where bss: "bss = b # bs" "pb_SerializeToString pb (echoed m) = Some b"
    "list_all2 (\<lambda>m bs. pb_SerializeToString pb m = Some bs) (map echoed ms) bs"
    using Cons.prems(5) by (auto simp: list_all2_Cons1)
  have len: "length b \<le> sw_max_response_size w" "length b < 2 ^ 32" using Cons.prems(6) by (simp_all add: bss(1))
  obtain w1 where w1: "ServerWriter_Write pb (echoed m) w = (status_ok, w1, [Resume])" "sw_inv w1" "\<not> sw_finished w1"
    "sw_max_response_size w1 = sw_max_response_size w" "sw_trail_hdrs w1 = sw_trail_hdrs w" "sw_rest w1 = sw_rest w @ framed [b]"
    using typed_write_frame [OF Cons.prems(3,4) bss(2) len] by blast
  have step: "Chat pb q w = (case Chat pb ?q w1 of (r, q'', w'', acts) \<Rightarrow> (r, q'', w'', Resume # acts))"
    using ServerReader_Read_cases [of q pb "m # ms"] Cons.prems(1,2) w1(1)
    by (subst Chat.simps) (simp add: echoed_def)
  show ?case
    unfolding step using Cons.IH [OF _ parse w1(2,3) bss(3)] Cons.prems(1,6)
    by (auto simp: bss(1) w1(4-6) framed_append [of "[b]" bs, simplified])
qed

text \<open>The metadata demo: what the client adds, and what \<open>Echo\<close> finds, adds and answers.\<close>

lemma metadata_context_added:
  "metadata_context = Inr (new_ClientContext\<lparr>cc_send_metadata := [(''x-client-version'', ''1.0''), (''x-request-id'', ''abc-123'')]\<rparr>)"
  by (simp add: metadata_context_def AddMetadata_def new_ClientContext_def ValidateAndAdd_def IsValidKey_def key_char_def IsReservedKey_def)

lemma Echo_answers:
  assumes "sc_initial_metadata c = []" "sc_trailing_metadata c = []" "mm_find (sc_client_metadata c) ''x-request-id'' = Some v"
  shows "Echo request c = ([''Server received x-request-id: '' @ v, ''Server received authority: '' @ sc_authority c],
    Inr (statusor_of_value \<lparr>er_message = eq_message request\<rparr>),
    c\<lparr>sc_initial_metadata := [(''x-server-name'', ''metadata-example'')], sc_trailing_metadata := [(''x-call-status'', ''processed'')]\<rparr>)"
  using assms
  by (simp add: Echo_def AddInitialMetadata_def AddTrailingMetadata_def ValidateAndAdd_def IsValidKey_def key_char_def IsReservedKey_def)

section \<open>Example codecs\<close>

text \<open>
  Codecs for the examples' messages that satisfy \<open>codec_ok\<close>: one field, written as it is when it
  is a string and as a row of digits when it is a number that is not negative.
\<close>

definition field_codec :: "('m \<Rightarrow> bytes option) \<Rightarrow> (bytes \<Rightarrow> 'm) \<Rightarrow> 'm Codec" where
  "field_codec enc dec = \<lparr>pb_ByteSizeLong = (\<lambda>m. case enc m of None \<Rightarrow> 0 | Some bs \<Rightarrow> length bs), pb_SerializeToArray = (\<lambda>m n. enc m),
     pb_SerializeToString = enc, pb_ParseFromArray = (\<lambda>bs n. Some (dec bs)), pb_ParseFromString = (\<lambda>bs. Some (dec bs))\<rparr>"

lemma field_codec_ok: "(\<And>m bs. enc m = Some bs \<Longrightarrow> dec bs = m) \<Longrightarrow> codec_ok (field_codec enc dec)"
  by (auto simp: codec_ok_def field_codec_def)

definition digits :: "int \<Rightarrow> bytes option" where
  "digits i = (if i < 0 then None else Some (replicate (nat i) CHR ''1''))"

lemma digits_length: "digits i = Some bs \<Longrightarrow> int (length bs) = i"
  by (auto simp: digits_def split: if_splits)

definition countreq_codec :: "CountRequest Codec" where
  "countreq_codec = field_codec (\<lambda>m. digits (cq_start m)) (\<lambda>bs. \<lparr>cq_start = int (length bs)\<rparr>)"

definition count_codec :: "CountResponse Codec" where
  "count_codec = field_codec (\<lambda>m. digits (cr_value m)) (\<lambda>bs. \<lparr>cr_value = int (length bs)\<rparr>)"

definition sumreq_codec :: "SumRequest Codec" where
  "sumreq_codec = field_codec (\<lambda>m. digits (sr_value m)) (\<lambda>bs. \<lparr>sr_value = int (length bs)\<rparr>)"

definition sum_codec :: "SumResponse Codec" where
  "sum_codec = field_codec (\<lambda>m. digits (sp_total m)) (\<lambda>bs. \<lparr>sp_total = int (length bs)\<rparr>)"

definition chat_codec :: "ChatMessage Codec" where
  "chat_codec = field_codec (\<lambda>m. Some (cm_text m)) (\<lambda>bs. \<lparr>cm_text = bs\<rparr>)"

lemma example_codecs_ok: "codec_ok countreq_codec" "codec_ok count_codec" "codec_ok sumreq_codec" "codec_ok sum_codec" "codec_ok chat_codec"
  unfolding countreq_codec_def count_codec_def sumreq_codec_def sum_codec_def chat_codec_def
  by (rule field_codec_ok; auto dest: digits_length)+

section \<open>Properties\<close>

text \<open>
  The count-down example end to end: for every start (none for a start below 1) the client's reads
  return the numbers from the start down to 1 in order and then the end of the stream, and
  \<open>Finish\<close> returns OK, however nghttp2 cuts the two bodies.
\<close>

theorem count_down_end_to_end:
  assumes "codec_ok qpb" "codec_ok ppb" "pb_SerializeToString qpb cq = Some req" "length req \<le> int_max"
    and "s = ss_Start zl now hreq (new_ServerStreamingCallState mreq mmeta mresp pid)" "\<not> ss_responded s"
    and "length req \<le> mreq" "concat chunks = framed [req]" "list_all (\<lambda>c. c \<noteq> []) chunks"
    and "list_all2 (\<lambda>p bs. pb_SerializeToString ppb p = Some bs) (countdown (cq_start cq)) bss"
    and "list_all (\<lambda>b. length b \<le> mresp \<and> length b < 2 ^ 32) bss" "list_all (\<lambda>b. length b \<le> recv_limit ctx \<and> length b < 2 ^ 32) bss"
    and "list_all (\<lambda>n. 0 < n) bufs" "length (framed bss) < length bufs" "length (countdown (cq_start cq)) < n"
  shows "\<exists>s' head st w acts wire t w'. ss_receive zl s chunks = Some s' \<and> ss_spawned s' = [req]
    \<and> ss_sent s' = [WriteHead 200 head, EndGenerator]
    \<and> pb_ParseFromArray qpb req (static_cast_int (length req)) = Some cq \<and> CountDown ppb cq (ss_writer s') = (st, w, acts)
    \<and> pulls sw_generate (ss_writer (ss_HandlerDone (Inr st) (s'\<lparr>ss_writer := w\<rparr>))) bufs = (wire, Some (GTrailers t), w')
    \<and> (\<forall>chunks'. concat chunks' = wire \<and> list_all (\<lambda>c. c \<noteq> []) chunks' \<longrightarrow>
         (\<exists>call. feeds (\<lambda>s copy. xs_OnData copy s) (xs_Attach 200 head (new_ServerStreamingClientCallState ctx)) chunks' = Some call
            \<and> read_until_end (ClientReader_Read ppb) n (xs_reader (xs_OnTrailers t call)) = (countdown (cq_start cq), Some status_ok)
            \<and> RawClientReader_Finish (xs_reader (xs_OnTrailers t call)) = Some status_ok))"
proof -
  note start = ss_Start_open [OF assms(5,6)]
  have len: "length req < 2 ^ 32" using assms(4) by (simp add: int_max_def)
  let ?head = "MetadataToNghttp2Headers (sc_initial_metadata (ss_ctx s)) (AddCommonHeaders zl [])"
  obtain s' where s': "ss_receive zl s chunks = Some s'" "ss_spawned s' = [req]" "ss_writer s' = new_RawServerWriterImpl mresp"
    "ss_sent s' = [WriteHead 200 ?head, EndGenerator]"
    using ss_receives_request [OF assms(6) start(1) assms(7) len assms(8,9), of zl] start by auto
  have parse: "pb_ParseFromArray qpb req (static_cast_int (length req)) = Some cq"
    using codec_string(2) [OF assms(1,3,4)] .
  obtain w acts where w: "CountDown ppb cq (ss_writer s') = (status_ok, w, acts)" "sw_inv w" "\<not> sw_finished w" "sw_trail_hdrs w = []"
    "sw_rest w = framed bss"
    using CountDown_loop_writes [of "ss_writer s'" ppb "cq_start cq" bss "[]"] assms(10,11) by (auto simp: CountDown_def s'(3))
  obtain t w' where t: "pulls sw_generate (fst (sw_Finish status_ok w)) bufs = (framed bss, Some (GTrailers t), w')" "ExtractTrailerStatus t = status_ok"
    using finished_writer_pulls [OF w(2-5) assms(13,14)] by blast
  moreover have "ss_writer (ss_HandlerDone (Inr status_ok) (s'\<lparr>ss_writer := w\<rparr>)) = fst (sw_Finish status_ok w)"
    using w(3) by (simp add: ss_HandlerDone_def ss_Finish_def case_prod_unfold)
  ultimately show ?thesis
    using s' parse w(1) client_reads_stream [OF assms(2,10) refl assms(12) _ _ assms(15), of _ status_ok t "sc_initial_metadata (ss_ctx s)" zl]
    by (intro exI [of _ s'] exI [of _ ?head] exI [of _ status_ok] exI [of _ w] exI [of _ acts] exI [of _ "framed bss"] exI [of _ t] exI [of _ w']) auto
qed

theorem count_down_end_to_end_witness:
  "\<exists>s'. ss_receive copy_zlib (ss_Start copy_zlib 0 \<lparr>rq_header = [], rq_host = []\<rparr> (new_ServerStreamingCallState 9 9 9 [])) [framed [''11'']] = Some s'
     \<and> ss_spawned s' = [''11'']"
proof -
  let ?s = "ss_Start copy_zlib 0 \<lparr>rq_header = [], rq_host = []\<rparr> (new_ServerStreamingCallState 9 9 9 [])"
  have started: "\<not> ss_responded ?s"
    by (simp add: ss_Start_def new_ServerStreamingCallState_def arm_deadline_def mm_find_def Nghttp2HeadersToMetadata_def Let_def)
  have req: "pb_SerializeToString countreq_codec \<lparr>cq_start = 2\<rparr> = Some ''11''" "length ''11'' \<le> int_max"
    by (simp add: countreq_codec_def field_codec_def digits_def numeral_2_eq_2) (simp add: int_max_def)
  have msgs: "list_all2 (\<lambda>p bs. pb_SerializeToString count_codec p = Some bs) (countdown (cq_start \<lparr>cq_start = 2\<rparr>)) [''11'', ''1'']"
    by (simp add: countdown_rec [of 2] countdown_rec [of 1] countdown_rec [of 0] count_codec_def field_codec_def digits_def numeral_2_eq_2)
  have "framed [''11''] \<noteq> []" "length (framed [''11'', ''1'']) < 20" by (simp_all add: framed_def EncodeFrame_def be32_bytes_def Let_def)
  then show ?thesis
    using count_down_end_to_end [OF example_codecs_ok(1,2) req refl started _ _ _ msgs, of "[framed [''11'']]" None "replicate 20 1" 3]
    by (auto simp: recv_limit_def list_all_iff countdown_rec [of 2] countdown_rec [of 1] countdown_rec [of 0])
qed

text \<open>
  The sum example end to end: whatever numbers the client writes, in every interleaving of its
  writes, strand and pulls that ends the stream, the handler returns their sum modulo \<open>2 ^ 32\<close> as a
  signed 32-bit number, and that is the response of \<open>FinishAndGetResponse\<close>.
\<close>

theorem sum_end_to_end:
  assumes "codec_ok qpb" "codec_ok ppb" "cw_run es = (out, w)" "fst (cw_Pull k w) = GEnd" "before_done es = written es"
    and "list_all2 (\<lambda>p bs. pb_SerializeToString qpb p = Some bs) ms (written es)" "list_all (\<lambda>b. length b \<le> mmsg) (written es)"
    and "s = cs_Start zl now hreq (new_ClientStreamingCallState mmsg mmeta mresp pid)" "\<not> cs_responded s"
    and "concat chunks = out" "list_all (\<lambda>c. c \<noteq> []) chunks"
    and "v = \<lparr>sp_total = int32 (sum_list (map sr_value ms))\<rparr>"
    and "pb_SerializeToString ppb v = Some resp" "length resp \<le> mresp" "mresp < 2 ^ 32"
    and "list_all (\<lambda>n. 0 < n) bufs" "5 + mresp < length bufs"
  shows "\<exists>s' result. feeds (\<lambda>s data. cs_OnData zl data s) s (chunks @ [[]]) = Some s' \<and> fst (Sum qpb (cs_queue s')) = Some result
    \<and> (\<forall>q. \<exists>head g wire t g'.
         cs_sent (cs_HandlerDone zl (RegisterClientStreaming ppb (Inr result)) (s'\<lparr>cs_queue := q\<rparr>)) = [WriteHead 200 head, EndGenerator]
       \<and> cs_gen (cs_HandlerDone zl (RegisterClientStreaming ppb (Inr result)) (s'\<lparr>cs_queue := q\<rparr>)) = Some g
       \<and> pulls response_generate g bufs = (wire, Some (GTrailers t), g')
       \<and> (\<forall>call chunks'. \<not> xc_closed call \<and> xc_lpm call = new_ClientLpm \<and> length resp \<le> recv_limit (xc_ctx call)
             \<and> concat chunks' = wire \<and> list_all (\<lambda>c. c \<noteq> []) chunks' \<longrightarrow>
            (\<exists>call' u. Option.bind (feeds (\<lambda>s copy. xc_OnData copy s) (xc_Attach 200 head call) chunks') (\<lambda>s'. Some (xc_OnTrailers t s')) = Some call'
               \<and> FinishAndGetResponse ppb (xc_writer call') = Some u \<and> ur_status u = status_ok \<and> ur_response u = Some v)))"
proof -
  note start = cs_Start_open [OF assms(8,9)]
  have "lpm_spec sp_accept mmsg (concat chunks) = (written es, Rest [])"
    using lpm_spec_frames [of mmsg "written es" sp_accept] client_stream_sent [OF assms(3-5)] assms(7,10) written_short [of es]
    by (simp add: sp_accept_def list_all_iff)
  then obtain p where p: "feeds (\<lambda>s data. cs_OnData zl data s) s (chunks @ [[]])
      = Some (s\<lparr>cs_parser := p, cs_queue := SetEos (fold Push (written es) (cs_queue s))\<rparr>)"
    using cs_receives [OF assms(9) start(1) assms(11)] by blast
  let ?s = "s\<lparr>cs_parser := p, cs_queue := SetEos (fold Push (written es) (cs_queue s))\<rparr>"
  have "int32 0 = 0" by (simp add: int32_def)
  then have sum: "fst (Sum qpb (cs_queue ?s)) = Some (statusor_of_value v)"
    using Sum_loop_total [of "cs_queue ?s" qpb ms 0] serialized_parse [OF assms(1,6)]
    by (simp add: Sum_def assms(12) start(2) new_StreamMessageQueue_def)
  show ?thesis
    using p sum assms(9) start(3,4) client_streaming_answered [OF assms(2,13) _ _ _ assms(14-17), of "?s\<lparr>cs_queue := q\<rparr>" zl for q]
    by (intro exI [of _ ?s] exI [of _ "statusor_of_value v"]) simp
qed

theorem sum_end_to_end_witness:
  "\<exists>s' result. feeds (\<lambda>s data. cs_OnData copy_zlib data s) (cs_Start copy_zlib 0 \<lparr>rq_header = [], rq_host = []\<rparr> (new_ClientStreamingCallState 9 9 9 []))
       ([framed [''11'', ''1'']] @ [[]]) = Some s'
     \<and> fst (Sum sumreq_codec (cs_queue s')) = Some result"
proof -
  let ?es = "[CwWrite ''11'', CwWrite ''1'', CwWritesDone, CwRun, CwRun, CwRun, CwPull 20, CwPull 20]"
  have run: "cw_run ?es = (framed [''11'', ''1''], snd (cw_run ?es))" "fst (cw_Pull 1 (snd (cw_run ?es))) = GEnd"
    by (simp_all add: cw_run_def new_RawClientWriterImpl_def Enqueue_def EncodeFrame_def MarkWritesDone_def framed_def
        cw_RunPosted_def req_resume_def cw_Pull_def ClientWriterGenerator_def Let_def be32_bytes_def)
  let ?s = "cs_Start copy_zlib 0 \<lparr>rq_header = [], rq_host = []\<rparr> (new_ClientStreamingCallState 9 9 9 [])"
  have started: "\<not> cs_responded ?s"
    by (simp add: cs_Start_def new_ClientStreamingCallState_def arm_deadline_def mm_find_def Nghttp2HeadersToMetadata_def Let_def)
  have ser: "pb_SerializeToString sumreq_codec \<lparr>sr_value = 2\<rparr> = Some ''11''" "pb_SerializeToString sumreq_codec \<lparr>sr_value = 1\<rparr> = Some ''1''"
    "pb_SerializeToString sum_codec \<lparr>sp_total = int32 3\<rparr> = Some ''111''"
    by (simp_all add: sumreq_codec_def sum_codec_def field_codec_def digits_def int32_def numeral_2_eq_2 numeral_3_eq_3)
  have "framed [''11'', ''1''] \<noteq> []" by (simp add: framed_def EncodeFrame_def be32_bytes_def Let_def)
  then show ?thesis
    using sum_end_to_end [OF example_codecs_ok(3,4) run _ _ _ refl started, of "[\<lparr>sr_value = 2\<rparr>, \<lparr>sr_value = 1\<rparr>]" "[framed [''11'', ''1'']]"
        "\<lparr>sp_total = int32 3\<rparr>" "''111''" "replicate 20 1"]
    by (auto simp: before_done_def ser list_all_iff)
qed

end
