(* ===== verification/ChatExample.thy ===== *)
theory ChatExample
  imports Examples
begin

text \<open>
  The chat of \<open>examples/streaming\<close> as a running system: the client of \<open>streaming_client.cc\<close>
  (\<open>chat_resume\<close>), its call state and writer, the request bytes under way, the server's call state
  with the handler \<open>Chat\<close> of \<open>streaming_server.cc\<close>, and the response bytes under way. One step is one
  turn of one of them. The client writes the next message only after it has read the echo of the
  last, and the handler waits for the next message, so each side runs only when the other has been
  heard from.
\<close>

section \<open>The system and its steps\<close>

text \<open>
  \<open>sy_up\<close> and \<open>sy_down\<close> are the DATA bytes sent and not yet delivered. \<open>sy_up_end\<close> says that the
  client's nghttp2 has sent the end of the request, \<open>sy_up_ended\<close> that the server has been told;
  \<open>sy_trailers\<close> are the trailers the server has sent, \<open>sy_finished\<close> says that the client has been
  told. \<open>sy_done\<close> is the status the handler has returned. \<open>sy_deferred\<close> says that the server's
  generator has told nghttp2 \<open>NGHTTP2_ERR_DEFERRED\<close> and the response was not resumed since.
\<close>

record ChatSystem =
  sy_client :: ChatClient
  sy_lines :: "string list"
  sy_call :: BidiStreamingClientCallState
  sy_up :: bytes
  sy_up_end :: bool
  sy_up_ended :: bool
  sy_server :: BidiStreamingCallState
  sy_done :: "Status option"
  sy_deferred :: bool
  sy_down :: bytes
  sy_trailers :: "header_map option"
  sy_finished :: bool

fun gen_bytes :: "gen_result \<Rightarrow> bytes" where
  "gen_bytes (GData bs) = bs"
| "gen_bytes g = []"

fun gen_trailers :: "gen_result \<Rightarrow> header_map option" where
  "gen_trailers (GTrailers t) = Some t"
| "gen_trailers g = None"

text \<open>A coroutine that waits in \<open>Read\<close> runs again only when its queue has been woken.\<close>

fun client_ready :: "ChatClient \<Rightarrow> StreamMessageQueue \<Rightarrow> bool" where
  "client_ready (ChatWriting messages) q = True"
| "client_ready (ChatReading messages) q = (q_wake q \<noteq> Waiting)"
| "client_ready ChatFinishing q = False"

text \<open>The server's call when the handler's turn has ended with the result \<open>r\<close>, the queue \<open>q\<close> and the writer \<open>w\<close>.\<close>

definition after_turn :: "Status option \<Rightarrow> StreamMessageQueue \<Rightarrow> RawServerWriterImpl \<Rightarrow> resp_action list
    \<Rightarrow> BidiStreamingCallState \<Rightarrow> BidiStreamingCallState" where
  "after_turn r q w acts srv =
     (let srv' = srv\<lparr>bd_queue := q, bd_writer := w, bd_sent := bd_sent srv @ acts\<rparr>
      in case r of None \<Rightarrow> srv' | Some st \<Rightarrow> bd_HandlerDone (Inr st) srv')"

definition resumed :: "BidiStreamingCallState \<Rightarrow> BidiStreamingCallState \<Rightarrow> bool" where
  "resumed srv srv' \<longleftrightarrow> Resume \<in> set (drop (length (bd_sent srv)) (bd_sent srv'))"

inductive chat_step :: "ChatMessage Codec \<Rightarrow> ChatSystem \<Rightarrow> ChatSystem \<Rightarrow> bool" for pb where
  client_turn: "client_ready (sy_client s) (cr_msg_queue (xb_reader (sy_call s))) \<Longrightarrow>
    chat_resume pb (sy_client s) (xb_reader (sy_call s)) (xb_writer (sy_call s)) = (out, client, r, w) \<Longrightarrow>
    chat_step pb s (s\<lparr>sy_client := client, sy_lines := sy_lines s @ out, sy_call := (sy_call s)\<lparr>xb_reader := r, xb_writer := w\<rparr>\<rparr>)"
| strand: "cw_posted (xb_writer (sy_call s)) \<noteq> [] \<Longrightarrow>
    chat_step pb s (s\<lparr>sy_call := (sy_call s)\<lparr>xb_writer := cw_RunPosted (xb_writer (sy_call s))\<rparr>\<rparr>)"
| request_pull: "0 < n \<Longrightarrow> \<not> cw_deferred (xb_writer (sy_call s)) \<Longrightarrow> \<not> sy_up_end s \<Longrightarrow> cw_Pull n (xb_writer (sy_call s)) = (g, w) \<Longrightarrow>
    chat_step pb s (s\<lparr>sy_call := (sy_call s)\<lparr>xb_writer := w\<rparr>, sy_up := sy_up s @ gen_bytes g, sy_up_end := (g = GEnd)\<rparr>)"
| request_data: "sy_up s = chunk @ rest \<Longrightarrow> chunk \<noteq> [] \<Longrightarrow> bd_OnData chunk (sy_server s) = Some srv \<Longrightarrow>
    chat_step pb s (s\<lparr>sy_up := rest, sy_server := srv\<rparr>)"
| request_end: "sy_up s = [] \<Longrightarrow> sy_up_end s \<Longrightarrow> \<not> sy_up_ended s \<Longrightarrow> bd_OnData [] (sy_server s) = Some srv \<Longrightarrow>
    chat_step pb s (s\<lparr>sy_up_ended := True, sy_server := srv\<rparr>)"
| handler_turn: "sy_done s = None \<Longrightarrow> q_wake (bd_queue (sy_server s)) \<noteq> Waiting \<Longrightarrow>
    Chat pb (bd_queue (sy_server s)) (bd_writer (sy_server s)) = (r, q, w, acts) \<Longrightarrow> srv = after_turn r q w acts (sy_server s) \<Longrightarrow>
    chat_step pb s (s\<lparr>sy_server := srv, sy_done := r, sy_deferred := (sy_deferred s \<and> \<not> resumed (sy_server s) srv)\<rparr>)"
| response_pull: "0 < n \<Longrightarrow> \<not> sy_deferred s \<Longrightarrow> sy_trailers s = None \<Longrightarrow> bd_Generate n (sy_server s) = (g, srv) \<Longrightarrow>
    chat_step pb s (s\<lparr>sy_server := srv, sy_down := sy_down s @ gen_bytes g, sy_trailers := gen_trailers g, sy_deferred := (g = GDeferred)\<rparr>)"
| response_head: "\<not> xb_attached (sy_call s) \<Longrightarrow> bd_sent (sy_server s) = WriteHead code h # acts \<Longrightarrow>
    chat_step pb s (s\<lparr>sy_call := xb_Attach code h (sy_call s)\<rparr>)"
| response_data: "xb_attached (sy_call s) \<Longrightarrow> sy_down s = chunk @ rest \<Longrightarrow> chunk \<noteq> [] \<Longrightarrow> xb_OnData chunk (sy_call s) = Some call \<Longrightarrow>
    chat_step pb s (s\<lparr>sy_down := rest, sy_call := call\<rparr>)"
| response_trailers: "xb_attached (sy_call s) \<Longrightarrow> sy_down s = [] \<Longrightarrow> sy_trailers s = Some t \<Longrightarrow> \<not> sy_finished s \<Longrightarrow>
    chat_step pb s (s\<lparr>sy_finished := True, sy_call := xb_OnTrailers t (sy_call s)\<rparr>)"

text \<open>The client's request has been submitted and the server has started the call.\<close>

definition chat_started :: "string list \<Rightarrow> ClientContext option \<Rightarrow> BidiStreamingCallState \<Rightarrow> ChatSystem" where
  "chat_started texts ctx srv =
     \<lparr>sy_client = ChatWriting texts, sy_lines = [],
      sy_call = (new_BidiStreamingClientCallState ctx)\<lparr>xb_writer := new_RawClientWriterImpl\<lparr>cw_req := True\<rparr>\<rparr>,
      sy_up = [], sy_up_end = False, sy_up_ended = False, sy_server = srv, sy_done = None, sy_deferred = False,
      sy_down = [], sy_trailers = None, sy_finished = False\<rparr>"

text \<open>What the client prints for a message, and the end of a session: every echo printed, and \<open>Finish\<close> returns OK.\<close>

definition echo_line :: "string \<Rightarrow> string" where
  "echo_line text = ''  echo: '' @ text"

definition chat_complete :: "string list \<Rightarrow> ChatSystem \<Rightarrow> bool" where
  "chat_complete texts s \<longleftrightarrow> sy_lines s = map echo_line texts \<and> sy_client s = ChatFinishing \<and> sy_done s = Some status_ok
     \<and> RawClientReader_Finish (xb_reader (sy_call s)) = Some status_ok
     \<and> RawClientWriter_Finish (xb_writer (sy_call s)) = Some status_ok"

section \<open>The two directions\<close>

text \<open>
  The requests under way: what the server's parser holds, the wire, the client's queue of frames
  and the tasks it has posted are together the frames of \<open>msgs\<close>. \<open>closing\<close> says that the client has
  called \<open>WritesDone\<close>.
\<close>

definition requests_on_way :: "nat \<Rightarrow> bytes list \<Rightarrow> bool \<Rightarrow> RawClientWriterImpl \<Rightarrow> bytes \<Rightarrow> bool \<Rightarrow> StreamingFrameParser \<Rightarrow> bool" where
  "requests_on_way m msgs closing w wire ended p \<longleftrightarrow>
     cw_inv w \<and> cw_req w \<and> (\<forall>f. PushFrame f \<in> set (cw_posted w) \<longrightarrow> f \<noteq> []) \<and> sp_inv m p
     \<and> sp_pend p @ wire @ cw_rest w @ posted_bytes (cw_posted w) = framed msgs
     \<and> (cw_deferred w \<longrightarrow> cw_pending w = [] \<and> \<not> cw_writes_done w)
     \<and> closing = (cw_writes_done w \<or> SetWritesDone \<in> set (cw_posted w))
     \<and> (ended \<longrightarrow> cw_writes_done w)"

lemma requests_write:
  assumes "requests_on_way m msgs False w wire ended p" "length b < 2 ^ 32"
  shows "\<exists>w'. Enqueue b w = (status_ok, w') \<and> requests_on_way m (msgs @ [b]) False w' wire ended p
    \<and> RawClientWriter_Finish w' = RawClientWriter_Finish w"
proof -
  obtain fr where fr: "EncodeFrame 0 b = Some fr" "length fr = 5 + length b"
    using EncodeFrame_frame [OF assms(2), of 0] by metis
  then have "framed [b] = fr" "fr \<noteq> []" by (auto simp: framed_def)
  then show ?thesis
    using assms(1) by (auto simp: requests_on_way_def Enqueue_def fr(1) framed_append RawClientWriter_Finish_def)
qed

lemma requests_close:
  "requests_on_way m msgs False w wire ended p \<Longrightarrow> requests_on_way m msgs True (MarkWritesDone w) wire ended p"
  by (auto simp: requests_on_way_def MarkWritesDone_def)

lemma requests_strand:
  "requests_on_way m msgs closing w wire ended p \<Longrightarrow> requests_on_way m msgs closing (cw_RunPosted w) wire ended p"
  by (cases "cw_posted w" rule: posted_bytes.cases)
    (auto simp: requests_on_way_def cw_RunPosted_def req_resume_def frames_rest_append intro!: frames_ok_append)

lemma requests_pull:
  assumes "requests_on_way m msgs closing w wire False p" "cw_Pull n w = (g, w')"
  shows "requests_on_way m msgs closing w' (wire @ gen_bytes g) (g = GEnd) p"
proof (cases "cw_pending w = []")
  case True
  then show ?thesis
    using assms by (auto simp: requests_on_way_def cw_Pull_def ClientWriterGenerator_def split: if_splits)
next
  case False
  then have "cw_inv w" "cw_rest w \<noteq> []" using assms(1) by (auto simp: requests_on_way_def frames_rest_Nil)
  then obtain bs w1 where w1: "ClientWriterGenerator w n = (GData bs, w1)" "cw_inv w1" "cw_rest w = bs @ cw_rest w1"
    using client_writer.pull_data [of w n] by blast
  moreover have "cw_posted w1 = cw_posted w" "cw_req w1 = cw_req w" "cw_writes_done w1 = cw_writes_done w"
    "cw_deferred w1 = cw_deferred w"
    using w1(1) False by (auto simp: ClientWriterGenerator_def Let_def split: list.splits if_splits)
  ultimately show ?thesis
    using assms False by (auto simp: requests_on_way_def cw_Pull_def)
qed

lemma requests_data:
  assumes "requests_on_way m msgs closing w (chunk @ wire) ended p" "list_all (\<lambda>b. length b \<le> m \<and> length b < 2 ^ 32) msgs"
  shows "\<exists>ys zs p'. msgs = ys @ zs \<and> sp_loop p chunk = Some (p', ys, status_ok) \<and> requests_on_way m zs closing w wire ended p'"
proof -
  obtain ys zs r where cut: "msgs = ys @ zs" "lpm_spec sp_accept m (sp_pend p @ chunk) = (ys, Rest r)"
    "r @ wire @ cw_rest w @ posted_bytes (cw_posted w) = framed zs"
    using lpm_spec_cut [OF _ assms(2), of "sp_pend p @ chunk" "wire @ cw_rest w @ posted_bytes (cw_posted w)" sp_accept] assms(1)
    by (auto simp: requests_on_way_def sp_accept_def)
  moreover have "sfp.computes m (sp_loop p chunk) (ys, Rest r)"
    using sfp.run_computes [of m p chunk] assms(1) by (simp add: requests_on_way_def cut(2))
  ultimately show ?thesis
    using assms(1) by (auto simp: sfp.computes_def requests_on_way_def)
qed

text \<open>A request that has left the client's writer and the wire completely is not held back by the parser.\<close>

lemma requests_arrived:
  assumes "requests_on_way m msgs closing w [] ended p" "list_all (\<lambda>b. length b \<le> m \<and> length b < 2 ^ 32) msgs"
    and "cw_rest w = []" "cw_posted w = []"
  shows "msgs = []"
proof -
  have "sp_pend p = framed msgs" "sp_inv m p" using assms by (auto simp: requests_on_way_def)
  then show ?thesis
    using sfp.inv_pend [of m p] lpm_spec_framed [OF assms(2), of sp_accept "[]"] by (simp add: sp_accept_def)
qed

text \<open>
  The responses under way: what the client's parser holds, the wire and the server's queue of frames.
  \<open>finished\<close> says that the handler has returned.
\<close>

definition responses_on_way :: "nat \<Rightarrow> nat \<Rightarrow> bytes list \<Rightarrow> bool \<Rightarrow> bool \<Rightarrow> RawServerWriterImpl \<Rightarrow> bytes \<Rightarrow> header_map option \<Rightarrow> ClientLpm \<Rightarrow> bool" where
  "responses_on_way mresp m msgs finished deferred w wire trailers p \<longleftrightarrow>
     sw_inv w \<and> sw_max_response_size w = mresp \<and> cl_inv m p \<and> cl_pend p @ wire @ sw_rest w = framed msgs
     \<and> (deferred \<longrightarrow> sw_rest w = [] \<and> \<not> finished) \<and> sw_finished w = finished
     \<and> sw_trail_hdrs w = (if finished then BuildTrailers status_ok [] [] else [])
     \<and> (trailers \<noteq> None \<longrightarrow> trailers = Some (BuildTrailers status_ok [] []) \<and> finished \<and> sw_rest w = [])"

lemma responses_pull:
  assumes "responses_on_way mresp m msgs finished False w wire None p" "sw_generate w n = (g, w')"
  shows "responses_on_way mresp m msgs finished (g = GDeferred) w' (wire @ gen_bytes g) (gen_trailers g) p"
proof (cases "sw_rest w = []")
  case True
  then have "sw_pending w = []" using assms(1) by (simp add: responses_on_way_def frames_rest_Nil)
  then show ?thesis
    using assms True by (auto simp: responses_on_way_def sw_generate_def split: if_splits)
next
  case False
  then obtain bs w1 where w1: "sw_generate w n = (GData bs, w1)" "sw_inv w1" "sw_rest w = bs @ sw_rest w1"
    using server_writer.pull_data [of w n] assms(1) by (auto simp: responses_on_way_def)
  moreover have "sw_max_response_size w1 = sw_max_response_size w" "sw_finished w1 = sw_finished w" "sw_trail_hdrs w1 = sw_trail_hdrs w"
    using w1(1) by (auto simp: sw_generate_def Let_def split: list.splits if_splits)
  ultimately show ?thesis
    using assms by (auto simp: responses_on_way_def)
qed

lemma responses_data:
  assumes "responses_on_way mresp m msgs finished deferred w (chunk @ wire) trailers p"
    and "list_all (\<lambda>b. length b \<le> m \<and> length b < 2 ^ 32) msgs"
  shows "\<exists>ys zs p'. msgs = ys @ zs \<and> client_lpm_loop m p chunk = Some (p', ys, status_ok)
    \<and> responses_on_way mresp m zs finished deferred w wire trailers p'"
proof -
  obtain ys zs r where cut: "msgs = ys @ zs" "lpm_spec cl_accept m (cl_pend p @ chunk) = (ys, Rest r)"
    "r @ wire @ sw_rest w = framed zs"
    using lpm_spec_cut [OF _ assms(2), of "cl_pend p @ chunk" "wire @ sw_rest w" cl_accept] assms(1)
    by (auto simp: responses_on_way_def)
  moreover have "clp.computes m (client_lpm_loop m p chunk) (ys, Rest r)"
    using clp.run_computes [of m p chunk] assms(1) by (simp add: responses_on_way_def cut(2))
  ultimately show ?thesis
    using assms(1) by (auto simp: clp.computes_def responses_on_way_def)
qed

lemma responses_arrived:
  assumes "responses_on_way mresp m msgs finished deferred w [] trailers p" "list_all (\<lambda>b. length b \<le> m \<and> length b < 2 ^ 32) msgs"
    and "sw_rest w = []"
  shows "msgs = []"
proof -
  have "cl_pend p = framed msgs" "cl_inv m p" using assms by (auto simp: responses_on_way_def)
  then show ?thesis
    using clp.inv_pend [of m p] lpm_spec_framed [OF assms(2), of cl_accept "[]"] by simp
qed

section \<open>The queues and the handler\<close>

text \<open>A queue without an error that holds \<open>msgs\<close>; a consumer that waits on it has nothing to read.\<close>

definition queue_holds :: "bytes list \<Rightarrow> bool \<Rightarrow> StreamMessageQueue \<Rightarrow> bool" where
  "queue_holds msgs eos q \<longleftrightarrow> q_buffer q = msgs \<and> q_error q = None \<and> q_eos q = eos \<and> q_inv q"

lemma fold_Push_wake: "q_inv q \<Longrightarrow> q_inv (fold Push ms q)"
proof (induction ms arbitrary: q)
  case (Cons m ms)
  have "q_inv (Push m q)" by (simp add: q_inv_def)
  then show ?case by (simp add: Cons.IH)
qed simp

lemma queue_holds_push: "queue_holds msgs eos q \<Longrightarrow> queue_holds (msgs @ ms) eos (fold Push ms q)"
  by (simp add: queue_holds_def fold_Push_wake)

lemma queue_holds_eos: "queue_holds msgs eos q \<Longrightarrow> queue_holds msgs True (SetEos q)"
  by (simp add: queue_holds_def q_inv_def)

text \<open>A text that fits: it and its echo can be serialized, within every limit on the way.\<close>

definition chat_request :: "ChatMessage Codec \<Rightarrow> string \<Rightarrow> bytes" where
  "chat_request pb text = the (pb_SerializeToString pb \<lparr>cm_text = text\<rparr>)"

definition chat_reply :: "ChatMessage Codec \<Rightarrow> string \<Rightarrow> bytes" where
  "chat_reply pb text = the (pb_SerializeToString pb (echoed \<lparr>cm_text = text\<rparr>))"

definition chat_fits :: "ChatMessage Codec \<Rightarrow> nat \<Rightarrow> nat \<Rightarrow> nat \<Rightarrow> string \<Rightarrow> bool" where
  "chat_fits pb mmsg mresp mrecv text \<longleftrightarrow>
     (case pb_SerializeToString pb \<lparr>cm_text = text\<rparr> of None \<Rightarrow> False | Some b \<Rightarrow> length b \<le> mmsg \<and> length b < 2 ^ 32)
     \<and> (case pb_SerializeToString pb (echoed \<lparr>cm_text = text\<rparr>) of
          None \<Rightarrow> False | Some b \<Rightarrow> length b \<le> mresp \<and> length b \<le> mrecv \<and> length b < 2 ^ 32)"

lemma chat_fits_serialized:
  assumes "chat_fits pb mmsg mresp mrecv text"
  shows "pb_SerializeToString pb \<lparr>cm_text = text\<rparr> = Some (chat_request pb text)"
    "pb_SerializeToString pb (echoed \<lparr>cm_text = text\<rparr>) = Some (chat_reply pb text)"
    "length (chat_request pb text) \<le> mmsg" "length (chat_request pb text) < 2 ^ 32"
    "length (chat_reply pb text) \<le> mresp" "length (chat_reply pb text) \<le> mrecv" "length (chat_reply pb text) < 2 ^ 32"
  using assms by (auto simp: chat_fits_def chat_request_def chat_reply_def split: option.splits)

lemma chat_fits_sizes:
  assumes "list_all (chat_fits pb mmsg mresp mrecv) texts"
  shows "list_all (\<lambda>b. length b \<le> mmsg \<and> length b < 2 ^ 32) (map (chat_request pb) texts)"
    "list_all (\<lambda>b. length b \<le> mresp \<and> length b < 2 ^ 32) (map (chat_reply pb) texts)"
    "list_all (\<lambda>b. length b \<le> mrecv \<and> length b < 2 ^ 32) (map (chat_reply pb) texts)"
  using assms by (auto simp: list_all_iff dest: chat_fits_serialized chat_fits_serialized(4,7) [simplified])

text \<open>The handler's turn answers every message in its queue and wakes the response if it has written or returned.\<close>

lemma handler_answers:
  assumes "codec_ok pb" "list_all (chat_fits pb mmsg mresp mrecv) texts" "queue_holds (map (chat_request pb) texts) eos (bd_queue srv)"
    and "responses_on_way mresp m msgs False deferred (bd_writer srv) wire None p"
    and "Chat pb (bd_queue srv) (bd_writer srv) = (r, q, w, acts)" "srv' = after_turn r q w acts srv"
  shows "r = (if eos then Some status_ok else None)" "queue_holds [] eos (bd_queue srv')" "\<not> eos \<Longrightarrow> q_wake (bd_queue srv') = Waiting"
    "bd_parser srv' = bd_parser srv" "\<exists>acts'. bd_sent srv' = bd_sent srv @ acts'"
    "responses_on_way mresp m (msgs @ map (chat_reply pb) texts) eos (deferred \<and> \<not> resumed srv srv') (bd_writer srv') wire None p"
proof -
  let ?ms = "map (\<lambda>t. \<lparr>cm_text = t\<rparr>) texts"
  have ser: "list_all2 (\<lambda>m bs. pb_SerializeToString pb m = Some bs) ?ms (map (chat_request pb) texts)"
    "list_all2 (\<lambda>m bs. pb_SerializeToString pb m = Some bs) (map echoed ?ms) (map (chat_reply pb) texts)"
    using assms(2) by (auto simp: list_all_iff list_all2_map1 list_all2_map2 list_all2_same dest: chat_fits_serialized)
  have "map (pb_ParseFromString pb) (q_buffer (bd_queue srv)) = map Some ?ms"
    using serialized_parse [OF assms(1) ser(1)] assms(3) by (simp add: queue_holds_def)
  then obtain q' w' where run: "Chat pb (bd_queue srv) (bd_writer srv)
      = (if eos then Some status_ok else None, q', w', replicate (length texts) Resume)"
    "q_buffer q' = []" "q_error q' = None" "q_eos q' = eos" "q_wake q' = (if eos then NoWait else Waiting)"
    "sw_inv w'" "\<not> sw_finished w'" "sw_max_response_size w' = mresp" "sw_trail_hdrs w' = []"
    "sw_rest w' = sw_rest (bd_writer srv) @ framed (map (chat_reply pb) texts)"
    using Chat_runs [of "bd_queue srv" pb ?ms "bd_writer srv" "map (chat_reply pb) texts"] ser(2) chat_fits_sizes(2) [OF assms(2)] assms(3,4)
    by (auto simp: queue_holds_def responses_on_way_def)
  note after = assms(5,6) run after_turn_def bd_HandlerDone_def bd_Finish_def sw_Finish_def
  show "r = (if eos then Some status_ok else None)" "queue_holds [] eos (bd_queue srv')" "bd_parser srv' = bd_parser srv"
    "\<exists>acts'. bd_sent srv' = bd_sent srv @ acts'" "\<not> eos \<Longrightarrow> q_wake (bd_queue srv') = Waiting"
    using assms(5) run by (auto simp: after queue_holds_def q_inv_def Let_def)
  show "responses_on_way mresp m (msgs @ map (chat_reply pb) texts) eos (deferred \<and> \<not> resumed srv srv') (bd_writer srv') wire None p"
    using assms(4,5) run by (cases texts) (auto simp: after responses_on_way_def resumed_def framed_append framed_def Let_def)
qed

section \<open>The invariant\<close>

fun chat_todo :: "ChatClient \<Rightarrow> string list" where
  "chat_todo (ChatWriting messages) = messages"
| "chat_todo (ChatReading messages) = messages"
| "chat_todo ChatFinishing = []"

fun chat_awaited :: "ChatClient \<Rightarrow> nat" where
  "chat_awaited (ChatReading messages) = 1"
| "chat_awaited client = 0"

text \<open>
  Where every text is: printed (\<open>past\<close>), its echo in the client's queue (\<open>d\<close>) or on the way down
  (\<open>c\<close>), in the handler's queue (\<open>b\<close>), on the way up (\<open>a\<close>) or not written yet. At most one of them is
  between the two ends, and exactly one while the client waits for an echo.
\<close>

definition chat_at :: "ChatMessage Codec \<Rightarrow> nat \<Rightarrow> nat \<Rightarrow> nat \<Rightarrow> string list
    \<Rightarrow> string list \<Rightarrow> string list \<Rightarrow> string list \<Rightarrow> string list \<Rightarrow> string list \<Rightarrow> ChatSystem \<Rightarrow> bool" where
  "chat_at pb mmsg mresp mrecv texts past d c b a s \<longleftrightarrow>
     texts = past @ d @ c @ b @ a @ chat_todo (sy_client s) \<and> length (d @ c @ b @ a) = chat_awaited (sy_client s)
     \<and> sy_lines s = map echo_line past
     \<and> requests_on_way mmsg (map (chat_request pb) a) (sy_client s = ChatFinishing) (xb_writer (sy_call s)) (sy_up s) (sy_up_end s)
         (bd_parser (sy_server s))
     \<and> queue_holds (map (chat_request pb) b) (sy_up_ended s) (bd_queue (sy_server s))
     \<and> responses_on_way mresp mrecv (map (chat_reply pb) c) (sy_done s \<noteq> None) (sy_deferred s) (bd_writer (sy_server s)) (sy_down s)
         (sy_trailers s) (xb_lpm (sy_call s))
     \<and> queue_holds (map (chat_reply pb) d) (sy_finished s) (cr_msg_queue (xb_reader (sy_call s)))
     \<and> recv_limit (xb_ctx (sy_call s)) = mrecv \<and> \<not> xb_closed (sy_call s)
     \<and> (\<exists>h acts. bd_sent (sy_server s) = WriteHead 200 h # acts \<and> (\<forall>call. xb_Attach 200 h call = call\<lparr>xb_attached := True\<rparr>))
     \<and> (sy_up_ended s \<longrightarrow> sy_up_end s) \<and> (\<forall>st. sy_done s = Some st \<longrightarrow> st = status_ok)
     \<and> (sy_done s \<noteq> None \<longrightarrow> sy_up_ended s) \<and> (sy_finished s \<longrightarrow> sy_trailers s \<noteq> None
          \<and> RawClientReader_Finish (xb_reader (sy_call s)) = Some status_ok \<and> RawClientWriter_Finish (xb_writer (sy_call s)) = Some status_ok)"

definition chat_inv :: "ChatMessage Codec \<Rightarrow> nat \<Rightarrow> nat \<Rightarrow> nat \<Rightarrow> string list \<Rightarrow> ChatSystem \<Rightarrow> bool" where
  "chat_inv pb mmsg mresp mrecv texts s \<longleftrightarrow> (\<exists>past d c b a. chat_at pb mmsg mresp mrecv texts past d c b a s)"

lemma chat_invI: "chat_at pb mmsg mresp mrecv texts past d c b a s \<Longrightarrow> chat_inv pb mmsg mresp mrecv texts s"
  unfolding chat_inv_def by blast

text \<open>The order in which every step goes down: what each part still has to do, from the client to the client.\<close>

fun client_rank :: "ChatClient \<Rightarrow> nat" where
  "client_rank (ChatWriting messages) = 2 * length messages + 1"
| "client_rank (ChatReading messages) = 2 * length messages + 2"
| "client_rank ChatFinishing = 0"

definition chat_order :: "(ChatSystem \<times> ChatSystem) set" where
  "chat_order = measures
     [\<lambda>s. client_rank (sy_client s),
      \<lambda>s. length (cw_posted (xb_writer (sy_call s))),
      \<lambda>s. length (cw_rest (xb_writer (sy_call s))) + of_bool (\<not> sy_up_end s) + of_bool (\<not> cw_deferred (xb_writer (sy_call s))),
      \<lambda>s. length (sy_up s) + of_bool (\<not> sy_up_ended s),
      \<lambda>s. of_bool (sy_done s = None \<and> q_wake (bd_queue (sy_server s)) \<noteq> Waiting),
      \<lambda>s. length (sw_rest (bd_writer (sy_server s))) + of_bool (sy_trailers s = None) + of_bool (\<not> sy_deferred s),
      \<lambda>s. length (sy_down s) + of_bool (\<not> sy_finished s) + of_bool (\<not> xb_attached (sy_call s)),
      \<lambda>s. of_bool (client_ready (sy_client s) (cr_msg_queue (xb_reader (sy_call s))))]"

lemma chat_order_wf: "wf chat_order"
  by (simp add: chat_order_def)

lemma chat_at_flags:
  assumes "chat_at pb mmsg mresp mrecv texts past d c b a s"
  shows "sy_finished s \<Longrightarrow> sy_client s = ChatFinishing" "sy_up_end s \<Longrightarrow> sy_client s = ChatFinishing" "sy_done s = None \<Longrightarrow> sy_trailers s = None"
  using assms by (auto simp: chat_at_def requests_on_way_def responses_on_way_def)

section \<open>Every step keeps the invariant and goes down\<close>

lemma chat_reads:
  assumes "codec_ok pb" "list_all (chat_fits pb mmsg mresp mrecv) d" "queue_holds (map (chat_reply pb) d) False (cr_msg_queue r)"
  shows "chat_resume pb (ChatReading messages) r w =
    (case d of
       [] \<Rightarrow> ([], ChatReading messages, r\<lparr>cr_msg_queue := (cr_msg_queue r)\<lparr>q_wake := Waiting\<rparr>\<rparr>, w)
     | x # rest \<Rightarrow> ([echo_line x], ChatWriting messages,
         r\<lparr>cr_msg_queue := (cr_msg_queue r)\<lparr>q_buffer := map (chat_reply pb) rest, q_wake := NoWait\<rparr>\<rparr>, w))"
proof (cases d)
  case Nil
  then show ?thesis
    using assms(3) by (simp add: queue_holds_def BidiStream_Read_def RawClientReader_Read_def Pop_def)
next
  case (Cons x rest)
  then have "pb_ParseFromString pb (chat_reply pb x) = Some (echoed \<lparr>cm_text = x\<rparr>)"
    using codec_string(1) [OF assms(1)] chat_fits_serialized(2) assms(2) by fastforce
  then show ?thesis
    using assms(3) Cons
    by (simp add: queue_holds_def BidiStream_Read_def RawClientReader_Read_def Pop_def pr_ok_def pr_eos_def typed_read_def
        echoed_def echo_line_def)
qed

lemma client_turn_ok:
  assumes "codec_ok pb" "list_all (chat_fits pb mmsg mresp mrecv) texts" "chat_at pb mmsg mresp mrecv texts past d c b a s"
    and "client_ready (sy_client s) (cr_msg_queue (xb_reader (sy_call s)))"
    and "chat_resume pb (sy_client s) (xb_reader (sy_call s)) (xb_writer (sy_call s)) = (out, client, r, w)"
    and "s' = s\<lparr>sy_client := client, sy_lines := sy_lines s @ out, sy_call := (sy_call s)\<lparr>xb_reader := r, xb_writer := w\<rparr>\<rparr>"
  shows "chat_inv pb mmsg mresp mrecv texts s' \<and> (s', s) \<in> chat_order"
proof (cases "sy_client s" rule: chat_todo.cases)
  case (1 messages)
  note at = assms(3) [unfolded chat_at_def] and flags = chat_at_flags [OF assms(3)]
  show ?thesis
  proof (cases messages)
    case Nil
    then have "chat_at pb mmsg mresp mrecv texts past d c b a s'"
      using at requests_close assms(5) 1 flags(1) by (auto simp: chat_at_def assms(6))
    from chat_invI [OF this] show ?thesis using 1 Nil assms(5) by (auto simp: chat_order_def assms(6))
  next
    case (Cons x rest)
    then have fits: "chat_fits pb mmsg mresp mrecv x" using at assms(2) 1 by (auto simp: list_all_iff)
    have req: "requests_on_way mmsg (map (chat_request pb) a) False (xb_writer (sy_call s)) (sy_up s) (sy_up_end s) (bd_parser (sy_server s))"
      using at 1 by auto
    obtain w' where w': "Enqueue (chat_request pb x) (xb_writer (sy_call s)) = (status_ok, w')"
      "requests_on_way mmsg (map (chat_request pb) a @ [chat_request pb x]) False w' (sy_up s) (sy_up_end s) (bd_parser (sy_server s))"
      using requests_write [OF req chat_fits_serialized(4) [OF fits]] by blast
    then have "chat_at pb mmsg mresp mrecv texts past d c b (a @ [x]) s'"
      using at assms(5) 1 Cons flags(1) chat_fits_serialized(1) [OF fits]
      by (auto simp: chat_at_def assms(6) BidiStream_Write_def)
    from chat_invI [OF this] show ?thesis
      using 1 Cons assms(5) w'(1) chat_fits_serialized(1) [OF fits]
      by (auto simp: chat_order_def assms(6) BidiStream_Write_def)
  qed
next
  case (2 messages)
  note at = assms(3) [unfolded chat_at_def] and flags = chat_at_flags [OF assms(3)]
  have unfinished: "\<not> sy_finished s" using flags(1) 2 by (metis ChatClient.distinct(5))
  then have "list_all (chat_fits pb mmsg mresp mrecv) d" "queue_holds (map (chat_reply pb) d) False (cr_msg_queue (xb_reader (sy_call s)))"
    using at assms(2) by simp_all
  note turn = assms(5) [unfolded 2 chat_reads [OF assms(1) this]]
  show ?thesis
  proof (cases d)
    case Nil
    then have eqs: "out = []" "client = ChatReading messages" "w = xb_writer (sy_call s)"
      "r = (xb_reader (sy_call s))\<lparr>cr_msg_queue := (cr_msg_queue (xb_reader (sy_call s)))\<lparr>q_wake := Waiting\<rparr>\<rparr>"
      using turn by simp_all
    have "chat_at pb mmsg mresp mrecv texts past d c b a s'"
      using at 2 unfinished Nil by (auto simp: chat_at_def assms(6) eqs queue_holds_def q_inv_def)
    from chat_invI [OF this] show ?thesis
      using 2 assms(4) by (simp add: chat_order_def assms(6) eqs)
  next
    case (Cons x rest)
    then have eqs: "out = [echo_line x]" "client = ChatWriting messages" "w = xb_writer (sy_call s)"
      "r = (xb_reader (sy_call s))\<lparr>cr_msg_queue := (cr_msg_queue (xb_reader (sy_call s)))\<lparr>q_buffer := map (chat_reply pb) rest, q_wake := NoWait\<rparr>\<rparr>"
      using turn by simp_all
    have "chat_at pb mmsg mresp mrecv texts (past @ [x]) rest c b a s'"
      using at 2 unfinished Cons by (auto simp: chat_at_def assms(6) eqs queue_holds_def q_inv_def)
    from chat_invI [OF this] show ?thesis
      using 2 by (simp add: chat_order_def assms(6) eqs)
  qed
qed (use assms(4) in simp)

lemma strand_ok:
  assumes "chat_at pb mmsg mresp mrecv texts past d c b a s" "cw_posted (xb_writer (sy_call s)) \<noteq> []"
    and "s' = s\<lparr>sy_call := (sy_call s)\<lparr>xb_writer := cw_RunPosted (xb_writer (sy_call s))\<rparr>\<rparr>"
  shows "chat_inv pb mmsg mresp mrecv texts s' \<and> (s', s) \<in> chat_order"
proof -
  have "RawClientWriter_Finish (cw_RunPosted w) = RawClientWriter_Finish w" for w
    by (cases "cw_posted w" rule: posted_bytes.cases) (simp_all add: RawClientWriter_Finish_def cw_RunPosted_def req_resume_def)
  then have "chat_at pb mmsg mresp mrecv texts past d c b a s'"
    using assms(1) requests_strand by (auto simp: chat_at_def assms(3))
  moreover have "length (cw_posted (cw_RunPosted w)) < length (cw_posted w)" if "cw_posted w \<noteq> []" for w
    using that by (cases "cw_posted w" rule: posted_bytes.cases) (simp_all add: cw_RunPosted_def req_resume_def)
  ultimately show ?thesis using assms(2) by (simp add: chat_invI chat_order_def assms(3))
qed

lemma pull_sends:
  assumes "requests_on_way m msgs closing w wire False p" "0 < n" "\<not> cw_deferred w" "cw_Pull n w = (g, w')"
  shows "cw_posted w' = cw_posted w \<and> RawClientWriter_Finish w' = RawClientWriter_Finish w
    \<and> length (cw_rest w') + of_bool (g \<noteq> GEnd) + of_bool (\<not> cw_deferred w') < length (cw_rest w) + 2"
proof (cases "cw_pending w = []")
  case True
  then show ?thesis
    using assms by (auto simp: cw_Pull_def ClientWriterGenerator_def RawClientWriter_Finish_def split: if_splits)
next
  case False
  then have "cw_inv w" "cw_rest w \<noteq> []" using assms(1) by (auto simp: requests_on_way_def frames_rest_Nil)
  then obtain bs w1 where w1: "ClientWriterGenerator w n = (GData bs, w1)" "cw_rest w = bs @ cw_rest w1" "bs \<noteq> []"
    using client_writer.pull_data [of w n] assms(2) by blast
  moreover have "cw_posted w1 = cw_posted w" "cw_deferred w1 = cw_deferred w" "RawClientWriter_Finish w1 = RawClientWriter_Finish w"
    using w1(1) False by (auto simp: ClientWriterGenerator_def RawClientWriter_Finish_def Let_def split: list.splits if_splits)
  ultimately show ?thesis
    using assms(3,4) by (auto simp: cw_Pull_def)
qed

lemma request_pull_ok:
  assumes "chat_at pb mmsg mresp mrecv texts past d c b a s" "0 < n" "\<not> cw_deferred (xb_writer (sy_call s))" "\<not> sy_up_end s"
    and "cw_Pull n (xb_writer (sy_call s)) = (g, w)"
    and "s' = s\<lparr>sy_call := (sy_call s)\<lparr>xb_writer := w\<rparr>, sy_up := sy_up s @ gen_bytes g, sy_up_end := (g = GEnd)\<rparr>"
  shows "chat_inv pb mmsg mresp mrecv texts s' \<and> (s', s) \<in> chat_order"
proof -
  have way: "requests_on_way mmsg (map (chat_request pb) a) (sy_client s = ChatFinishing) (xb_writer (sy_call s)) (sy_up s) False
      (bd_parser (sy_server s))"
    using assms(1,4) by (simp add: chat_at_def)
  note sends = pull_sends [OF way assms(2,3,5)]
  have "chat_at pb mmsg mresp mrecv texts past d c b a s'"
    using assms(1,4) requests_pull [OF way assms(5)] sends by (auto simp: chat_at_def assms(6))
  then show ?thesis using sends assms(3,4) by (simp add: chat_invI chat_order_def assms(6))
qed

lemma fits_parts:
  assumes "list_all (chat_fits pb mmsg mresp mrecv) texts" "chat_at pb mmsg mresp mrecv texts past d c b a s"
  shows "list_all (chat_fits pb mmsg mresp mrecv) a" "list_all (chat_fits pb mmsg mresp mrecv) b" "list_all (chat_fits pb mmsg mresp mrecv) c"
  using assms by (simp_all add: chat_at_def)

text \<open>The server takes any chunk of the requests, and the client any chunk of the responses.\<close>

lemma request_data_accepted:
  assumes "list_all (chat_fits pb mmsg mresp mrecv) texts" "chat_at pb mmsg mresp mrecv texts past d c b a s" "sy_up s = chunk @ rest" "chunk \<noteq> []"
  obtains srv where "bd_OnData chunk (sy_server s) = Some srv"
    "chat_inv pb mmsg mresp mrecv texts (s\<lparr>sy_up := rest, sy_server := srv\<rparr>)"
proof -
  note sizes = chat_fits_sizes(1) [OF fits_parts(1) [OF assms(1,2)]]
  have way: "requests_on_way mmsg (map (chat_request pb) a) (sy_client s = ChatFinishing) (xb_writer (sy_call s)) (chunk @ rest) (sy_up_end s)
      (bd_parser (sy_server s))"
    using assms(2,3) by (simp add: chat_at_def)
  obtain ys zs p where p: "map (chat_request pb) a = ys @ zs" "sp_loop (bd_parser (sy_server s)) chunk = Some (p, ys, status_ok)"
    "requests_on_way mmsg zs (sy_client s = ChatFinishing) (xb_writer (sy_call s)) rest (sy_up_end s) p"
    using requests_data [OF way sizes] by blast
  then obtain a1 a2 where a: "a = a1 @ a2" "ys = map (chat_request pb) a1" "zs = map (chat_request pb) a2"
    by (auto simp: map_eq_append_conv)
  let ?srv = "(sy_server s)\<lparr>bd_parser := p, bd_queue := fold Push ys (bd_queue (sy_server s))\<rparr>"
  have "bd_OnData chunk (sy_server s) = Some ?srv"
    using p(2) assms(4) by (simp add: bd_OnData_def)
  moreover have "chat_at pb mmsg mresp mrecv texts past d c (b @ a1) a2 (s\<lparr>sy_up := rest, sy_server := ?srv\<rparr>)"
    using assms(2) p(3) queue_holds_push a by (auto simp: chat_at_def)
  ultimately show thesis using that chat_invI by blast
qed

lemma response_data_accepted:
  assumes "list_all (chat_fits pb mmsg mresp mrecv) texts" "chat_at pb mmsg mresp mrecv texts past d c b a s" "sy_down s = chunk @ rest" "chunk \<noteq> []"
  obtains call where "xb_OnData chunk (sy_call s) = Some call" "xb_writer call = xb_writer (sy_call s)" "xb_attached call = xb_attached (sy_call s)"
    "chat_inv pb mmsg mresp mrecv texts (s\<lparr>sy_down := rest, sy_call := call\<rparr>)"
proof -
  note sizes = chat_fits_sizes(3) [OF fits_parts(3) [OF assms(1,2)]]
  have way: "responses_on_way mresp mrecv (map (chat_reply pb) c) (sy_done s \<noteq> None) (sy_deferred s) (bd_writer (sy_server s)) (chunk @ rest)
      (sy_trailers s) (xb_lpm (sy_call s))"
    using assms(2,3) by (simp add: chat_at_def)
  obtain ys zs p where p: "map (chat_reply pb) c = ys @ zs" "client_lpm_loop mrecv (xb_lpm (sy_call s)) chunk = Some (p, ys, status_ok)"
    "responses_on_way mresp mrecv zs (sy_done s \<noteq> None) (sy_deferred s) (bd_writer (sy_server s)) rest (sy_trailers s) p"
    using responses_data [OF way sizes] by blast
  then obtain c1 c2 where c: "c = c1 @ c2" "ys = map (chat_reply pb) c1" "zs = map (chat_reply pb) c2"
    by (auto simp: map_eq_append_conv)
  let ?call = "(sy_call s)\<lparr>xb_lpm := p, xb_reader := (xb_reader (sy_call s))\<lparr>cr_msg_queue := fold Push ys (cr_msg_queue (xb_reader (sy_call s)))\<rparr>\<rparr>"
  have "xb_OnData chunk (sy_call s) = Some ?call"
    using p(2) assms(2,4) by (simp add: xb_OnData_def chat_at_def)
  moreover have "chat_at pb mmsg mresp mrecv texts past (d @ c1) c2 b a (s\<lparr>sy_down := rest, sy_call := ?call\<rparr>)"
    using assms(2) p(3) queue_holds_push c by (auto simp: chat_at_def RawClientReader_Finish_def)
  ultimately show thesis using that [of ?call] chat_invI by simp
qed

lemma request_end_ok:
  assumes "chat_at pb mmsg mresp mrecv texts past d c b a s" "sy_up_end s" "\<not> sy_up_ended s"
    and "bd_OnData [] (sy_server s) = Some srv" "s' = s\<lparr>sy_up_ended := True, sy_server := srv\<rparr>"
  shows "chat_inv pb mmsg mresp mrecv texts s' \<and> (s', s) \<in> chat_order"
proof -
  have "chat_at pb mmsg mresp mrecv texts past d c b a s'"
    using assms queue_holds_eos by (auto simp: chat_at_def bd_OnData_def)
  then show ?thesis using assms(3) by (simp add: chat_invI chat_order_def assms(5))
qed

lemma handler_turn_ok:
  assumes "codec_ok pb" "list_all (chat_fits pb mmsg mresp mrecv) texts" "chat_at pb mmsg mresp mrecv texts past d c b a s"
    and "sy_done s = None" "q_wake (bd_queue (sy_server s)) \<noteq> Waiting"
    and "Chat pb (bd_queue (sy_server s)) (bd_writer (sy_server s)) = (r, q, w, acts)" "srv = after_turn r q w acts (sy_server s)"
    and "s' = s\<lparr>sy_server := srv, sy_done := r, sy_deferred := (sy_deferred s \<and> \<not> resumed (sy_server s) srv)\<rparr>"
  shows "chat_inv pb mmsg mresp mrecv texts s' \<and> (s', s) \<in> chat_order"
proof -
  note at = assms(3) [unfolded chat_at_def]
  have hold: "queue_holds (map (chat_request pb) b) (sy_up_ended s) (bd_queue (sy_server s))"
    and way: "responses_on_way mresp mrecv (map (chat_reply pb) c) False (sy_deferred s) (bd_writer (sy_server s)) (sy_down s) None
        (xb_lpm (sy_call s))"
    using at assms(4) chat_at_flags(3) [OF assms(3,4)] by simp_all
  note turn = handler_answers [OF assms(1) fits_parts(2) [OF assms(2,3)] hold way assms(6,7)]
  have "chat_at pb mmsg mresp mrecv texts past d (c @ b) [] a s'"
    using at turn(1,2,4-6) assms(4) chat_at_flags(3) [OF assms(3,4)] by (auto simp: chat_at_def assms(8))
  moreover have "r \<noteq> None \<or> q_wake (bd_queue srv) = Waiting" using turn(1,3) by auto
  ultimately show ?thesis using assms(4,5) by (auto simp: chat_invI chat_order_def assms(8))
qed

lemma generator_sel:
  assumes "bd_Generate n srv = (g, srv')"
  shows "sw_generate (bd_writer srv) n = (g, bd_writer srv')" "bd_queue srv' = bd_queue srv" "bd_parser srv' = bd_parser srv"
    "\<exists>acts. bd_sent srv' = bd_sent srv @ acts"
  using assms by (auto simp: bd_Generate_def split: prod.splits gen_result.splits)

lemma response_pull_ok:
  assumes "chat_at pb mmsg mresp mrecv texts past d c b a s" "0 < n" "\<not> sy_deferred s" "sy_trailers s = None"
    and "bd_Generate n (sy_server s) = (g, srv)"
    and "s' = s\<lparr>sy_server := srv, sy_down := sy_down s @ gen_bytes g, sy_trailers := gen_trailers g, sy_deferred := (g = GDeferred)\<rparr>"
  shows "chat_inv pb mmsg mresp mrecv texts s' \<and> (s', s) \<in> chat_order"
proof -
  note gen = generator_sel [OF assms(5)]
  have way: "responses_on_way mresp mrecv (map (chat_reply pb) c) (sy_done s \<noteq> None) False (bd_writer (sy_server s)) (sy_down s) None
      (xb_lpm (sy_call s))"
    using assms(1,3,4) by (simp add: chat_at_def)
  have "chat_at pb mmsg mresp mrecv texts past d c b a s'"
    using assms(1,4) responses_pull [OF way gen(1)] gen by (auto simp: chat_at_def assms(6))
  moreover have "length (sw_rest (bd_writer srv)) + of_bool (gen_trailers g = None) + of_bool (g \<noteq> GDeferred)
      < length (sw_rest (bd_writer (sy_server s))) + 2"
  proof (cases "sw_rest (bd_writer (sy_server s)) = []")
    case True
    then show ?thesis
      using server_writer.pull_fin [of "bd_writer (sy_server s)" n] way gen(1) by (auto simp: responses_on_way_def split: if_splits)
  next
    case False
    then show ?thesis
      using server_writer.pull_data [of "bd_writer (sy_server s)" n] way gen(1) assms(2) by (auto simp: responses_on_way_def)
  qed
  ultimately show ?thesis using assms(3,4) gen(2) by (simp add: chat_invI chat_order_def assms(6))
qed

lemma response_head_ok:
  assumes "chat_at pb mmsg mresp mrecv texts past d c b a s" "\<not> xb_attached (sy_call s)" "bd_sent (sy_server s) = WriteHead code h # acts"
    and "s' = s\<lparr>sy_call := xb_Attach code h (sy_call s)\<rparr>"
  shows "chat_inv pb mmsg mresp mrecv texts s' \<and> (s', s) \<in> chat_order"
proof -
  have att: "xb_Attach code h (sy_call s) = (sy_call s)\<lparr>xb_attached := True\<rparr>"
    using assms(1,3) by (auto simp: chat_at_def)
  then have "chat_at pb mmsg mresp mrecv texts past d c b a s'"
    using assms(1) by (simp add: chat_at_def assms(4))
  then show ?thesis using assms(2) by (simp add: chat_invI chat_order_def assms(4) att)
qed

lemma response_trailers_ok:
  assumes "chat_at pb mmsg mresp mrecv texts past d c b a s" "sy_trailers s = Some t" "\<not> sy_finished s"
    and "s' = s\<lparr>sy_finished := True, sy_call := xb_OnTrailers t (sy_call s)\<rparr>"
  shows "chat_inv pb mmsg mresp mrecv texts s' \<and> (s', s) \<in> chat_order"
proof -
  have "ExtractTrailerStatus t = status_ok" "\<not> xb_closed (sy_call s)"
    using assms(1,2) by (auto simp: chat_at_def responses_on_way_def Extract_BuildTrailers)
  then have call: "xb_OnTrailers t (sy_call s) = (sy_call s)\<lparr>xb_trailers_done := True,
      xb_reader := cr_SetFinalStatus status_ok ((xb_reader (sy_call s))\<lparr>cr_msg_queue := SetEos (cr_msg_queue (xb_reader (sy_call s)))\<rparr>),
      xb_writer := cw_SetFinalStatus status_ok (xb_writer (sy_call s))\<rparr>"
    by (simp add: xb_OnTrailers_def xb_MaybeDeliverStatus_def reader_status_def)
  have "requests_on_way m msgs closing (cw_SetFinalStatus st w) wire ended p = requests_on_way m msgs closing w wire ended p"
    for m msgs closing st w wire ended p
    by (simp add: requests_on_way_def cw_SetFinalStatus_def)
  then have "chat_at pb mmsg mresp mrecv texts past d c b a s'"
    using assms(1,2) queue_holds_eos
    by (auto simp: chat_at_def assms(4) call cr_SetFinalStatus_def RawClientReader_Finish_def RawClientWriter_Finish_def cw_SetFinalStatus_def)
  then show ?thesis
    using assms(3) by (simp add: chat_invI chat_order_def assms(4) call cw_SetFinalStatus_def)
qed

lemma chat_step_ok:
  assumes "codec_ok pb" "list_all (chat_fits pb mmsg mresp mrecv) texts" "chat_step pb s s'" "chat_inv pb mmsg mresp mrecv texts s"
  shows "chat_inv pb mmsg mresp mrecv texts s' \<and> (s', s) \<in> chat_order"
proof -
  obtain past d c b a where at: "chat_at pb mmsg mresp mrecv texts past d c b a s" using assms(4) by (auto simp: chat_inv_def)
  from assms(3) show ?thesis
  proof cases
    case client_turn
    then show ?thesis using client_turn_ok [OF assms(1,2) at] by blast
  next
    case strand
    then show ?thesis using strand_ok [OF at] by blast
  next
    case request_pull
    then show ?thesis using request_pull_ok [OF at] by blast
  next
    case (request_data chunk rest srv)
    then have "chat_inv pb mmsg mresp mrecv texts s'"
      using request_data_accepted [OF assms(2) at request_data(2,3)] by (metis option.inject)
    moreover have "(s', s) \<in> chat_order" using request_data by (simp add: chat_order_def)
    ultimately show ?thesis ..
  next
    case request_end
    then show ?thesis using request_end_ok [OF at] by blast
  next
    case handler_turn
    then show ?thesis using handler_turn_ok [OF assms(1,2) at] by blast
  next
    case response_pull
    then show ?thesis using response_pull_ok [OF at] by blast
  next
    case response_head
    then show ?thesis using response_head_ok [OF at] by blast
  next
    case (response_data chunk rest call)
    obtain call' where call': "xb_OnData chunk (sy_call s) = Some call'" "xb_writer call' = xb_writer (sy_call s)"
      "xb_attached call' = xb_attached (sy_call s)" "chat_inv pb mmsg mresp mrecv texts (s\<lparr>sy_down := rest, sy_call := call'\<rparr>)"
      by (rule response_data_accepted [OF assms(2) at response_data(3,4)])
    then show ?thesis using response_data by (simp add: chat_order_def)
  next
    case response_trailers
    then show ?thesis using response_trailers_ok [OF at] by blast
  qed
qed

section \<open>No deadlock\<close>

text \<open>What holds when no part can move: everything sent has been delivered and every coroutine waits or has ended.\<close>

lemma idle_client:
  assumes "\<And>s'. \<not> chat_step pb s s'"
  shows "cw_posted (xb_writer (sy_call s)) = []" "\<not> client_ready (sy_client s) (cr_msg_queue (xb_reader (sy_call s)))"
    "cw_deferred (xb_writer (sy_call s)) \<or> sy_up_end s"
proof -
  show "cw_posted (xb_writer (sy_call s)) = []" using chat_step.strand [of s pb] assms by blast
  show "\<not> client_ready (sy_client s) (cr_msg_queue (xb_reader (sy_call s)))"
    using chat_step.client_turn [of s pb] assms by (metis prod_cases4)
  show "cw_deferred (xb_writer (sy_call s)) \<or> sy_up_end s"
    using chat_step.request_pull [of 1 s _ _ pb] assms by (metis surj_pair zero_less_one)
qed

lemma idle_server:
  assumes "\<And>s'. \<not> chat_step pb s s'"
  shows "sy_done s \<noteq> None \<or> q_wake (bd_queue (sy_server s)) = Waiting" "sy_deferred s \<or> sy_trailers s \<noteq> None"
    "sy_up s = [] \<Longrightarrow> sy_up_end s \<Longrightarrow> sy_up_ended s"
proof -
  show "sy_done s \<noteq> None \<or> q_wake (bd_queue (sy_server s)) = Waiting"
    using chat_step.handler_turn [of s pb] assms by (metis prod_cases4)
  show "sy_deferred s \<or> sy_trailers s \<noteq> None"
    using chat_step.response_pull [of 1 s _ _ pb] assms by (metis surj_pair zero_less_one)
  show "sy_up_ended s" if "sy_up s = []" "sy_up_end s"
    using chat_step.request_end [of s _ pb] assms that by (auto simp: bd_OnData_def)
qed

lemma idle_wires:
  assumes "list_all (chat_fits pb mmsg mresp mrecv) texts" "chat_at pb mmsg mresp mrecv texts past d c b a s" "\<And>s'. \<not> chat_step pb s s'"
  shows "sy_up s = []" "sy_down s = []" "sy_trailers s \<noteq> None \<Longrightarrow> sy_finished s"
proof -
  show "sy_up s = []"
    using request_data_accepted [OF assms(1,2), of "sy_up s" "[]"] chat_step.request_data [of s "sy_up s" "[]" _ pb] assms(3)
    by (metis append_Nil2)
  have att: "xb_attached (sy_call s)"
    using assms(2,3) chat_step.response_head [of s _ _ _ pb] by (fastforce simp: chat_at_def)
  show down: "sy_down s = []"
    using response_data_accepted [OF assms(1,2), of "sy_down s" "[]"] chat_step.response_data [of s "sy_down s" "[]" _ pb] att assms(3)
    by (metis append_Nil2)
  show "sy_finished s" if "sy_trailers s \<noteq> None"
    using chat_step.response_trailers [of s _ pb] att down assms(3) that by blast
qed

lemma idle_complete:
  assumes "list_all (chat_fits pb mmsg mresp mrecv) texts" "chat_at pb mmsg mresp mrecv texts past d c b a s" "\<And>s'. \<not> chat_step pb s s'"
  shows "chat_complete texts s"
proof -
  note at = assms(2) [unfolded chat_at_def]
  note idle = idle_client [OF assms(3)] idle_server [OF assms(3)] idle_wires [OF assms]
  show ?thesis
  proof (cases "sy_client s = ChatFinishing")
    case True
    have "sy_up_end s" using at idle(1,3) True by (auto simp: requests_on_way_def)
    then have "sy_up_ended s" using idle(6,7) by blast
    then have "sy_done s \<noteq> None" using at idle(4) by (auto simp: queue_holds_def q_inv_def)
    then have "sy_finished s" using at idle(5,9) by (auto simp: responses_on_way_def)
    then show ?thesis using at True \<open>sy_done s \<noteq> None\<close> by (auto simp: chat_complete_def)
  next
    case False
    then obtain messages where client: "sy_client s = ChatReading messages" using idle(2) by (cases "sy_client s") auto
    have unended: "\<not> sy_up_end s" "\<not> sy_up_ended s" "sy_done s = None" "sy_trailers s = None"
      using at chat_at_flags [OF assms(2)] False by auto
    have "cw_rest (xb_writer (sy_call s)) = []"
      using at idle(3) unended(1) by (auto simp: requests_on_way_def frames_rest_def)
    then have "map (chat_request pb) a = []"
      using requests_arrived [OF _ chat_fits_sizes(1) [OF fits_parts(1) [OF assms(1,2)]]] at idle(1,7) by metis
    moreover have "map (chat_reply pb) c = []"
      using responses_arrived [OF _ chat_fits_sizes(3) [OF fits_parts(3) [OF assms(1,2)]]] at idle(5,8) unended(4)
      unfolding responses_on_way_def by metis
    moreover have "b = []" using at idle(4) unended(3) by (auto simp: queue_holds_def q_inv_def)
    moreover have "d = []" using at idle(2) client by (auto simp: queue_holds_def q_inv_def)
    ultimately show ?thesis using at client by simp
  qed
qed

lemma chat_inv_started:
  assumes "srv = bd_Start zl now req (new_BidiStreamingCallState mmsg mmeta mresp pid)" "bd_spawned srv"
  shows "chat_inv pb mmsg mresp (recv_limit ctx) texts (chat_started texts ctx srv)"
proof -
  have srv: "bd_parser srv = new_StreamingFrameParser mmsg" "bd_queue srv = new_StreamMessageQueue" "bd_writer srv = new_RawServerWriterImpl mresp"
    using assms unfolding bd_Start_def
    by (auto simp: new_BidiStreamingCallState_def bd_SendError_def bd_SendHeaders_def Let_def split: prod.splits if_splits)
  have "requests_on_way mmsg [] False (new_RawClientWriterImpl\<lparr>cw_req := True\<rparr>) [] False (new_StreamingFrameParser mmsg)"
    by (simp add: requests_on_way_def new_RawClientWriterImpl_def frames_ok_def frames_rest_def framed_def sp_inv_new)
  moreover have "responses_on_way mresp m [] False False (new_RawServerWriterImpl mresp) [] None new_ClientLpm" for m
    by (simp add: responses_on_way_def framed_def cl_inv_new)
  moreover have "queue_holds [] False new_StreamMessageQueue"
    by (simp add: queue_holds_def q_inv_def new_StreamMessageQueue_def)
  ultimately have "chat_at pb mmsg mresp (recv_limit ctx) texts [] [] [] [] [] (chat_started texts ctx srv)"
    using bd_Start_halves(3) [OF assms] xb_Attach_opens
    by (auto simp: chat_at_def chat_started_def srv new_BidiStreamingClientCallState_def new_RawClientReaderImpl_def)
  then show ?thesis by (rule chat_invI)
qed

lemma chat_inv_reachable:
  assumes "codec_ok pb" "list_all (chat_fits pb mmsg mresp mrecv) texts" "chat_inv pb mmsg mresp mrecv texts s0" "(chat_step pb)\<^sup>*\<^sup>* s0 s"
  shows "chat_inv pb mmsg mresp mrecv texts s"
  using assms(4,3) by (induction rule: rtranclp_induct) (auto dest: chat_step_ok [OF assms(1,2)])

lemma chat_completes:
  assumes "codec_ok pb" "list_all (chat_fits pb mmsg mresp mrecv) texts" "chat_inv pb mmsg mresp mrecv texts s"
  shows "\<exists>s'. (chat_step pb)\<^sup>*\<^sup>* s s' \<and> chat_complete texts s'"
  using assms(3)
proof (induction s rule: wf_induct_rule [OF chat_order_wf])
  case (1 s)
  show ?case
  proof (cases "\<exists>s'. chat_step pb s s'")
    case True
    then obtain s' where s': "chat_step pb s s'" by blast
    note ok = chat_step_ok [OF assms(1,2) s' "1.prems"]
    obtain s'' where "(chat_step pb)\<^sup>*\<^sup>* s' s''" "chat_complete texts s''"
      using "1.IH" [OF conjunct2 [OF ok] conjunct1 [OF ok]] by blast
    then show ?thesis
      using converse_rtranclp_into_rtranclp [of "chat_step pb", OF s'] by blast
  next
    case False
    then show ?thesis using idle_complete [OF assms(2)] "1.prems" by (auto simp: chat_inv_def)
  qed
qed

lemma chat_ends:
  assumes "codec_ok pb" "list_all (chat_fits pb mmsg mresp mrecv) texts" "chat_inv pb mmsg mresp mrecv texts (f 0)"
  shows "\<exists>i. \<not> chat_step pb (f i) (f (Suc i))"
proof (rule ccontr)
  assume "\<nexists>i. \<not> chat_step pb (f i) (f (Suc i))"
  then have steps: "chat_step pb (f i) (f (Suc i))" for i by blast
  have "chat_inv pb mmsg mresp mrecv texts (f i)" for i
    by (induction i) (use assms(3) steps chat_step_ok [OF assms(1,2)] in blast)+
  then have "(f (Suc i), f i) \<in> chat_order" for i using chat_step_ok [OF assms(1,2) steps] by blast
  then show False using chat_order_wf by (auto simp: wf_iff_no_infinite_down_chain)
qed

section \<open>Properties\<close>

text \<open>
  C33: The chat example does not deadlock and echoes every message. In every schedule of the client,
  its strand, nghttp2's pulls and deliveries in chunks of any sizes, the server's call and the
  handler, starting from a submitted call and as long as nothing cancels it: what the client has
  printed is the echoes of the first messages in order, each once; a state in which nothing can move
  is one in which every echo has been printed and \<open>Finish\<close> returns OK on both handles; and no
  schedule goes on forever, so every schedule gets there. The client writes the next message only
  after it has read the last one's echo, so an echo held back would stop it.
\<close>

theorem chat_end_to_end:
  assumes "codec_ok pb" "srv = bd_Start zl now req (new_BidiStreamingCallState mmsg mmeta mresp pid)" "bd_spawned srv"
    and "list_all (chat_fits pb mmsg mresp (recv_limit ctx)) texts" "start = chat_started texts ctx srv"
  shows "(\<forall>s. (chat_step pb)\<^sup>*\<^sup>* start s \<longrightarrow>
        (\<exists>later. map echo_line texts = sy_lines s @ later) \<and> ((\<exists>s'. chat_step pb s s') \<or> chat_complete texts s))
    \<and> (\<forall>f. f 0 = start \<longrightarrow> (\<exists>i. \<not> chat_step pb (f i) (f (Suc i))))
    \<and> (\<exists>s. (chat_step pb)\<^sup>*\<^sup>* start s \<and> chat_complete texts s)"
proof -
  have inv: "chat_inv pb mmsg mresp (recv_limit ctx) texts start"
    unfolding assms(5) by (rule chat_inv_started [OF assms(2,3)])
  have "(\<exists>later. map echo_line texts = sy_lines s @ later) \<and> ((\<exists>s'. chat_step pb s s') \<or> chat_complete texts s)"
    if run: "(chat_step pb)\<^sup>*\<^sup>* start s" for s
  proof -
    obtain past d c b a where at: "chat_at pb mmsg mresp (recv_limit ctx) texts past d c b a s"
      using chat_inv_reachable [OF assms(1,4) inv run] by (auto simp: chat_inv_def)
    then have "map echo_line texts = sy_lines s @ map echo_line (d @ c @ b @ a @ chat_todo (sy_client s))"
      by (simp add: chat_at_def)
    then show ?thesis using idle_complete [OF assms(4) at] by blast
  qed
  then show ?thesis
    using chat_ends [OF assms(1,4)] chat_completes [OF assms(1,4) inv] inv by blast
qed

theorem chat_end_to_end_witness:
  "\<exists>s. (chat_step chat_codec)\<^sup>*\<^sup>* (chat_started [''hello'', ''world''] None
      (bd_Start copy_zlib 0 \<lparr>rq_header = [], rq_host = []\<rparr> (new_BidiStreamingCallState 20 9 20 []))) s
    \<and> sy_lines s = [''  echo: hello'', ''  echo: world''] \<and> RawClientReader_Finish (xb_reader (sy_call s)) = Some status_ok"
proof -
  let ?s = "bd_Start copy_zlib 0 \<lparr>rq_header = [], rq_host = []\<rparr> (new_BidiStreamingCallState 20 9 20 [])"
  have started: "bd_spawned ?s"
    by (simp add: bd_Start_def new_BidiStreamingCallState_def arm_deadline_def mm_find_def Nghttp2HeadersToMetadata_def Let_def)
  have fits: "list_all (chat_fits chat_codec 20 20 (recv_limit None)) [''hello'', ''world'']"
    by (simp add: chat_fits_def chat_codec_def field_codec_def echoed_def recv_limit_def)
  show ?thesis
    using chat_end_to_end [OF example_codecs_ok(5) refl started fits refl] by (auto simp: chat_complete_def echo_line_def)
qed

end
