(* ===== verification/PublicApi.thy ===== *)
theory PublicApi
  imports EndToEnd
begin

text \<open>
  The public classes \<open>Channel\<close> (\<open>include/rpcpio/channel.h\<close>, the end of \<open>client/channel_impl.cc\<close>) and \<open>Server\<close>
  (\<open>include/rpcpio/server.h\<close>, the end of \<open>server/server_impl.cc\<close>) over their implementations, and the method
  descriptors of \<open>unary_method.h\<close> and \<open>streaming_method.h\<close>; the setters of \<open>ClientContext\<close>.

  An object is the state of the implementation it owns. A coroutine of the channel is a pair of a step
  that starts it and a function from the later state to what it returns: the number of a call is
  the awaiting coroutine, its entry in the completion table or among the handles the resumption.
\<close>

section \<open>Method descriptors\<close>

text \<open>The types of request and response are only parameters.\<close>

datatype ('q, 'p) UnaryMethod = UnaryMethod (um_path: string)
datatype ('q, 'p) ServerStreamingMethod = ServerStreamingMethod (sm_path: string)
datatype ('q, 'p) ClientStreamingMethod = ClientStreamingMethod (cm_path: string)
datatype ('q, 'p) BidiStreamingMethod = BidiStreamingMethod (bm_path: string)

section \<open>Contexts\<close>

text \<open>The setters of \<open>ClientContext\<close>, and what a handler reads of its deadline.\<close>

definition set_deadline :: "int \<Rightarrow> ClientContext \<Rightarrow> ClientContext" where
  "set_deadline deadline ctx = ctx\<lparr>cc_deadline := Some deadline\<rparr>"

definition set_max_receive_message_size :: "nat \<Rightarrow> ClientContext \<Rightarrow> ClientContext" where
  "set_max_receive_message_size n ctx = ctx\<lparr>cc_max_recv_size := n\<rparr>"

definition set_max_send_message_size :: "nat \<Rightarrow> ClientContext \<Rightarrow> ClientContext" where
  "set_max_send_message_size n ctx = ctx\<lparr>cc_max_send_size := n\<rparr>"

definition set_compression_algorithm :: "string \<Rightarrow> ClientContext \<Rightarrow> ClientContext" where
  "set_compression_algorithm algo ctx = ctx\<lparr>cc_compression_algorithm := algo\<rparr>"

definition server_deadline_from_now :: "int \<Rightarrow> ServerContext \<Rightarrow> int" where
  "server_deadline_from_now now ctx = (if \<not> sc_has_deadline ctx then 2 ^ 63 - 1 else time_add (sc_deadline ctx) (- now))"

text \<open>A deadline is sent as what remains of it; the send limit reaches no header and no body.\<close>

lemma set_deadline_sent:
  assumes "BuildStreamingGrpcHeaders now opts (Some (set_deadline (now + d) ctx)) = Inr hdrs" "0 < d" "d < 2 ^ 63" "FormatTimeout d \<noteq> []"
  shows "mm_find hdrs ''grpc-timeout'' = Some (plain_value (FormatTimeout d))"
proof -
  have "time_add (now + d) (- now) = d"
    unfolding time_add_def signed_of_int using assms(2,3) by (simp add: signed_take_bit_int_eq_self)
  then have "deadline_from_now now (set_deadline (now + d) ctx) = d" by (simp add: deadline_from_now_def set_deadline_def)
  then show ?thesis using client_headers(3) [OF assms(1)] assms(4) by (simp add: set_deadline_def)
qed

lemma send_limit_unused:
  "BuildStreamingGrpcHeaders now opts (Some (set_max_send_message_size n ctx)) = BuildStreamingGrpcHeaders now opts (Some ctx)"
  by (simp add: BuildStreamingGrpcHeaders_def set_max_send_message_size_def deadline_from_now_def Let_def del: mm_emplace.simps)

section \<open>Channel\<close>

definition new_Channel :: "string \<Rightarrow> nat \<Rightarrow> ChannelOptions \<Rightarrow> ChannelImpl option" where
  "new_Channel host port opts = Some (new_ChannelImpl host port opts)"

text \<open>\<open>ChannelImpl::Shutdown\<close> runs \<open>DoShutdown\<close>, at once or on the strand.\<close>

definition Channel_Shutdown :: "ChannelEnv \<Rightarrow> int \<Rightarrow> ChannelImpl \<Rightarrow> ChannelImpl" where
  "Channel_Shutdown env now impl = DoShutdown env now impl"

definition Channel_destructor :: "ChannelEnv \<Rightarrow> int \<Rightarrow> ChannelImpl option \<Rightarrow> ChannelImpl option" where
  "Channel_destructor env now impl = map_option (Channel_Shutdown env now) impl"

text \<open>The coroutine of \<open>Connect\<close> is a waiter \<open>w\<close>; it returns the first status reported to it.\<close>

definition Channel_Connect :: "ChannelEnv \<Rightarrow> int \<Rightarrow> nat \<Rightarrow> ChannelImpl \<Rightarrow> ChannelImpl" where
  "Channel_Connect env now w impl = Connect env now w impl"

definition Connect_result :: "nat \<Rightarrow> ChannelImpl \<Rightarrow> Status option" where
  "Connect_result w impl = map_of (ch_waiter_results impl) w"

definition ServerStreamingCallRaw :: "ChannelEnv \<Rightarrow> int \<Rightarrow> string \<Rightarrow> ClientContext \<Rightarrow> bytes \<Rightarrow> ChannelImpl \<Rightarrow> ChannelImpl" where
  "ServerStreamingCallRaw env now path ctx req_bytes impl = SubmitServerStreamingCall env now path (Some ctx) req_bytes impl"

definition ClientStreamingCallRaw :: "ChannelEnv \<Rightarrow> int \<Rightarrow> string \<Rightarrow> ClientContext \<Rightarrow> ChannelImpl \<Rightarrow> ChannelImpl" where
  "ClientStreamingCallRaw env now path ctx impl = SubmitClientStreamingCall env now path (Some ctx) impl"

definition BidiStreamingCallRaw :: "ChannelEnv \<Rightarrow> int \<Rightarrow> string \<Rightarrow> ClientContext \<Rightarrow> ChannelImpl \<Rightarrow> ChannelImpl" where
  "BidiStreamingCallRaw env now path ctx impl = SubmitBidiStreamingCall env now path (Some ctx) impl"

text \<open>The streaming coroutines return the handles of call \<open>i\<close> once its submit has made them.\<close>

definition stream_handle :: "nat \<Rightarrow> ChannelImpl \<Rightarrow> StreamCall option" where
  "stream_handle i impl = (if i \<in> set (ch_handles impl) then ch_streams impl i else None)"

text \<open>The typed calls. \<open>UnaryCall\<close> may return before it reaches the channel.\<close>

definition Channel_UnaryCall :: "'q Codec \<Rightarrow> ChannelEnv \<Rightarrow> int \<Rightarrow> ('q, 'p) UnaryMethod \<Rightarrow> ClientContext \<Rightarrow> 'q \<Rightarrow> ChannelImpl
    \<Rightarrow> 'p UnaryResult option \<times> ChannelImpl" where
  "Channel_UnaryCall qpb env now method ctx req impl =
     (case UnaryCall_request qpb req of
        Inl st \<Rightarrow> (Some (UnaryCall_failed st), impl)
      | Inr req_bytes \<Rightarrow> (None, UnaryCallRaw env now (um_path method) ctx req_bytes impl))"

definition UnaryCall_resume :: "'p Codec \<Rightarrow> nat \<Rightarrow> ChannelImpl \<Rightarrow> 'p UnaryResult option" where
  "UnaryCall_resume ppb i impl =
     (case ch_completions impl i of
        None \<Rightarrow> None
      | Some c \<Rightarrow> (case un_results c of [] \<Rightarrow> None | raw # _ \<Rightarrow> Some (UnaryCall_result ppb raw)))"

definition Channel_ServerStreamingCall :: "'q Codec \<Rightarrow> ChannelEnv \<Rightarrow> int \<Rightarrow> ('q, 'p) ServerStreamingMethod \<Rightarrow> ClientContext \<Rightarrow> 'q
    \<Rightarrow> ChannelImpl \<Rightarrow> ChannelImpl" where
  "Channel_ServerStreamingCall qpb env now method ctx req impl =
     ServerStreamingCallRaw env now (sm_path method) ctx (ServerStreamingCall_request qpb req) impl"

definition Channel_ClientStreamingCall :: "ChannelEnv \<Rightarrow> int \<Rightarrow> ('q, 'p) ClientStreamingMethod \<Rightarrow> ClientContext \<Rightarrow> ChannelImpl \<Rightarrow> ChannelImpl" where
  "Channel_ClientStreamingCall env now method ctx impl = ClientStreamingCallRaw env now (cm_path method) ctx impl"

definition Channel_BidiStreamingCall :: "ChannelEnv \<Rightarrow> int \<Rightarrow> ('q, 'p) BidiStreamingMethod \<Rightarrow> ClientContext \<Rightarrow> ChannelImpl \<Rightarrow> ChannelImpl" where
  "Channel_BidiStreamingCall env now method ctx impl = BidiStreamingCallRaw env now (bm_path method) ctx impl"

section \<open>Server\<close>

definition new_Server :: "ServerOptions \<Rightarrow> ServerImpl" where
  "new_Server opts = new_ServerImpl opts"

definition Server_RegisterUnary :: "('q, 'p) UnaryMethod \<Rightarrow> nat \<Rightarrow> ServerImpl \<Rightarrow> ServerImpl" where
  "Server_RegisterUnary method handler impl = RegisterUnaryRaw (um_path method) handler impl"

definition Server_RegisterServerStreaming :: "('q, 'p) ServerStreamingMethod \<Rightarrow> nat \<Rightarrow> ServerImpl \<Rightarrow> ServerImpl" where
  "Server_RegisterServerStreaming method handler impl = RegisterServerStreamingRaw (sm_path method) handler impl"

definition Server_RegisterClientStreaming :: "('q, 'p) ClientStreamingMethod \<Rightarrow> nat \<Rightarrow> ServerImpl \<Rightarrow> ServerImpl" where
  "Server_RegisterClientStreaming method handler impl = RegisterClientStreamingRaw (cm_path method) handler impl"

definition Server_RegisterBidi :: "('q, 'p) BidiStreamingMethod \<Rightarrow> nat \<Rightarrow> ServerImpl \<Rightarrow> ServerImpl" where
  "Server_RegisterBidi method handler impl = RegisterBidiRaw (bm_path method) handler impl"

definition Server_Start :: "StartEnv \<Rightarrow> nat \<Rightarrow> ServerImpl \<Rightarrow> Status \<times> ServerImpl" where
  "Server_Start env port impl = Start env port impl"

definition bound_port :: "ServerImpl \<Rightarrow> nat" where
  "bound_port impl = sv_bound_port impl"

definition Server_Shutdown :: "'z Zlib \<Rightarrow> bool \<Rightarrow> ServerImpl \<Rightarrow> ServerImpl" where
  "Server_Shutdown zl ioc_stopped impl = Shutdown zl ioc_stopped impl"

definition Server_Wait :: "ServerImpl \<Rightarrow> ServerImpl" where
  "Server_Wait impl = Wait impl"

definition Server_destructor :: "'z Zlib \<Rightarrow> bool \<Rightarrow> ServerImpl \<Rightarrow> ServerImpl" where
  "Server_destructor zl ioc_stopped impl = Server_Wait (Server_Shutdown zl ioc_stopped impl)"

section \<open>Every public operation is a sequence of steps of the channel\<close>

lemma api_steps:
  "(ch_step zl env)\<^sup>*\<^sup>* ch (Channel_Connect env now w ch)" "(ch_step zl env)\<^sup>*\<^sup>* ch (snd (Channel_UnaryCall qpb env now um ctx m ch))"
  "(ch_step zl env)\<^sup>*\<^sup>* ch (Channel_ServerStreamingCall qpb env now sm ctx m ch)" "(ch_step zl env)\<^sup>*\<^sup>* ch (Channel_ClientStreamingCall env now cm ctx ch)"
  "(ch_step zl env)\<^sup>*\<^sup>* ch (Channel_BidiStreamingCall env now bm ctx ch)" "(ch_step zl env)\<^sup>*\<^sup>* ch (Channel_Shutdown env now ch)"
  unfolding Channel_Connect_def Channel_UnaryCall_def Channel_ServerStreamingCall_def ServerStreamingCallRaw_def Channel_ClientStreamingCall_def
    ClientStreamingCallRaw_def Channel_BidiStreamingCall_def BidiStreamingCallRaw_def Channel_Shutdown_def
  by (auto split: sum.split intro: ch_step.intros)

section \<open>Properties\<close>

text \<open>
  C11: What a typed call puts on the wire: on a connected channel whose session accepts the request, each of the
  four typed calls submits exactly one request, to the URI of its method's path, with the headers of
  its context; a unary and a server-streaming call with the frame of the serialized message as
  the whole body, the two others with a body their writer fills.
\<close>

theorem typed_calls_submitted:
  assumes "ch_state ch = kReady" "BuildStreamingGrpcHeaders now (ch_opts ch) (Some ctx) = Inr hdrs" "ce_submit env (ch_next ch) = Inr k"
    and "codec_ok qpb" "UnaryCall_request qpb m = Inr bytes" "pb_SerializeToString qpb m = Some bs" "length bs < 2 ^ 32"
  shows "ch_requests (snd (Channel_UnaryCall qpb env now um ctx m ch))
      = ch_requests ch @ [(ch_next ch, RequestUri (um_path um) ch, Some (framed [bytes]), hdrs)]
    \<and> ch_requests (Channel_ServerStreamingCall qpb env now sm ctx m ch)
      = ch_requests ch @ [(ch_next ch, RequestUri (sm_path sm) ch, Some (framed [bs]), hdrs)]
    \<and> ch_requests (Channel_ClientStreamingCall env now cm ctx ch) = ch_requests ch @ [(ch_next ch, RequestUri (cm_path cm) ch, None, hdrs)]
    \<and> ch_requests (Channel_BidiStreamingCall env now bm ctx ch) = ch_requests ch @ [(ch_next ch, RequestUri (bm_path bm) ch, None, hdrs)]"
proof -
  have uri: "RequestUri p (ch\<lparr>ch_next := n\<rparr>) = RequestUri p ch" "RequestUri p (ch\<lparr>ch_next := n, ch_completions := c\<rparr>) = RequestUri p ch" for p n c
    by (simp_all add: RequestUri_def)
  note frame = framed_single [OF UnaryCall_request_codec(1) [OF assms(4,5)]] framed_single [OF assms(7)]
  have "ch_requests (snd (Channel_UnaryCall qpb env now um ctx m ch))
      = ch_requests ch @ [(ch_next ch, RequestUri (um_path um) ch, Some (framed [bytes]), hdrs)]"
    using assms(1-3,5) frame(1)
    by (simp add: Channel_UnaryCall_def UnaryCallRaw_def SubmitCall_def submit_unary_guard_def submit_unary_now_def
        new_UnaryCallCompletion_def SetCancelStream_def upd_call_def cancel_stream_def uri Let_def split: option.split)
  moreover have "ch_requests (Channel_ServerStreamingCall qpb env now sm ctx m ch)
      = ch_requests ch @ [(ch_next ch, RequestUri (sm_path sm) ch, Some (framed [bs]), hdrs)]"
    using assms(1-3,6) frame(2)
    by (simp add: Channel_ServerStreamingCall_def ServerStreamingCall_request_def ServerStreamingCallRaw_def SubmitServerStreamingCall_def
        submit_stream_def submit_stream_now_def uri Let_def)
  moreover have "ch_requests (Channel_ClientStreamingCall env now cm ctx ch) = ch_requests ch @ [(ch_next ch, RequestUri (cm_path cm) ch, None, hdrs)]"
    using assms(1-3)
    by (simp add: Channel_ClientStreamingCall_def ClientStreamingCallRaw_def SubmitClientStreamingCall_def submit_stream_def submit_stream_now_def
        uri Let_def)
  moreover have "ch_requests (Channel_BidiStreamingCall env now bm ctx ch) = ch_requests ch @ [(ch_next ch, RequestUri (bm_path bm) ch, None, hdrs)]"
    using assms(1-3)
    by (simp add: Channel_BidiStreamingCall_def BidiStreamingCallRaw_def SubmitBidiStreamingCall_def submit_stream_def submit_stream_now_def
        uri Let_def)
  ultimately show ?thesis by blast
qed

theorem typed_calls_submitted_witness:
  "\<exists>hdrs. ch_requests (snd (Channel_UnaryCall flag_codec sample_env 0 (UnaryMethod ''/a.B/C'' :: (bool option, bool option) UnaryMethod)
       new_ClientContext (Some True) ready_channel)) = ch_requests ready_channel @ [(0, RequestUri ''/a.B/C'' ready_channel, Some (framed [''1'']), hdrs)]"
proof -
  obtain hdrs where hdrs: "BuildStreamingGrpcHeaders 0 (ch_opts ready_channel) (Some new_ClientContext) = Inr hdrs"
    by (simp add: BuildStreamingGrpcHeaders_def new_ClientContext_def del: mm_emplace.simps)
  have k: "ce_submit sample_env (ch_next ready_channel) = Inr 1" by (simp add: sample_env_def)
  have "UnaryCall_request flag_codec (Some True) = Inr ''1''" "pb_SerializeToString flag_codec (Some True) = Some ''1''" "length ''1'' < 2 ^ 32"
    by (simp_all add: UnaryCall_request_def flag_codec_def int_max_def)
  from typed_calls_submitted [OF ready_channel_sel(1) hdrs k flag_codec_ok this, of "UnaryMethod ''/a.B/C'' :: (bool option, bool option) UnaryMethod"
      "ServerStreamingMethod []" "ClientStreamingMethod []" "BidiStreamingMethod []"]
  have "ch_requests (snd (Channel_UnaryCall flag_codec sample_env 0 (UnaryMethod ''/a.B/C'' :: (bool option, bool option) UnaryMethod)
       new_ClientContext (Some True) ready_channel)) = ch_requests ready_channel @ [(0, RequestUri ''/a.B/C'' ready_channel, Some (framed [''1'']), hdrs)]"
    by (simp only: ready_channel_sel UnaryMethod.sel) (elim conjE)
  then show ?thesis by blast
qed

text \<open>
  C10: Destroying a channel leaves no coroutine behind. In every reachable state of a channel that has not
  been shut down, the destructor leaves each unary call either returned or with a posted result, whose
  delivery makes its coroutine return exactly once; each streaming call has its handle and is closed.
\<close>

theorem channel_destructor_returns:
  assumes "(ch_step zl env)\<^sup>*\<^sup>* (new_ChannelImpl host port opts) ch" "ids_distinct (submitted_id env)" "ch_state ch \<noteq> kShutdown"
    and "i < ch_next ch" "Channel_destructor env now (Some ch) = Some ch'"
  shows "case ch_completions ch' i of
      Some c \<Rightarrow> (\<exists>u. UnaryCall_resume ppb i (DeliverCompletion i ch') = Some u) \<and> length (un_results c) \<le> 1
    | None \<Rightarrow> (\<exists>t. stream_handle i ch' = Some t \<and> stream_closed t)"
proof -
  have ch': "ch' = DoShutdown env now ch" using assms(5) by (simp add: Channel_destructor_def Channel_Shutdown_def)
  note empty = shutdown_empties [OF ch_inv_reachable [OF assms(1,2)] assms(2,3) ch']
  show ?thesis
  proof (cases "ch_completions ch' i")
    case None
    then have "i \<in> dom (ch_streams ch')" using empty(2,6,7) assms(4) by (auto simp: stream_inv_def)
    then show ?thesis
      using None empty(6,9) by (auto simp: stream_handle_def stream_inv_def)
  next
    case (Some c)
    then have "un_good c" using empty(5) by (auto simp: unary_inv_def)
    then show ?thesis
      using Some empty(8) [OF Some]
      by (cases "un_results c")
        (auto simp: UnaryCall_resume_def DeliverCompletion_def complete_unary_def un_Complete_def un_good_def neq_Nil_conv split: option.split list.split)
  qed
qed

theorem channel_destructor_returns_witness:
  "\<exists>ch' u. Channel_destructor sample_env 0 (Some (UnaryCallRaw sample_env 0 ''/a.B/C'' new_ClientContext [] ready_channel)) = Some ch'
     \<and> (ch_completions ch' 0 \<noteq> None \<longrightarrow> UnaryCall_resume flag_codec 0 (DeliverCompletion 0 ch') = Some u)"
proof -
  let ?ch = "UnaryCallRaw sample_env 0 ''/a.B/C'' new_ClientContext [] ready_channel"
  obtain frame where frame: "EncodeFrame 0 [] = Some frame" by (simp add: EncodeFrame_def)
  have reach: "(ch_step copy_zlib sample_env)\<^sup>*\<^sup>* (new_ChannelImpl ''localhost'' 50051 (default_ChannelOptions\<lparr>co_use_tls := False\<rparr>)) ?ch"
    by (rule rtranclp.rtrancl_into_rtrancl [OF ready_channel_reachable ch_unary])
  have "Channel_destructor sample_env 0 (Some ?ch) = Some (DoShutdown sample_env 0 ?ch)"
    by (simp add: Channel_destructor_def Channel_Shutdown_def)
  from channel_destructor_returns [OF reach sample_ids _ _ this, of 0 flag_codec] this show ?thesis
    by (auto simp: ready_unary [OF frame] split: option.splits)
qed

end
