(* ===== verification/CppGenerator.thy ===== *)
theory CppGenerator
  imports Prelude
begin

text \<open>
  The protoc plugin (\<open>compiler/cpp_generator.{h,cc}\<close>).

  Descriptors are records of what the generator reads of protobuf's descriptor classes. The text a
  generator writes to its \<open>ostringstream\<close> is the concatenation of its insertions, in order and split
  by the same conditions. An output stream is the list of the sizes of the buffers its \<open>Next\<close> hands
  out, after which it fails; \<open>BackUp\<close> returns the unused end of the last buffer, so that the file has
  exactly the bytes copied.
\<close>

section \<open>Descriptors and helpers\<close>

record MethodDescriptor =
  md_name :: string
  md_client_streaming :: bool
  md_server_streaming :: bool
  md_input_type :: string
  md_output_type :: string
  md_deprecated :: bool

record ServiceDescriptor =
  sd_name :: string
  sd_full_name :: string
  sd_methods :: "MethodDescriptor list"

record FileDescriptor =
  fd_name :: string
  fd_package :: string
  fd_services :: "ServiceDescriptor list"

abbreviation nl :: string where
  "nl \<equiv> [CHR 0x0A]"

abbreviation dq :: string where
  "dq \<equiv> [CHR 0x22]"

text \<open>\<open>rfind('.')\<close>: everything before the last dot, or the whole name.\<close>

definition ProtoBaseName :: "string \<Rightarrow> string" where
  "ProtoBaseName filename =
     (if CHR ''.'' \<in> set filename
      then rev (tl (dropWhile (\<lambda>c. c \<noteq> CHR ''.'') (rev filename)))
      else filename)"

definition PackageToNamespace :: "string \<Rightarrow> string" where
  "PackageToNamespace package = concat (map (\<lambda>c. if c = CHR ''.'' then ''::'' else [c]) package)"

definition MethodPath :: "ServiceDescriptor \<Rightarrow> MethodDescriptor \<Rightarrow> string" where
  "MethodPath svc m = ''/'' @ sd_full_name svc @ ''/'' @ md_name m"

definition FullCppType :: "string \<Rightarrow> string" where
  "FullCppType full = ''::'' @ concat (map (\<lambda>c. if c = CHR ''.'' then ''::'' else [c]) full)"

section \<open>Header\<close>

definition method_constant :: "ServiceDescriptor \<Rightarrow> MethodDescriptor \<Rightarrow> string" where
  "method_constant svc m =
     (if \<not> md_client_streaming m \<and> \<not> md_server_streaming m then
     ''inline constexpr ::rpcpio::UnaryMethod<'' @ FullCppType (md_input_type m) @ '', '' @ FullCppType (md_output_type m) @ ''>'' @ nl @
     ''    '' @ md_name m @ ''{'' @ dq @ MethodPath svc m @ dq @ ''};'' @ nl
      else if \<not> md_client_streaming m \<and> md_server_streaming m then
     ''inline constexpr ::rpcpio::ServerStreamingMethod<'' @ FullCppType (md_input_type m) @ '', '' @ FullCppType (md_output_type m) @ ''>'' @ nl @
     ''    '' @ md_name m @ ''{'' @ dq @ MethodPath svc m @ dq @ ''};'' @ nl
      else if md_client_streaming m \<and> \<not> md_server_streaming m then
     ''inline constexpr ::rpcpio::ClientStreamingMethod<'' @ FullCppType (md_input_type m) @ '', '' @ FullCppType (md_output_type m) @ ''>'' @ nl @
     ''    '' @ md_name m @ ''{'' @ dq @ MethodPath svc m @ dq @ ''};'' @ nl
      else
     ''inline constexpr ::rpcpio::BidiStreamingMethod<'' @ FullCppType (md_input_type m) @ '', '' @ FullCppType (md_output_type m) @ ''>'' @ nl @
     ''    '' @ md_name m @ ''{'' @ dq @ MethodPath svc m @ dq @ ''};'' @ nl)"

definition stub_method :: "ServiceDescriptor \<Rightarrow> MethodDescriptor \<Rightarrow> string" where
  "stub_method svc m =
     (if md_deprecated m then ''    ['' @ ''[deprecated]'' @ '']'' @ nl else []) @
     (if \<not> md_client_streaming m \<and> \<not> md_server_streaming m then
     ''    ::boost::asio::awaitable<::rpcpio::UnaryResult<'' @ FullCppType (md_output_type m) @ ''>>'' @ nl @
     ''    '' @ md_name m @ ''('' @ nl @
     ''        ::rpcpio::ClientContext& ctx,'' @ nl @
     ''        const '' @ FullCppType (md_input_type m) @ ''& request) {'' @ nl @
     ''        return channel_->UnaryCall('' @ nl @
     ''            '' @ sd_name svc @ ''Methods::'' @ md_name m @ '', ctx, request);'' @ nl @
     ''    }'' @ nl @ nl
      else if \<not> md_client_streaming m \<and> md_server_streaming m then
     ''    ::boost::asio::awaitable<::rpcpio::ClientReader<'' @ FullCppType (md_output_type m) @ ''>>'' @ nl @
     ''    '' @ md_name m @ ''('' @ nl @
     ''        ::rpcpio::ClientContext& ctx,'' @ nl @
     ''        const '' @ FullCppType (md_input_type m) @ ''& request) {'' @ nl @
     ''        return channel_->ServerStreamingCall('' @ nl @
     ''            '' @ sd_name svc @ ''Methods::'' @ md_name m @ '', ctx, request);'' @ nl @
     ''    }'' @ nl @ nl
      else if md_client_streaming m \<and> \<not> md_server_streaming m then
     ''    ::boost::asio::awaitable<::rpcpio::ClientWriter<'' @ FullCppType (md_input_type m) @ '', '' @ FullCppType (md_output_type m) @ ''>>'' @ nl @
     ''    '' @ md_name m @ ''('' @ nl @
     ''        ::rpcpio::ClientContext& ctx) {'' @ nl @
     ''        return channel_->ClientStreamingCall('' @ nl @
     ''            '' @ sd_name svc @ ''Methods::'' @ md_name m @ '', ctx);'' @ nl @
     ''    }'' @ nl @ nl
      else
     ''    ::boost::asio::awaitable<::rpcpio::BidiStream<'' @ FullCppType (md_input_type m) @ '', '' @ FullCppType (md_output_type m) @ ''>>'' @ nl @
     ''    '' @ md_name m @ ''('' @ nl @
     ''        ::rpcpio::ClientContext& ctx) {'' @ nl @
     ''        return channel_->BidiStreamingCall('' @ nl @
     ''            '' @ sd_name svc @ ''Methods::'' @ md_name m @ '', ctx);'' @ nl @
     ''    }'' @ nl @ nl)"

definition service_method :: "MethodDescriptor \<Rightarrow> string" where
  "service_method m =
     (if md_deprecated m then ''    ['' @ ''[deprecated]'' @ '']'' @ nl else []) @
     (if \<not> md_client_streaming m \<and> \<not> md_server_streaming m then
     ''    virtual ::boost::asio::awaitable<::rpcpio::StatusOr<'' @ FullCppType (md_output_type m) @ ''>>'' @ nl @
     ''    '' @ md_name m @ ''('' @ nl @
     ''        ::rpcpio::ServerContext& ctx,'' @ nl @
     ''        const '' @ FullCppType (md_input_type m) @ ''& request) = 0;'' @ nl @ nl
      else if \<not> md_client_streaming m \<and> md_server_streaming m then
     ''    virtual ::boost::asio::awaitable<::rpcpio::Status>'' @ nl @
     ''    '' @ md_name m @ ''('' @ nl @
     ''        ::rpcpio::ServerContext& ctx,'' @ nl @
     ''        const '' @ FullCppType (md_input_type m) @ ''& request,'' @ nl @
     ''        ::rpcpio::ServerWriter<'' @ FullCppType (md_output_type m) @ ''>& writer) = 0;'' @ nl @ nl
      else if md_client_streaming m \<and> \<not> md_server_streaming m then
     ''    virtual ::boost::asio::awaitable<::rpcpio::StatusOr<'' @ FullCppType (md_output_type m) @ ''>>'' @ nl @
     ''    '' @ md_name m @ ''('' @ nl @
     ''        ::rpcpio::ServerContext& ctx,'' @ nl @
     ''        ::rpcpio::ServerReader<'' @ FullCppType (md_input_type m) @ ''>& reader) = 0;'' @ nl @ nl
      else
     ''    virtual ::boost::asio::awaitable<::rpcpio::Status>'' @ nl @
     ''    '' @ md_name m @ ''('' @ nl @
     ''        ::rpcpio::ServerContext& ctx,'' @ nl @
     ''        ::rpcpio::ServerReader<'' @ FullCppType (md_input_type m) @ ''>& reader,'' @ nl @
     ''        ::rpcpio::ServerWriter<'' @ FullCppType (md_output_type m) @ ''>& writer) = 0;'' @ nl @ nl)"

definition header_service :: "ServiceDescriptor \<Rightarrow> string" where
  "header_service svc =
     ''// Service: '' @ sd_full_name svc @ nl @
     ''namespace '' @ sd_name svc @ ''Methods {'' @ nl @
     concat (map (method_constant svc) (sd_methods svc)) @
     ''} // namespace '' @ sd_name svc @ ''Methods'' @ nl @ nl @
     ''class '' @ sd_name svc @ ''Stub {'' @ nl @
     ''public:'' @ nl @
     ''    explicit '' @ sd_name svc @ ''Stub('' @ nl @
     ''        std::shared_ptr<::rpcpio::Channel> channel)'' @ nl @
     ''        : channel_(std::move(channel)) {}'' @ nl @ nl @
     concat (map (stub_method svc) (sd_methods svc)) @
     ''private:'' @ nl @
     ''    std::shared_ptr<::rpcpio::Channel> channel_;'' @ nl @
     ''};'' @ nl @ nl @
     ''class '' @ sd_name svc @ ''Service {'' @ nl @
     ''public:'' @ nl @
     ''    virtual ~'' @ sd_name svc @ ''Service() = default;'' @ nl @ nl @
     concat (map service_method (sd_methods svc)) @
     ''    void Register(::rpcpio::Server& server);'' @ nl @
     ''};'' @ nl @ nl"

definition open_namespace :: "string \<Rightarrow> string" where
  "open_namespace ns = (if ns \<noteq> [] then ''namespace '' @ ns @ '' {'' @ nl @ nl else [])"

definition close_namespace :: "string \<Rightarrow> string" where
  "close_namespace ns = (if ns \<noteq> [] then ''} // namespace '' @ ns @ nl else [])"

definition GenerateHeader :: "FileDescriptor \<Rightarrow> bool \<times> string" where
  "GenerateHeader file =
     (let ns = PackageToNamespace (fd_package file)
      in (True,
     ''// Generated by rpcpio_cpp_plugin.  DO NOT EDIT.'' @ nl @
     ''// Source: '' @ fd_name file @ nl @ nl @
     ''#pragma once'' @ nl @ nl @
     ''#include '' @ dq @ ''rpcpio/channel.h'' @ dq @ nl @
     ''#include '' @ dq @ ''rpcpio/server.h'' @ dq @ nl @
     ''#include '' @ dq @ ''rpcpio/status.h'' @ dq @ nl @
     ''#include '' @ dq @ ''rpcpio/unary_method.h'' @ dq @ nl @
     ''#include '' @ dq @ ''rpcpio/streaming_method.h'' @ dq @ nl @
     ''#include '' @ dq @ ''rpcpio/server_reader.h'' @ dq @ nl @
     ''#include '' @ dq @ ''rpcpio/server_writer.h'' @ dq @ nl @
     ''#include '' @ dq @ ''rpcpio/client_reader.h'' @ dq @ nl @
     ''#include '' @ dq @ ''rpcpio/client_writer.h'' @ dq @ nl @
     ''#include '' @ dq @ ''rpcpio/bidi_stream.h'' @ dq @ nl @
     ''#include '' @ dq @ ProtoBaseName (fd_name file) @ ''.pb.h'' @ dq @ nl @ nl @
     open_namespace ns @ concat (map header_service (fd_services file)) @ close_namespace ns))"

section \<open>Source\<close>

definition register_method :: "ServiceDescriptor \<Rightarrow> MethodDescriptor \<Rightarrow> string" where
  "register_method svc m =
     (if \<not> md_client_streaming m \<and> \<not> md_server_streaming m then
     ''    server.RegisterUnary('' @ nl @
     ''        '' @ sd_name svc @ ''Methods::'' @ md_name m @ '','' @ nl @
     ''        [this](::rpcpio::ServerContext& ctx,'' @ nl @
     ''               const '' @ FullCppType (md_input_type m) @ ''& req)'' @ nl @
     ''            -> ::boost::asio::awaitable<::rpcpio::StatusOr<'' @ FullCppType (md_output_type m) @ ''>> {'' @ nl @
     ''            return this->'' @ md_name m @ ''(ctx, req);'' @ nl @
     ''        });'' @ nl
      else if \<not> md_client_streaming m \<and> md_server_streaming m then
     ''    server.RegisterServerStreaming('' @ nl @
     ''        '' @ sd_name svc @ ''Methods::'' @ md_name m @ '','' @ nl @
     ''        [this](::rpcpio::ServerContext& ctx,'' @ nl @
     ''               const '' @ FullCppType (md_input_type m) @ ''& req,'' @ nl @
     ''               ::rpcpio::ServerWriter<'' @ FullCppType (md_output_type m) @ ''>& writer)'' @ nl @
     ''            -> ::boost::asio::awaitable<::rpcpio::Status> {'' @ nl @
     ''            return this->'' @ md_name m @ ''(ctx, req, writer);'' @ nl @
     ''        });'' @ nl
      else if md_client_streaming m \<and> \<not> md_server_streaming m then
     ''    server.RegisterClientStreaming('' @ nl @
     ''        '' @ sd_name svc @ ''Methods::'' @ md_name m @ '','' @ nl @
     ''        [this](::rpcpio::ServerContext& ctx,'' @ nl @
     ''               ::rpcpio::ServerReader<'' @ FullCppType (md_input_type m) @ ''>& reader)'' @ nl @
     ''            -> ::boost::asio::awaitable<::rpcpio::StatusOr<'' @ FullCppType (md_output_type m) @ ''>> {'' @ nl @
     ''            return this->'' @ md_name m @ ''(ctx, reader);'' @ nl @
     ''        });'' @ nl
      else
     ''    server.RegisterBidi('' @ nl @
     ''        '' @ sd_name svc @ ''Methods::'' @ md_name m @ '','' @ nl @
     ''        [this](::rpcpio::ServerContext& ctx,'' @ nl @
     ''               ::rpcpio::ServerReader<'' @ FullCppType (md_input_type m) @ ''>& reader,'' @ nl @
     ''               ::rpcpio::ServerWriter<'' @ FullCppType (md_output_type m) @ ''>& writer)'' @ nl @
     ''            -> ::boost::asio::awaitable<::rpcpio::Status> {'' @ nl @
     ''            return this->'' @ md_name m @ ''(ctx, reader, writer);'' @ nl @
     ''        });'' @ nl)"

definition source_service :: "ServiceDescriptor \<Rightarrow> string" where
  "source_service svc =
     ''void '' @ sd_name svc @ ''Service::Register(::rpcpio::Server& server) {'' @ nl @
     concat (map (register_method svc) (sd_methods svc)) @
     ''}'' @ nl @ nl"

definition GenerateSource :: "FileDescriptor \<Rightarrow> bool \<times> string" where
  "GenerateSource file =
     (let ns = PackageToNamespace (fd_package file)
      in (True,
     ''// Generated by rpcpio_cpp_plugin.  DO NOT EDIT.'' @ nl @
     ''// Source: '' @ fd_name file @ nl @ nl @
     ''#include '' @ dq @ ProtoBaseName (fd_name file) @ ''.rpcpio.pb.h'' @ dq @ nl @ nl @
     open_namespace ns @ concat (map source_service (fd_services file)) @ close_namespace ns))"

section \<open>Output\<close>

fun write_to_stream :: "string \<Rightarrow> nat list \<Rightarrow> bool \<times> string" where
  "write_to_stream [] bufs = (True, [])"
| "write_to_stream content [] = (False, [])"
| "write_to_stream content (buf_size # bufs) =
     (let n = min (length content) buf_size
      in case write_to_stream (drop n content) bufs of (ok, out) \<Rightarrow> (ok, take n content @ out))"

text \<open>The files opened, in order, with what was written to them.\<close>

definition Generate :: "FileDescriptor \<Rightarrow> nat list \<Rightarrow> nat list \<Rightarrow> bool \<times> (string \<times> string) list" where
  "Generate file header_bufs source_bufs =
     (if fd_services file = [] then (True, [])
      else
        let base = ProtoBaseName (fd_name file)
        in case GenerateHeader file of (ok, hdr) \<Rightarrow>
           if \<not> ok then (False, [])
           else case write_to_stream hdr header_bufs of (ok, h) \<Rightarrow>
             if \<not> ok then (False, [(base @ ''.rpcpio.pb.h'', h)])
             else case GenerateSource file of (ok, src) \<Rightarrow>
               if \<not> ok then (False, [(base @ ''.rpcpio.pb.h'', h)])
               else case write_to_stream src source_bufs of (ok, c) \<Rightarrow>
                 (ok, [(base @ ''.rpcpio.pb.h'', h), (base @ ''.rpcpio.pb.cc'', c)]))"


section \<open>Bracket structure\<close>

text \<open>The open brackets behind a text, or \<open>None\<close> when a closing bracket does not match the last open one.\<close>

fun brackets :: "string \<Rightarrow> string \<Rightarrow> string option" where
  "brackets st [] = Some st"
| "brackets st (c # cs) =
     (if c = CHR ''{'' \<or> c = CHR ''('' then brackets (c # st) cs
      else if c = CHR ''}'' then (if st \<noteq> [] \<and> hd st = CHR ''{'' then brackets (tl st) cs else None)
      else if c = CHR '')'' then (if st \<noteq> [] \<and> hd st = CHR ''('' then brackets (tl st) cs else None)
      else brackets st cs)"

definition balanced :: "string \<Rightarrow> bool" where
  "balanced cs \<longleftrightarrow> (\<forall>st. brackets st cs = Some st)"

definition plain_name :: "string \<Rightarrow> bool" where
  "plain_name s \<longleftrightarrow> set s \<inter> set ''{}()'' = {}"

definition plain_service :: "ServiceDescriptor \<Rightarrow> bool" where
  "plain_service svc \<longleftrightarrow> plain_name (sd_name svc) \<and> plain_name (sd_full_name svc)
     \<and> list_all (\<lambda>m. plain_name (md_name m) \<and> plain_name (md_input_type m) \<and> plain_name (md_output_type m)) (sd_methods svc)"

lemma brackets_append: "brackets st (xs @ ys) = Option.bind (brackets st xs) (\<lambda>st'. brackets st' ys)"
  by (induction xs arbitrary: st) simp_all

lemma balanced_brackets: "balanced xs \<Longrightarrow> brackets st xs = Some st"
  by (simp add: balanced_def)

lemma balanced_concat:
  assumes "\<And>x. x \<in> set xs \<Longrightarrow> balanced (f x)"
  shows "brackets st (concat (map f xs)) = Some st"
  using assms by (induction xs) (simp_all add: balanced_def brackets_append)

lemma plain_brackets: "plain_name s \<Longrightarrow> brackets st s = Some st"
  by (induction s) (auto simp: plain_name_def)

lemma plain_parts:
  "plain_name s \<Longrightarrow> plain_name (FullCppType s)" "plain_name s \<Longrightarrow> plain_name (PackageToNamespace s)"
  by (auto simp: FullCppType_def PackageToNamespace_def plain_name_def split: if_splits)

lemma plain_MethodPath: "plain_name (sd_full_name svc) \<Longrightarrow> plain_name (md_name m) \<Longrightarrow> plain_name (MethodPath svc m)"
  by (auto simp: MethodPath_def plain_name_def)

lemma plain_ProtoBaseName:
  assumes "plain_name s"
  shows "plain_name (ProtoBaseName s)"
proof -
  have tl: "set (tl xs) \<subseteq> set xs" for xs :: string by (cases xs) auto
  have "set (tl (dropWhile (\<lambda>c. c \<noteq> CHR ''.'') (rev s))) \<subseteq> set s"
    using tl [of "dropWhile (\<lambda>c. c \<noteq> CHR ''.'') (rev s)"] set_dropWhileD [of _ _ "rev s"] by fastforce
  then have "set (ProtoBaseName s) \<subseteq> set s" by (simp add: ProtoBaseName_def)
  then show ?thesis using assms by (auto simp: plain_name_def)
qed

lemmas brackets_texts = brackets_append plain_brackets plain_parts plain_MethodPath plain_ProtoBaseName

text \<open>Literals are scanned one by one: their characters are not moved into the text behind them.\<close>

lemma method_constant_balanced:
  assumes "plain_name (sd_full_name svc)" "plain_name (md_name m)" "plain_name (md_input_type m)" "plain_name (md_output_type m)"
  shows "balanced (method_constant svc m)"
  unfolding balanced_def method_constant_def using assms by (simp add: brackets_texts del: append_Cons append.simps)

lemma stub_method_balanced:
  assumes "plain_name (sd_name svc)" "plain_name (md_name m)" "plain_name (md_input_type m)" "plain_name (md_output_type m)"
  shows "balanced (stub_method svc m)"
  unfolding balanced_def stub_method_def using assms by (simp add: brackets_texts del: append_Cons append.simps)

lemma service_method_balanced:
  assumes "plain_name (md_name m)" "plain_name (md_input_type m)" "plain_name (md_output_type m)"
  shows "balanced (service_method m)"
  unfolding balanced_def service_method_def using assms by (simp add: brackets_texts del: append_Cons append.simps)

lemma register_method_balanced:
  assumes "plain_name (sd_name svc)" "plain_name (md_name m)" "plain_name (md_input_type m)" "plain_name (md_output_type m)"
  shows "balanced (register_method svc m)"
  unfolding balanced_def register_method_def using assms by (simp add: brackets_texts del: append_Cons append.simps)

lemma header_service_balanced:
  assumes "plain_service svc"
  shows "balanced (header_service svc)"
proof -
  have m: "balanced (method_constant svc m)" "balanced (stub_method svc m)" "balanced (service_method m)"
    if "m \<in> set (sd_methods svc)" for m
    using assms that method_constant_balanced stub_method_balanced service_method_balanced
    by (auto simp: plain_service_def list_all_iff)
  show ?thesis
    unfolding balanced_def header_service_def using assms
    by (simp add: plain_service_def brackets_texts balanced_concat [OF m(1)] balanced_concat [OF m(2)] balanced_concat [OF m(3)]
        del: append_Cons append.simps)
qed

lemma source_service_balanced:
  assumes "plain_service svc"
  shows "balanced (source_service svc)"
proof -
  have m: "balanced (register_method svc m)" if "m \<in> set (sd_methods svc)" for m
    using assms that register_method_balanced by (auto simp: plain_service_def list_all_iff)
  show ?thesis
    unfolding balanced_def source_service_def using assms
    by (simp add: plain_service_def brackets_texts balanced_concat [OF m] del: append_Cons append.simps)
qed

section \<open>Properties\<close>

text \<open>
  C34: The generated code is bracketed correctly: for every proto file whose names have no brackets,
  with any number of services and methods of any kind, deprecated or not, with or without a
  package, every brace and parenthesis of the generated header and source is closed by its own
  kind in the right order.
\<close>

theorem generated_code_balanced:
  assumes "plain_name (fd_name file)" "plain_name (fd_package file)" "list_all plain_service (fd_services file)"
  shows "balanced (snd (GenerateHeader file)) \<and> balanced (snd (GenerateSource file))"
proof -
  have svc: "balanced (header_service svc)" "balanced (source_service svc)" if "svc \<in> set (fd_services file)" for svc
    using assms(3) that header_service_balanced source_service_balanced by (auto simp: list_all_iff)
  have "balanced (snd (GenerateHeader file))"
    unfolding balanced_def GenerateHeader_def Let_def snd_conv open_namespace_def close_namespace_def using assms(1,2)
    by (simp add: brackets_texts balanced_concat [OF svc(1)] del: append_Cons append.simps)
  moreover have "balanced (snd (GenerateSource file))"
    unfolding balanced_def GenerateSource_def Let_def snd_conv open_namespace_def close_namespace_def using assms(1,2)
    by (simp add: brackets_texts balanced_concat [OF svc(2)] del: append_Cons append.simps)
  ultimately show ?thesis ..
qed

definition sample_file :: FileDescriptor where
  "sample_file = \<lparr>fd_name = ''helloworld.proto'', fd_package = ''helloworld'', fd_services = [\<lparr>sd_name = ''Greeter'',
     sd_full_name = ''helloworld.Greeter'', sd_methods = [\<lparr>md_name = ''SayHello'', md_client_streaming = False,
       md_server_streaming = False, md_input_type = ''helloworld.HelloRequest'', md_output_type = ''helloworld.HelloReply'',
       md_deprecated = False\<rparr>]\<rparr>]\<rparr>"

theorem generated_code_balanced_witness:
  "balanced (snd (GenerateHeader sample_file)) \<and> balanced (snd (GenerateSource sample_file))"
  by (rule generated_code_balanced) (simp_all add: sample_file_def plain_name_def plain_service_def)

text \<open>Every path the generated code registers.\<close>

definition generated_paths :: "FileDescriptor \<Rightarrow> string list" where
  "generated_paths file = concat (map (\<lambda>svc. map (MethodPath svc) (sd_methods svc)) (fd_services file))"

lemma MethodPath_inject:
  assumes "CHR ''/'' \<notin> set (sd_full_name s)" "CHR ''/'' \<notin> set (sd_full_name t)"
  shows "MethodPath s m = MethodPath t n \<longleftrightarrow> sd_full_name s = sd_full_name t \<and> md_name m = md_name n"
proof -
  have "xs @ c # us = ys @ c # vs \<longleftrightarrow> xs = ys \<and> us = vs" if "c \<notin> set xs" "c \<notin> set ys" for c :: char and xs ys us vs
    using that
  proof (induction xs arbitrary: ys)
    case Nil
    then show ?case by (cases ys) auto
  next
    case (Cons x xs)
    then show ?case by (cases ys) auto
  qed
  then show ?thesis using assms by (simp add: MethodPath_def)
qed

text \<open>
  The methods of a file get distinct paths, so that no registration of the generated \<open>Register\<close>
  replaces another in the server's table: it is enough that service names are distinct and have no
  slash and that the methods of each service have distinct names.
\<close>

theorem generated_paths_distinct:
  assumes "distinct (map sd_full_name (fd_services file))"
    and "list_all (\<lambda>svc. CHR ''/'' \<notin> set (sd_full_name svc) \<and> distinct (map md_name (sd_methods svc))) (fd_services file)"
  shows "distinct (generated_paths file)"
proof -
  have "distinct (concat (map (\<lambda>svc. map (MethodPath svc) (sd_methods svc)) svcs))"
    if "distinct (map sd_full_name svcs)"
      "list_all (\<lambda>svc. CHR ''/'' \<notin> set (sd_full_name svc) \<and> distinct (map md_name (sd_methods svc))) svcs" for svcs
    using that
  proof (induction svcs)
    case (Cons s svcs)
    have inj: "MethodPath s m = MethodPath s n \<longleftrightarrow> md_name m = md_name n" for m n
      using Cons.prems(2) by (simp add: MethodPath_inject)
    have "distinct (map (MethodPath s) ms)" if "distinct (map md_name ms)" for ms
      using that by (induction ms) (auto simp: inj)
    moreover have "MethodPath s m \<noteq> MethodPath t n" if "t \<in> set svcs" for t m n
      using Cons.prems that by (auto simp: MethodPath_inject list_all_iff rev_image_eqI)
    ultimately show ?case using Cons by auto
  qed simp
  then show ?thesis using assms by (simp add: generated_paths_def)
qed

theorem generated_paths_distinct_witness: "distinct (generated_paths sample_file)"
  by (rule generated_paths_distinct) (simp_all add: sample_file_def)

lemma write_prefix: "\<exists>rest. content = snd (write_to_stream content bufs) @ rest \<and> (fst (write_to_stream content bufs) \<longrightarrow> rest = [])"
proof (induction content bufs rule: write_to_stream.induct)
  case (3 c cs buf_size bufs)
  let ?n = "min (length (c # cs)) buf_size"
  obtain rest where "drop ?n (c # cs) = snd (write_to_stream (drop ?n (c # cs)) bufs) @ rest"
    "fst (write_to_stream (drop ?n (c # cs)) bufs) \<longrightarrow> rest = []"
    using 3 [OF refl] by blast
  then have "c # cs = take ?n (c # cs) @ snd (write_to_stream (drop ?n (c # cs)) bufs) @ rest"
    by (metis append_take_drop_id)
  with \<open>fst _ \<longrightarrow> rest = []\<close> show ?case
    by (auto simp: case_prod_unfold Let_def simp del: take_Cons' drop_Cons')
qed auto

lemma write_enough:
  "list_all (\<lambda>b. 0 < b) bufs \<Longrightarrow> length content \<le> length bufs \<Longrightarrow> fst (write_to_stream content bufs)"
proof (induction content bufs rule: write_to_stream.induct)
  case (3 c cs buf_size bufs)
  then have "length (drop (min (length (c # cs)) buf_size) (c # cs)) \<le> length bufs" by auto
  then show ?case using 3 by (simp add: case_prod_unfold Let_def del: take_Cons' drop_Cons')
qed auto

text \<open>
  C35: The plugin writes the whole of both files. Whatever buffers the output streams hand out, a
  successful run has written exactly the generated header and source under the names derived from
  the proto file, and nothing for a file without services; and as many non-empty buffers as there
  are bytes are enough for it to succeed.
\<close>

theorem plugin_writes_files:
  assumes "fd_services file \<noteq> []"
  shows "(fst (Generate file hb sb) \<longrightarrow> snd (Generate file hb sb) =
       [(ProtoBaseName (fd_name file) @ ''.rpcpio.pb.h'', snd (GenerateHeader file)),
        (ProtoBaseName (fd_name file) @ ''.rpcpio.pb.cc'', snd (GenerateSource file))])
    \<and> (list_all (\<lambda>b. 0 < b) hb \<and> length (snd (GenerateHeader file)) \<le> length hb
       \<and> list_all (\<lambda>b. 0 < b) sb \<and> length (snd (GenerateSource file)) \<le> length sb \<longrightarrow> fst (Generate file hb sb))
    \<and> Generate (file\<lparr>fd_services := []\<rparr>) hb sb = (True, [])"
proof -
  obtain h c where gen: "GenerateHeader file = (True, h)" "GenerateSource file = (True, c)"
    by (simp add: GenerateHeader_def GenerateSource_def Let_def)
  have full: "fst (write_to_stream c bufs) \<Longrightarrow> snd (write_to_stream c bufs) = c" for c bufs
    using write_prefix [of c bufs] by auto
  show ?thesis
    using assms full write_enough by (auto simp: Generate_def gen case_prod_unfold Let_def)
qed

theorem plugin_writes_files_witness:
  "snd (Generate sample_file (replicate (length (snd (GenerateHeader sample_file))) 1) (replicate (length (snd (GenerateSource sample_file))) 2))
   = [(''helloworld.rpcpio.pb.h'', snd (GenerateHeader sample_file)), (''helloworld.rpcpio.pb.cc'', snd (GenerateSource sample_file))]"
proof -
  have "fd_services sample_file \<noteq> []" by (simp add: sample_file_def)
  moreover have "ProtoBaseName (fd_name sample_file) = ''helloworld''" by (simp add: sample_file_def ProtoBaseName_def)
  moreover have "list_all (\<lambda>b. 0 < b) (replicate n (Suc k))" for n k by (simp add: list_all_iff)
  ultimately show ?thesis
    using plugin_writes_files [of sample_file "replicate (length (snd (GenerateHeader sample_file))) 1"
        "replicate (length (snd (GenerateSource sample_file))) 2"]
    by (simp add: numeral_2_eq_2)
qed

end
