(* ===== verification/Spec2Isabelle.thy ===== *)
theory Spec2Isabelle
  imports ChatExample PublicApi CppGenerator
begin

text \<open>
  rpcpio is a gRPC library in C++20: unary, server-streaming, client-streaming and bidirectional
  calls over nghttp2's asio sessions, with a typed layer over generated protobuf classes and a
  protoc plugin that generates stubs. This development models the library, the plugin and the
  services and clients of the examples.

  \<^bold>\<open>The program.\<close> A \<open>Channel\<close> (\<open>src/client/channel_impl.cc\<close>) keeps one connection: calls wait in
  its queues until it is connected, are submitted as requests, and are tracked under their stream id.
  Each call has a call state (\<open>src/client/*_call_state.cc\<close>) that nghttp2's callbacks, the deadline
  timer and cancellation drive; it reads the response with a message parser and reports one
  result, or fills the reader and writer handles (\<open>raw_client_impls.cc\<close>). A \<open>Server\<close>
  (\<open>src/server/server_impl.cc\<close>) routes a request to one of four call states
  (\<open>src/server/*_call_state.cc\<close>), which parse the request, run the handler, and answer through
  generators that nghttp2 pulls. Both sides use the codecs of \<open>src/protocol\<close>. The public classes
  \<open>Channel\<close> and \<open>Server\<close> own the two implementations and add the typed calls.

  \<^bold>\<open>The theories\<close>, in the order of their imports:
  \<^item> \<open>Prelude\<close>: bytes, words, decimal numbers and string search; \<open>Multimap\<close>: \<open>std::multimap\<close> as a
    key-sorted list, the locale \<open>multimap_spec\<close> of its contract and its interpretation.
  \<^item> \<open>Status\<close> (\<open>include/rpcpio/status.h\<close>, \<open>unary_result_raw.h\<close>): codes, statuses, \<open>StatusOr\<close>.
  \<^item> \<open>Metadata\<close> (\<open>metadata.h\<close>): keys, base64 and percent codecs, \<open>ValidateAndAdd\<close>; round trips.
  \<^item> \<open>Timeout\<close> (\<open>protocol/timeout.cc\<close>): the \<open>grpc-timeout\<close> codec on 64-bit words.
  \<^item> \<open>Framing\<close> (\<open>protocol/framing.cc\<close>): \<open>EncodeFrame\<close> and the incremental \<open>FrameDecoder\<close>, refined to
    the one-shot specification \<open>decode_spec\<close>.
  \<^item> \<open>Compression\<close> (\<open>protocol/compression.cc\<close>), \<open>StatusMap\<close> (\<open>protocol/status_map.cc\<close>),
    \<open>MetadataCodec\<close> (\<open>protocol/metadata_codec.cc\<close>), \<open>StreamQueue\<close> (\<open>protocol/stream_queue.cc\<close>).
  \<^item> \<open>StreamParser\<close>: the streaming parsers of server (\<open>server/client_streaming_call_state.h\<close>) and
    client, refined to \<open>lpm_spec\<close>; the locale \<open>stream_user\<close> of the call states that drive them.
  \<^item> \<open>ServerBase\<close> (\<open>server_context.h\<close>, \<open>server/raw_server_impls.cc\<close>): contexts, deadlines, the
    locales of DATA generators and of a response that is sent once.
  \<^item> \<open>UnaryServer\<close>, \<open>ServerStreaming\<close>, \<open>ClientStreamingServer\<close>, \<open>BidiServer\<close>: the four server call
    states with every callback; their interleavings are step relations. \<open>BidiRun\<close>: a bidirectional call
    with what its handler has read and what nghttp2 has been given, and the invariant of its two halves.
  \<^item> \<open>ServerImpl\<close>: registration, \<open>HandleRequest\<close>, \<open>Start\<close>, \<open>Shutdown\<close>, peer identity.
  \<^item> \<open>ClientBase\<close> (\<open>client_context.h\<close>, \<open>client/raw_client_impls.cc\<close>), \<open>UnaryClient\<close>,
    \<open>ServerStreamingClient\<close>, \<open>ClientStreamingClient\<close>, \<open>BidiClient\<close>: the client's handles and its
    four call states, with the tasks they post to the channel's strand.
  \<^item> \<open>ChannelTls\<close>, \<open>Channel\<close> (\<open>client/channel_impl.cc\<close>): the TLS configuration and the channel's
    operations; \<open>ChannelCalls\<close>: its step relation and the invariant of its call tables, proved once
    in a locale for both tables; \<open>ChannelProperties\<close>: what follows for callers.
  \<^item> \<open>TypedApi\<close> (\<open>channel.h\<close>, \<open>server.h\<close> and the typed handles): serialization around the raw calls.
  \<^item> \<open>CppGenerator\<close> (\<open>compiler/cpp_generator.cc\<close>): the generated texts and their output.
  \<^item> \<open>EndToEnd\<close>: the lemmas that join the two sides; \<open>MetadataExchange\<close>: application metadata in both
    directions; \<open>PublicApi\<close> (\<open>channel.h\<close>, \<open>server.h\<close>, \<open>unary_method.h\<close>, \<open>streaming_method.h\<close>): the public classes,
    the method descriptors and the setters of the client's context; \<open>Examples\<close> (\<open>examples/\<close>): the example handlers and clients on top of
    all that; \<open>ChatExample\<close>: the chat client and service as one running system; this theory: the properties that span the components.

  \<^bold>\<open>How the code is modelled.\<close> A class is a record and a member function a function on it. What a
  call state does to nghttp2 is a list of actions in its record (\<open>WriteHead\<close>, \<open>EndGenerator\<close>,
  \<open>WriteTrailer\<close>, \<dots>). A coroutine is one step per resumption, with \<open>None\<close> while it is suspended. A task
  posted to a strand is an element of a list that a later step runs. A C++ exception is the \<open>Inl\<close>
  side of a sum. A user handler is outside the library: its start is recorded, and its reads, writes
  and completion are events, with any outcome. Sizes are natural numbers; 32- and 64-bit arithmetic
  that may wrap is done on words.

  \<^bold>\<open>Loops.\<close> The parsing loops and the inflate loop may in principle not end, and are
  \<open>partial_function (option)\<close>, whose \<open>None\<close> is not returning; the theorems
  about them show that they return (\<open>decoder_refines\<close>, \<open>streaming_parser_refines\<close>,
  \<open>Decompress_bounded\<close>) or that they do not (\<open>unary_gzip_hang\<close>). \<open>read_until_end\<close> and \<open>read_all\<close> take
  the number of reads to try; the theorems ask for one more than there are messages.

  \<^bold>\<open>Parameters\<close> stand for code that is not in the repository: \<open>Zlib\<close> (zlib, with its documented
  contract \<open>inflate_contract\<close>), \<open>Codec\<close> (a generated protobuf class, \<open>codec_ok\<close>), \<open>StartEnv\<close>,
  \<open>TlsEnv\<close> and \<open>ChannelEnv\<close> (the answers of the operating system, OpenSSL and the nghttp2 session),
  \<open>NgErrs\<close> and \<open>AsioErrs\<close> (numeric constants), the descriptors of the plugin, and the sizes of the
  buffers and chunks nghttp2 hands over.

  \<^bold>\<open>What is shown.\<close> End to end: typed calls of all four kinds deliver exactly the messages and
  statuses of the other side, for every way the bodies are cut (the bidirectional one in every
  interleaving of the server's side), metadata arrives as it was added, the example services answer
  as their comments say, and the lock-step chat ends with every message echoed in every schedule. Per call state: at most one response or completion in every interleaving,
  every branch of the request and response paths, arrival of a status. Channel: no call lost, the
  request a typed call submits, shutdown, GOAWAY, TLS errors, no coroutine left behind by the
  destructor. Server: routing, start and shutdown. Codecs: round trips and bounds. Plugin:
  well-bracketed and completely written output. Some theorems record defects: \<open>unary_gzip_hang\<close>,
  \<open>bidi_limit_bypass\<close>, \<open>client_streaming_truncated\<close>, \<open>routing_status_lost\<close>,
  \<open>shutdown_ignores_grace_period\<close>, \<open>ready_error_ignored\<close>, \<open>server_streaming_status_overwritten\<close>,
  \<open>unserializable_request_runs_handler\<close>.

  \<^bold>\<open>Not modelled.\<close> Sockets, threads and the reactor behind the events; the memory model of the two
  mutexes of \<open>ServerImpl\<close>, whose critical sections are single steps; object lifetimes, beyond the two
  public destructors; the plugin's \<open>main\<close> and those of the examples (command line, signal set,
  \<open>io_context\<close>), which only call what is modelled; tests, fuzzers and build rules. The generated message
  classes and stubs are not in the repository: the classes are the parameter \<open>Codec\<close>, the stubs
  the texts of \<open>CppGenerator\<close>.
\<close>

section \<open>Unary calls from end to end\<close>

text \<open>
  C1: A unary call end to end. The request a client serializes, sent as its frame in any chunks to a
  server call that was started and not rejected, is handed to the handler; when the typed handler
  answers it with a value, the server sends a head and a body that the client, in any chunks,
  turns into exactly one completion whose typed result is OK and carries that value. The handler may
  have set any metadata on its context; the limits of both sides must admit the messages.
\<close>

theorem unary_end_to_end:
  assumes "codec_ok qpb" "codec_ok ppb" "UnaryCall_request qpb m = Inr req"
    and "s = us_Start zl now hreq (new_ServerCallState mreq mmeta mresp pid)" "\<not> us_responded s"
    and "length req \<le> mreq" "concat chunks = framed [req]" "list_all (\<lambda>c. c \<noteq> []) chunks"
    and "h m = Inr (statusor_of_value v)" "pb_SerializeToArray ppb v (int (pb_ByteSizeLong ppb v)) = Some resp"
    and "pb_ByteSizeLong ppb v \<le> int_max" "pb_ByteSizeLong ppb v \<le> mresp" "pb_ByteSizeLong ppb v \<le> recv_limit ctx"
    and "mresp < 2 ^ 32" "list_all (\<lambda>n. 0 < n) bufs" "5 + mresp < length bufs"
  shows "\<exists>s'. us_receive zl s chunks = Some s' \<and> us_spawned s' = [req]
    \<and> (\<forall>c. \<exists>head g wire t g'.
         us_sent (us_HandlerDone zl (RegisterUnary qpb ppb h req) (s'\<lparr>us_ctx := c\<rparr>)) = [WriteHead 200 head, EndGenerator]
       \<and> us_gen (us_HandlerDone zl (RegisterUnary qpb ppb h req) (s'\<lparr>us_ctx := c\<rparr>)) = Some g
       \<and> pulls response_generate g bufs = (wire, Some (GTrailers t), g')
       \<and> (\<forall>chunks'. concat chunks' = wire \<and> list_all (\<lambda>c. c \<noteq> []) chunks' \<longrightarrow>
            (\<exists>call raw. uc_exchange zl' (uc_Attach zl' 200 head (new_ClientCallState ctx)) chunks' eos t = Some call
               \<and> uc_completions call = [raw] \<and> ur_status (UnaryCall_result ppb raw) = status_ok
               \<and> ur_response (UnaryCall_result ppb raw) = Some v)))"
proof -
  note start = us_Start_open [OF assms(4,5)]
  note req = UnaryCall_request_codec [OF assms(1,3)]
  note resp = codec_array [OF assms(2,11,10)]
  obtain s' where s': "us_receive zl s chunks = Some s'" "\<not> us_responded s'" "us_sent s' = []" "us_spawned s' = [req]"
    "us_max_response_size s' = mresp"
    using server_receives_request [OF assms(5) start(1) _ req(1) assms(7,8), of zl] start assms(6) by auto
  have h: "RegisterUnary qpb ppb h req = Inr (status_ok, resp)"
    using req(2) assms(9-11) by (simp add: RegisterUnary_def statusor_of_value_def)
  have "\<exists>head g wire t g'.
       us_sent (us_HandlerDone zl (Inr (status_ok, resp)) (s'\<lparr>us_ctx := c\<rparr>)) = [WriteHead 200 head, EndGenerator]
     \<and> us_gen (us_HandlerDone zl (Inr (status_ok, resp)) (s'\<lparr>us_ctx := c\<rparr>)) = Some g
     \<and> pulls response_generate g bufs = (wire, Some (GTrailers t), g')
     \<and> (\<forall>chunks'. concat chunks' = wire \<and> list_all (\<lambda>c. c \<noteq> []) chunks' \<longrightarrow>
          (\<exists>call raw. uc_exchange zl' (uc_Attach zl' 200 head (new_ClientCallState ctx)) chunks' eos t = Some call
             \<and> uc_completions call = [raw] \<and> ur_status (UnaryCall_result ppb raw) = status_ok
             \<and> ur_response (UnaryCall_result ppb raw) = Some v))" for c
  proof -
    obtain head g g' t where sent: "us_sent (us_HandlerDone zl (Inr (status_ok, resp)) (s'\<lparr>us_ctx := c\<rparr>)) = [WriteHead 200 head, EndGenerator]"
      "us_gen (us_HandlerDone zl (Inr (status_ok, resp)) (s'\<lparr>us_ctx := c\<rparr>)) = Some g"
      "pulls response_generate g bufs = (framed [resp], Some (GTrailers t), g')" "ExtractTrailerStatus t = status_ok"
      "head = MetadataToNghttp2Headers (sc_initial_metadata c) (AddCommonHeaders zl [])"
      using server_answers_value [of "s'\<lparr>us_ctx := c\<rparr>" status_ok resp bufs zl] s' resp(1) assms(12,14-16) by auto
    have "\<exists>call raw. uc_exchange zl' (uc_Attach zl' 200 head (new_ClientCallState ctx)) chunks' eos t = Some call
        \<and> uc_completions call = [raw] \<and> ur_status (UnaryCall_result ppb raw) = status_ok
        \<and> ur_response (UnaryCall_result ppb raw) = Some v"
      if "concat chunks' = framed [resp]" "list_all (\<lambda>c. c \<noteq> []) chunks'" for chunks'
      using client_receives_value [OF sent(5) resp(3) _ that(1,2), of ctx t zl' eos] sent(4) resp(1,4) assms(13)
      by (fastforce simp: UnaryCall_result_def Let_def)
    then show ?thesis using sent by blast
  qed
  then show ?thesis using s' h by auto
qed

theorem unary_end_to_end_witness:
  "\<exists>s'. us_receive copy_zlib (us_Start copy_zlib 0 \<lparr>rq_header = [], rq_host = []\<rparr> (new_ServerCallState 9 9 9 [])) [framed [''1'']] = Some s'
     \<and> us_spawned s' = [''1'']"
proof -
  let ?s = "us_Start copy_zlib 0 \<lparr>rq_header = [], rq_host = []\<rparr> (new_ServerCallState 9 9 9 [])"
  have started: "\<not> us_responded ?s"
    by (simp add: us_Start_def new_ServerCallState_def arm_deadline_def mm_find_def Nghttp2HeadersToMetadata_def Let_def)
  have req: "UnaryCall_request flag_codec (Some True) = Inr ''1''"
    by (simp add: UnaryCall_request_def flag_codec_def int_max_def)
  have "framed [''1''] \<noteq> []" by (simp add: framed_def EncodeFrame_def Let_def)
  then obtain s' where "us_receive copy_zlib ?s [framed [''1'']] = Some s'" "us_spawned s' = [''1'']"
    using unary_end_to_end [OF flag_codec_ok flag_codec_ok req refl started, of "[framed [''1'']]" "\<lambda>m. Inr (statusor_of_value m)"
        "Some True" "''1''" None "replicate 20 1" copy_zlib True]
    by (auto simp: flag_codec_def int_max_def recv_limit_def list_all_iff)
  then show ?thesis by blast
qed

text \<open>
  C2: An error travels from the handler to the caller. When the handler of a started unary call
  returns an error status or lets an exception escape, or the request bytes do not parse, the
  trailers-only answer completes the client's call exactly once with that status (INTERNAL for an
  exception, INVALID\_ARGUMENT for the parse), and the typed result has no response.
\<close>

theorem unary_error_end_to_end:
  assumes "\<not> us_responded s"
    and "case pb_ParseFromArray qpb req (static_cast_int (length req)) of
           None \<Rightarrow> st = mk_status INVALID_ARGUMENT ''failed to parse request''
         | Some m \<Rightarrow> (case h m of Inl _ \<Rightarrow> st = mk_status INTERNAL ''handler threw exception''
                     | Inr r \<Rightarrow> st = so_status r \<and> \<not> is_ok st)"
  shows "\<exists>head raw. us_sent (us_HandlerDone zl (RegisterUnary qpb ppb h req) s) = us_sent s @ [WriteHead 200 head, EndStream]
    \<and> uc_completions (uc_Attach zl' 200 head (new_ClientCallState ctx)) = [raw]
    \<and> ur_status (UnaryCall_result ppb raw) = st \<and> ur_response (UnaryCall_result ppb raw) = None"
proof -
  have "\<not> is_ok st" "RegisterUnary qpb ppb h req = Inl () \<and> st = mk_status INTERNAL ''handler threw exception''
      \<or> RegisterUnary qpb ppb h req = Inr (st, [])"
    using assms(2) by (auto simp: RegisterUnary_def split: option.splits sum.splits)
  then show ?thesis
    using server_answers_error [OF assms(1), of st _ "[]" zl zl' ctx] by (fastforce simp: UnaryCall_result_def)
qed

theorem unary_error_end_to_end_witness:
  "\<exists>head raw. us_sent (us_HandlerDone copy_zlib (RegisterUnary flag_codec flag_codec (\<lambda>_. Inl ()) ''1'') (new_ServerCallState 9 9 9 []))
       = [WriteHead 200 head, EndStream]
     \<and> uc_completions (uc_Attach copy_zlib 200 head (new_ClientCallState None)) = [raw]
     \<and> ur_status (UnaryCall_result flag_codec raw) = mk_status INTERNAL ''handler threw exception''"
  using unary_error_end_to_end [where s = "new_ServerCallState 9 9 9 []" and qpb = flag_codec and req = "''1''" and h = "\<lambda>_. Inl ()"
      and st = "mk_status INTERNAL ''handler threw exception''" and ppb = flag_codec and zl = copy_zlib and zl' = copy_zlib and ctx = None]
  by (auto simp: flag_codec_def new_ServerCallState_def)

section \<open>Streaming calls from end to end\<close>

text \<open>
  C3: A server-streaming call end to end. The request starts the handler; whatever messages it
  writes before it returns, the client reads exactly those messages in order, whatever the sizes
  of nghttp2's buffers and of the DATA chunks; the reads then end with the handler's status (OK as
  the end of the stream), and \<open>Finish\<close> returns that status.
\<close>

theorem server_streaming_end_to_end:
  assumes "codec_ok qpb" "codec_ok ppb" "pb_SerializeToString qpb m = Some req" "length req \<le> int_max"
    and "s = ss_Start zl now hreq (new_ServerStreamingCallState mreq mmeta mresp pid)" "\<not> ss_responded s"
    and "length req \<le> mreq" "concat chunks = framed [ServerStreamingCall_request qpb m]" "list_all (\<lambda>c. c \<noteq> []) chunks"
    and "list_all2 (\<lambda>p bs. pb_SerializeToString ppb p = Some bs) ms bss"
    and "list_all (\<lambda>b. length b \<le> mresp \<and> length b < 2 ^ 32) bss" "list_all (\<lambda>b. length b \<le> recv_limit ctx \<and> length b < 2 ^ 32) bss"
    and "h m = Inr st" "list_all (\<lambda>n. 0 < n) bufs" "length (framed bss) < length bufs" "length ms < n"
  shows "\<exists>s' head wire t w. ss_receive zl s chunks = Some s' \<and> ss_spawned s' = [req] \<and> ss_sent s' = [WriteHead 200 head, EndGenerator]
    \<and> pulls sw_generate (ss_writer (ss_HandlerDone (RegisterServerStreaming qpb h req) (fold (ss_TypedWrite ppb) ms s'))) bufs
        = (wire, Some (GTrailers t), w)
    \<and> (\<forall>chunks'. concat chunks' = wire \<and> list_all (\<lambda>c. c \<noteq> []) chunks' \<longrightarrow>
         (\<exists>call. feeds (\<lambda>s copy. xs_OnData copy s) (xs_Attach 200 head (new_ServerStreamingClientCallState ctx)) chunks' = Some call
            \<and> read_until_end (ClientReader_Read ppb) n (xs_reader (xs_OnTrailers t call)) = (ms, Some (if is_ok st then status_ok else st))
            \<and> RawClientReader_Finish (xs_reader (xs_OnTrailers t call)) = Some st))"
proof -
  note start = ss_Start_open [OF assms(5,6)]
  have len: "length req < 2 ^ 32" using assms(4) by (simp add: int_max_def)
  have wire: "concat chunks = framed [req]" using assms(3,8) by (simp add: ServerStreamingCall_request_def)
  obtain s' where s': "ss_receive zl s chunks = Some s'" "ss_spawned s' = [req]" "ss_writer s' = new_RawServerWriterImpl mresp"
    "ss_sent s' = [WriteHead 200 (MetadataToNghttp2Headers (sc_initial_metadata (ss_ctx s)) (AddCommonHeaders zl [])), EndGenerator]"
    using ss_receives_request [OF assms(6) start(1) assms(7) len wire assms(9), of zl] start by auto
  have h: "RegisterServerStreaming qpb h req = Inr st"
    using codec_string [OF assms(1,3)] assms(4,13) by (simp add: RegisterServerStreaming_def)
  obtain t w where t: "pulls sw_generate (ss_writer (ss_HandlerDone (Inr st) (fold (ss_TypedWrite ppb) ms s'))) bufs
      = (framed bss, Some (GTrailers t), w)" "ExtractTrailerStatus t = st"
    using handler_stream_sent [OF s'(3) assms(10,11,14,15), of st] by blast
  show ?thesis
    using s' h t client_reads_stream [OF assms(2,10) refl assms(12) _ _ assms(16), of _ st t "sc_initial_metadata (ss_ctx s)" zl]
    by (intro exI [of _ s'] exI [of _ t] exI [of _ w] exI [of _ "framed bss"]
        exI [of _ "MetadataToNghttp2Headers (sc_initial_metadata (ss_ctx s)) (AddCommonHeaders zl [])"]) auto
qed

theorem server_streaming_end_to_end_witness:
  "\<exists>s'. ss_receive copy_zlib (ss_Start copy_zlib 0 \<lparr>rq_header = [], rq_host = []\<rparr> (new_ServerStreamingCallState 9 9 9 [])) [framed [''1'']] = Some s'
     \<and> ss_spawned s' = [''1'']"
proof -
  let ?s = "ss_Start copy_zlib 0 \<lparr>rq_header = [], rq_host = []\<rparr> (new_ServerStreamingCallState 9 9 9 [])"
  have started: "\<not> ss_responded ?s"
    by (simp add: ss_Start_def new_ServerStreamingCallState_def arm_deadline_def mm_find_def Nghttp2HeadersToMetadata_def Let_def)
  have req: "pb_SerializeToString flag_codec (Some True) = Some ''1''" "length ''1'' \<le> int_max"
    by (simp_all add: flag_codec_def int_max_def)
  have msgs: "list_all2 (\<lambda>p bs. pb_SerializeToString flag_codec p = Some bs) [Some False, Some True] [[], ''1'']"
    by (auto simp: flag_codec_def)
  have "framed [''1''] \<noteq> []" "length (framed [[], ''1'']) < 20" by (simp_all add: framed_def EncodeFrame_def be32_bytes_def Let_def)
  then show ?thesis
    using server_streaming_end_to_end [OF flag_codec_ok flag_codec_ok req refl started _ _ _ msgs, of "[framed [''1'']]" None
        "\<lambda>_. Inr status_ok" status_ok "replicate 20 1" 3]
    by (auto simp: ServerStreamingCall_request_def req(1) recv_limit_def list_all_iff)
qed

text \<open>
  C4: A client-streaming call end to end. In every interleaving of the client's writes, the strand
  and nghttp2's pulls after which the request stream has ended with no write behind \<open>WritesDone\<close>,
  the handler's typed reads return exactly the messages written, in order, and then a clean end of
  stream; and the value the handler returns is the OK response of \<open>FinishAndGetResponse\<close> on the
  client's call, however the two bodies are cut into chunks.
\<close>

theorem client_streaming_end_to_end:
  assumes "codec_ok qpb" "codec_ok ppb" "cw_run es = (out, w)" "fst (cw_Pull k w) = GEnd" "before_done es = written es"
    and "list_all2 (\<lambda>p bs. pb_SerializeToString qpb p = Some bs) ms (written es)" "list_all (\<lambda>b. length b \<le> mmsg) (written es)"
    and "s = cs_Start zl now hreq (new_ClientStreamingCallState mmsg mmeta mresp pid)" "\<not> cs_responded s"
    and "concat chunks = out" "list_all (\<lambda>c. c \<noteq> []) chunks" "length ms < n"
    and "pb_SerializeToString ppb v = Some resp" "length resp \<le> mresp" "mresp < 2 ^ 32"
    and "list_all (\<lambda>n. 0 < n) bufs" "5 + mresp < length bufs"
  shows "\<exists>s'. feeds (\<lambda>s data. cs_OnData zl data s) s (chunks @ [[]]) = Some s'
    \<and> read_until_end (ServerReader_Read qpb) n (cs_queue s') = (ms, Some status_ok)
    \<and> (\<forall>q c. \<exists>head g wire t g'.
         cs_sent (cs_HandlerDone zl (RegisterClientStreaming ppb (Inr (statusor_of_value v))) (s'\<lparr>cs_queue := q, cs_ctx := c\<rparr>))
           = [WriteHead 200 head, EndGenerator]
       \<and> cs_gen (cs_HandlerDone zl (RegisterClientStreaming ppb (Inr (statusor_of_value v))) (s'\<lparr>cs_queue := q, cs_ctx := c\<rparr>)) = Some g
       \<and> pulls response_generate g bufs = (wire, Some (GTrailers t), g')
       \<and> (\<forall>call chunks'. \<not> xc_closed call \<and> xc_lpm call = new_ClientLpm \<and> length resp \<le> recv_limit (xc_ctx call)
             \<and> concat chunks' = wire \<and> list_all (\<lambda>c. c \<noteq> []) chunks' \<longrightarrow>
            (\<exists>call' u. Option.bind (feeds (\<lambda>s copy. xc_OnData copy s) (xc_Attach 200 head call) chunks') (\<lambda>s'. Some (xc_OnTrailers t s')) = Some call'
               \<and> FinishAndGetResponse ppb (xc_writer call') = Some u \<and> ur_status u = status_ok \<and> ur_response u = Some v)))"
proof -
  note start = cs_Start_open [OF assms(8,9)]
  have wire: "concat chunks = framed (written es)" using client_stream_sent [OF assms(3-5)] assms(10) by simp
  have sizes: "list_all (\<lambda>b. length b \<le> mmsg \<and> length b < 2 ^ 32) (written es)"
    using assms(7) written_short [of es] by (simp add: list_all_iff)
  obtain s' where s': "feeds (\<lambda>s data. cs_OnData zl data s) s (chunks @ [[]]) = Some s'" "\<not> cs_responded s'" "cs_sent s' = []"
    "cs_max_response_size s' = mresp" "read_until_end (ServerReader_Read qpb) n (cs_queue s') = (ms, Some status_ok)"
    using server_queue_messages [OF assms(9) start(1,2) sizes wire assms(11) serialized_parse [OF assms(1,6)] assms(12), of zl] start by auto
  show ?thesis
    using s' client_streaming_answered [OF assms(2,13) _ _ _ assms(14-17), of "s'\<lparr>cs_queue := q, cs_ctx := c\<rparr>" zl for q c]
    by (intro exI [of _ s']) simp
qed

theorem client_streaming_end_to_end_witness:
  "\<exists>s'. feeds (\<lambda>s data. cs_OnData copy_zlib data s) (cs_Start copy_zlib 0 \<lparr>rq_header = [], rq_host = []\<rparr> (new_ClientStreamingCallState 9 9 9 []))
       ([framed [''1'']] @ [[]]) = Some s'
     \<and> read_until_end (ServerReader_Read flag_codec) 2 (cs_queue s') = ([Some True], Some status_ok)"
proof -
  let ?es = "[CwWrite ''1'', CwWritesDone, CwRun, CwRun, CwPull 9]"
  have run: "cw_run ?es = (framed [''1''], snd (cw_run ?es))" "fst (cw_Pull 1 (snd (cw_run ?es))) = GEnd"
    by (simp_all add: cw_run_def new_RawClientWriterImpl_def Enqueue_def EncodeFrame_def MarkWritesDone_def framed_def
        cw_RunPosted_def req_resume_def cw_Pull_def ClientWriterGenerator_def Let_def be32_bytes_def)
  let ?s = "cs_Start copy_zlib 0 \<lparr>rq_header = [], rq_host = []\<rparr> (new_ClientStreamingCallState 9 9 9 [])"
  have started: "\<not> cs_responded ?s"
    by (simp add: cs_Start_def new_ClientStreamingCallState_def arm_deadline_def mm_find_def Nghttp2HeadersToMetadata_def Let_def)
  have ser: "pb_SerializeToString flag_codec (Some True) = Some ''1''" by (simp add: flag_codec_def)
  have "framed [''1''] \<noteq> []" by (simp add: framed_def EncodeFrame_def be32_bytes_def Let_def)
  then show ?thesis
    using client_streaming_end_to_end [OF flag_codec_ok flag_codec_ok run _ _ _ refl started, of "[Some True]" "[framed [''1'']]" 2
        "Some True" "''1''" "replicate 20 1"]
    by (auto simp: before_done_def ser list_all_iff)
qed

text \<open>
  C5: A bidirectional call end to end. Let the client's request stream end after its writes, and let the
  server's side run in any interleaving of DATA chunks, reads, writes, pulls and the
  handler's completion. Then what the handler has read or can still read are exactly the client's
  messages, in order; enough further pulls give the rest of the response and the trailers; and the
  client's typed reads return exactly the messages the handler wrote before it was done, then the
  end of the stream, with the handler's status from both \<open>Finish\<close> operations, however the body is cut.
\<close>

theorem bidi_end_to_end:
  assumes "codec_ok qpb" "codec_ok ppb" "cw_run ws = (out, w)" "fst (cw_Pull k w) = GEnd" "before_done ws = written ws"
    and "list_all2 (\<lambda>p bs. pb_SerializeToString qpb p = Some bs) ms (written ws)" "list_all (\<lambda>b. length b \<le> mmsg) (written ws)"
    and "s = bd_Start zl now hreq (new_BidiStreamingCallState mmsg mmeta mresp pid)" "bd_spawned s" "concat (data_chunks es) = out"
    and "list_all2 (\<lambda>p bs. pb_SerializeToString ppb p = Some bs) rs (handler_writes es)" "handler_status es = Some st"
    and "list_all (\<lambda>b. length b \<le> mresp \<and> length b < 2 ^ 32) (handler_writes es)"
    and "\<not> xb_closed call" "xb_lpm call = new_ClientLpm" "xb_reader call = new_RawClientReaderImpl"
    and "list_all (\<lambda>b. length b \<le> recv_limit (xb_ctx call) \<and> length b < 2 ^ 32) (handler_writes es)"
    and "list_all (\<lambda>n. 0 < n) bufs" "length (framed (handler_writes es)) < length bufs" "length rs < n"
  shows "\<exists>r head wire t w'. bidi_run es (bidi_started s) = Some r \<and> bd_sent s = [WriteHead 200 head, EndGenerator]
    \<and> map (pb_ParseFromString qpb) (br_reads r @ q_buffer (bd_queue (br_state r))) = map Some ms
    \<and> pulls sw_generate (bd_writer (br_state r)) bufs = (wire, Some (GTrailers t), w')
    \<and> (\<forall>chunks'. concat chunks' = br_out r @ wire \<and> list_all (\<lambda>c. c \<noteq> []) chunks' \<longrightarrow>
         (\<exists>call'. feeds (\<lambda>s copy. xb_OnData copy s) (xb_Attach 200 head call) chunks' = Some call'
            \<and> read_until_end (BidiStream_Read ppb) n (xb_reader (xb_OnTrailers t call')) = (rs, Some (if is_ok st then status_ok else st))
            \<and> RawClientReader_Finish (xb_reader (xb_OnTrailers t call')) = Some st
            \<and> RawClientWriter_Finish (xb_writer (xb_OnTrailers t call')) = Some st))"
proof -
  have sizes: "list_all (\<lambda>b. length b \<le> mmsg \<and> length b < 2 ^ 32) (written ws)"
    using assms(7) written_short [of ws] by (simp add: list_all_iff)
  have "lpm_spec sp_accept mmsg (concat (data_chunks es)) = (written ws, Rest [])"
    using lpm_spec_frames [OF sizes] client_stream_sent [OF assms(3-5)] assms(10) by (simp add: sp_accept_def)
  then obtain p st0 where f: "feeds (stream_feed sp_loop) (new_StreamingFrameParser mmsg, [], status_ok) (data_chunks es)
      = Some (p, written ws, st0)" "is_ok st0"
    using sp_stream [of mmsg "data_chunks es"] by (auto simp: stream_view_def)
  obtain r where r: "bidi_run es (bidi_started s) = Some r" "receiving mmsg (data_chunks es) r" "sending mresp (handler_writes es) (Some st) r"
    using bidi_run_halves [OF f assms(13) bd_Start_halves(1,2) [OF assms(8,9)]] assms(12) by auto
  have reads: "br_reads r @ q_buffer (bd_queue (br_state r)) = written ws" using r(2) f(1) by (auto simp: receiving_def)
  let ?w = "bd_writer (br_state r)" and ?t = "BuildTrailers st [] []"
  have w: "sw_inv ?w" "br_out r @ sw_rest ?w = framed (handler_writes es)" "sw_finished ?w" "sw_trail_hdrs ?w = ?t"
    using r(3) by (simp_all add: sending_def)
  from w(2) have "length (sw_rest ?w) \<le> length (framed (handler_writes es))" by (metis length_append le_add2)
  then obtain w' where w': "pulls sw_generate ?w bufs = (sw_rest ?w, Some (GTrailers ?t), w')"
    using server_writer.pulls_all [OF w(1) assms(18)] assms(19) w(3,4) by auto
  obtain imd where head: "bd_sent s = [WriteHead 200 (MetadataToNghttp2Headers imd (AddCommonHeaders zl [])), EndGenerator]"
    using bd_Start_halves(3) [OF assms(8,9)] by blast
  show ?thesis
    using r(1) head reads serialized_parse [OF assms(1,6)] w' w(2)
      bidi_client_reads [OF assms(2,11) refl assms(14-17), of _ n st ?t imd zl] assms(20)
    by (intro exI [of _ r] exI [of _ "MetadataToNghttp2Headers imd (AddCommonHeaders zl [])"] exI [of _ "sw_rest ?w"] exI [of _ ?t] exI [of _ w'])
      (simp add: Extract_BuildTrailers)
qed

theorem bidi_end_to_end_witness:
  "\<exists>r. bidi_run [BdRead, BdData (framed [''1'']), BdWrite ''1'', BdRead, BdPull 9, BdWrite [], BdDone (Inr status_ok)]
       (bidi_started (bd_Start copy_zlib 0 \<lparr>rq_header = [], rq_host = []\<rparr> (new_BidiStreamingCallState 9 9 9 []))) = Some r
     \<and> map (pb_ParseFromString flag_codec) (br_reads r @ q_buffer (bd_queue (br_state r))) = [Some (Some True)]"
proof -
  let ?ws = "[CwWrite ''1'', CwWritesDone, CwRun, CwRun, CwPull 9]"
  let ?es = "[BdRead, BdData (framed [''1'']), BdWrite ''1'', BdRead, BdPull 9, BdWrite [], BdDone (Inr status_ok)]"
  have run: "cw_run ?ws = (framed [''1''], snd (cw_run ?ws))" "fst (cw_Pull 1 (snd (cw_run ?ws))) = GEnd"
    by (simp_all add: cw_run_def new_RawClientWriterImpl_def Enqueue_def EncodeFrame_def MarkWritesDone_def framed_def
        cw_RunPosted_def req_resume_def cw_Pull_def ClientWriterGenerator_def Let_def be32_bytes_def)
  let ?s = "bd_Start copy_zlib 0 \<lparr>rq_header = [], rq_host = []\<rparr> (new_BidiStreamingCallState 9 9 9 [])"
  have started: "bd_spawned ?s"
    by (simp add: bd_Start_def new_BidiStreamingCallState_def arm_deadline_def mm_find_def Nghttp2HeadersToMetadata_def Let_def)
  have ser: "pb_SerializeToString flag_codec (Some True) = Some ''1''" "pb_SerializeToString flag_codec (Some False) = Some []"
    by (simp_all add: flag_codec_def)
  have "length (framed [''1'', []]) < 20" by (simp add: framed_def EncodeFrame_def be32_bytes_def Let_def)
  then show ?thesis
    using bidi_end_to_end [OF flag_codec_ok flag_codec_ok run _ _ _ refl started, of "[Some True]" ?es "[Some True, Some False]" status_ok
        "new_BidiStreamingClientCallState None" "replicate 20 1" 3]
    by (auto simp: before_done_def ser list_all_iff recv_limit_def new_BidiStreamingClientCallState_def)
qed

section \<open>Requests and deadlines\<close>

text \<open>
  C22: Which of a client's requests a server accepts. The headers a channel builds for any options and
  context pass every check of \<open>HandleRequest\<close>, so that a POST of a registered path at a server that is not
  shutting down becomes a new tracked call. The call's \<open>Start\<close> then accepts it exactly when the headers the
  application can see fit the server's metadata limit and, for a unary call, the compression the
  context asks for is \<open>identity\<close> or one the server supports; otherwise \<open>Start\<close> rejects the call.
\<close>

theorem client_request_accepted:
  assumes "BuildStreamingGrpcHeaders now opts ctx = Inr hdrs" "rq_header req = hdrs" "rq_method req = ''POST''" "\<not> sv_shutdown sv"
    and "registered sv (rq_path req) \<noteq> []"
  shows "fst (HandleRequest zl now' req sv) = []
    \<and> sv_next_call sv \<in> set (sv_active_calls (snd (HandleRequest zl now' req sv)))
    \<and> (\<exists>call. sv_calls (snd (HandleRequest zl now' req sv)) (sv_next_call sv) = Some call
        \<and> (accepted call \<longleftrightarrow> TotalSize (received hdrs) \<le> so_max_metadata_size (sv_opts sv)
            \<and> (hd (registered sv (rq_path req)) = Unary \<longrightarrow>
                 (case ctx of None \<Rightarrow> True
                  | Some c \<Rightarrow> cc_compression_algorithm c = ''identity'' \<or> ParseEncoding zl (cc_compression_algorithm c) \<noteq> None))))"
proof -
  have "str_contains ''application/grpc'' ''application/grpc+proto''" "str_contains ''trailers'' ''trailers''" by simp_all
  then have "refusals req sv = []"
    using assms(2-5) client_headers(1,2) [OF assms(1)] by (simp add: refusals_Nil header_has_def)
  note routed = HandleRequest_dispatches [OF this, of zl now']
  show ?thesis
    using client_encoding [OF assms(1)] assms(2) by (auto simp: routed started_call_accepted split: option.splits if_splits)
qed

theorem client_request_accepted_witness:
  "\<exists>call. sv_calls (snd (HandleRequest copy_zlib 0 \<lparr>rq_header = mm_emplace ''user-agent'' (plain_value (co_user_agent default_ChannelOptions))
       (mm_emplace ''te'' (plain_value ''trailers'') (mm_emplace ''content-type'' (plain_value ''application/grpc+proto'') [])),
     rq_host = [], rq_method = ''POST'', rq_path = ''/x'', rq_certificate = None\<rparr> (sample_server\<lparr>sv_handlers := [''/x'' \<mapsto> 0]\<rparr>))) 1 = Some call"
proof -
  let ?hdrs = "mm_emplace ''user-agent'' (plain_value (co_user_agent default_ChannelOptions))
       (mm_emplace ''te'' (plain_value ''trailers'') (mm_emplace ''content-type'' (plain_value ''application/grpc+proto'') []))"
  let ?sv = "sample_server\<lparr>sv_handlers := [''/x'' \<mapsto> 0]\<rparr>"
  have "BuildStreamingGrpcHeaders 0 default_ChannelOptions None = Inr ?hdrs"
    by (simp add: BuildStreamingGrpcHeaders_def del: mm_emplace.simps)
  from client_request_accepted [OF this, of "\<lparr>rq_header = ?hdrs, rq_host = [], rq_method = ''POST'', rq_path = ''/x'', rq_certificate = None\<rparr>" ?sv
      copy_zlib 0]
  show ?thesis by (auto simp: registered_def sample_server_def new_ServerImpl_def simp del: mm_emplace.simps)
qed

text \<open>
  C23: Deadlines propagate. When a client sends a request with a deadline that lies ahead by at most
  2562047 hours, the server arms its timer with a duration that is not shorter than what remained
  to the client and too long by less than one part in 99999, and gives the handler that deadline;
  a request without a deadline arms no timer.
\<close>

theorem deadline_propagates:
  assumes "BuildStreamingGrpcHeaders now opts (Some c) = Inr hdrs" "rq_header req = hdrs"
  shows "case cc_deadline c of
      None \<Rightarrow> arm_deadline now' req sc = (sc, None)
    | Some d \<Rightarrow> - (2 ^ 63) \<le> d - now \<and> d - now \<le> 2562047 * 3600000000000 \<longrightarrow>
        (\<exists>d'. arm_deadline now' req sc = (sc\<lparr>sc_deadline := time_add now' d', sc_has_deadline := True\<rparr>, Some d')
           \<and> 0 < d - now \<and> d - now \<le> d' \<and> (d' = d - now \<or> (d' - (d - now)) * 99999 < d - now))"
proof (cases "cc_deadline c")
  case None
  then show ?thesis
    using client_headers(3) [OF assms(1)] assms(2) by (simp add: arm_deadline_def)
next
  case (Some d)
  have "\<exists>d'. arm_deadline now' req sc = (sc\<lparr>sc_deadline := time_add now' d', sc_has_deadline := True\<rparr>, Some d')
      \<and> 0 < d - now \<and> d - now \<le> d' \<and> (d' = d - now \<or> (d' - (d - now)) * 99999 < d - now)"
    if range: "- (2 ^ 63) \<le> d - now" "d - now \<le> 2562047 * 3600000000000"
  proof -
    have "time_add d (- now) = d - now"
      unfolding time_add_def signed_of_int using range by (simp add: signed_take_bit_int_eq_self)
    then have rem: "deadline_from_now now c = d - now"
      by (simp add: deadline_from_now_def Some)
    then have pos: "0 < d - now"
      using assms(1) Some by (auto simp: BuildStreamingGrpcHeaders_def Let_def split: if_splits)
    obtain d' where d': "d - now \<le> d'" "d' = d - now \<or> (d' - (d - now)) * 99999 < d - now"
      "ParseTimeout (FormatTimeout (d - now)) = Some d'"
      using FormatTimeout_roundtrip [OF pos] range(2) by (auto simp: max_ns_def)
    have "FormatTimeout (d - now) \<noteq> []" using d'(3) by (auto simp: ParseTimeout_def)
    then show ?thesis
      using d' pos rem Some client_headers(3) [OF assms(1)] assms(2) by (intro exI [of _ d']) (simp add: arm_deadline_def)
  qed
  then show ?thesis using Some by auto
qed

theorem deadline_propagates_witness:
  "\<exists>hdrs d'. BuildStreamingGrpcHeaders 100 default_ChannelOptions (Some (new_ClientContext\<lparr>cc_deadline := Some 5000000100\<rparr>)) = Inr hdrs
     \<and> snd (arm_deadline 0 \<lparr>rq_header = hdrs, rq_host = []\<rparr> new_ServerContext) = Some d' \<and> 5000000000 \<le> d'"
proof -
  let ?c = "new_ClientContext\<lparr>cc_deadline := Some 5000000100\<rparr>"
  have "deadline_from_now 100 ?c = 5000000000"
    by (simp add: deadline_from_now_def time_add_def)
  then obtain hdrs where "BuildStreamingGrpcHeaders 100 default_ChannelOptions (Some ?c) = Inr hdrs"
    by (simp add: BuildStreamingGrpcHeaders_def Let_def del: mm_emplace.simps)
  then show ?thesis
    using deadline_propagates [of 100 default_ChannelOptions ?c hdrs "\<lparr>rq_header = hdrs, rq_host = []\<rparr>" 0 new_ServerContext]
    by (auto simp del: mm_emplace.simps)
qed

text \<open>
  C38: A status the server answers by itself is lost on this library's own client. Whenever
  \<open>HandleRequest\<close> answers without creating a call (shutting down, unknown method, missing \<open>te\<close>, wrong
  method or content type), its head has no \<open>content-type\<close>, so the client reports the HTTP status in
  place of the gRPC status the head carries: UNKNOWN \<open>HTTP 200\<close> instead of UNIMPLEMENTED or UNAVAILABLE.
\<close>

theorem routing_status_lost:
  assumes "HandleRequest zl now req sv = (acts, sv')" "acts \<noteq> []"
  shows "\<exists>code head raw. acts = [WriteHead code head, EndStream]
    \<and> uc_completions (uc_Attach zl' code head (new_ClientCallState ctx)) = [raw] \<and> rr_status raw = FromHttpStatus code
    \<and> (code = 200 \<longrightarrow> status_code (rr_status raw) = UNKNOWN \<and> status_code (ExtractTrailerStatus head) \<in> {UNIMPLEMENTED, UNAVAILABLE})"
proof -
  obtain code head where acts: "acts = [WriteHead code head, EndStream]" "mm_find head ''content-type'' = None"
    "code = 200 \<Longrightarrow> status_code (ExtractTrailerStatus head) \<in> {UNIMPLEMENTED, UNAVAILABLE}"
    using assms unfolding HandleRequest_def Let_def
    by (auto simp: trailers_only_head mm_find_def [of "[]"] split: if_splits)
  then show ?thesis
    by (auto simp: uc_Attach_def is_grpc_head_def new_ClientCallState_def Let_def FromHttpStatus_def http_code_def)
qed

theorem routing_status_lost_witness:
  "\<exists>head raw. fst (HandleRequest copy_zlib 0 \<lparr>rq_header = [], rq_host = [], rq_method = ''POST'', rq_path = ''/x'',
       rq_certificate = None\<rparr> (sample_server\<lparr>sv_shutdown := True\<rparr>)) = [WriteHead 200 head, EndStream]
     \<and> uc_completions (uc_Attach copy_zlib 200 head (new_ClientCallState None)) = [raw] \<and> status_code (rr_status raw) = UNKNOWN"
  using routing_status_lost [of copy_zlib 0 "\<lparr>rq_header = [], rq_host = [], rq_method = ''POST'', rq_path = ''/x'',
       rq_certificate = None\<rparr>" "sample_server\<lparr>sv_shutdown := True\<rparr>", OF prod.collapse [symmetric], of copy_zlib None]
  by (auto simp: HandleRequest_def)

end
